theory Spec2Isabelle
  imports Main "HOL-Library.Word"
begin

unbundle bit_operations_syntax

section \<open>Python values, exceptions and the state of the monitor\<close>

text \<open>
  The program is a single Python module, \<^verbatim>\<open>github_monitor.py\<close>: a poll loop that
  fetches a feed of events, skips the ones already recorded in an SQLite table, formats
  each new one (looking up repository and avatar metadata through a cache), posts the
  message to every configured DingTalk and Feishu webhook, and records the event.

  Text is modelled as \<^typ>\<open>string\<close>, holding the UTF-8 bytes of the Python \<^verbatim>\<open>str\<close>;
  \<^verbatim>\<open>.encode('utf-8')\<close> is then the identity. The non-ASCII literals of the source are
  written out byte by byte.
\<close>

subsection \<open>JSON values\<close>

text \<open>
  What \<^verbatim>\<open>response.json()\<close> returns, and what is stored in and read back from SQLite.
  A JSON object is an association list; \<^const>\<open>map_of\<close> looks a key up. Floating-point
  numbers are left out.
\<close>

datatype json =
    JNull
  | JBool bool
  | JInt int
  | JStr string
  | JList "json list"
  | JObj "(string \<times> json) list"

subsection \<open>Exceptions\<close>

text \<open>
  An exception is its class and the text \<^verbatim>\<open>str(e)\<close> gives. \<^verbatim>\<open>KeyboardInterrupt\<close> is the
  one class here that \<^verbatim>\<open>except Exception\<close> does not catch. \<open>SqliteError\<close> stands for
  every \<^verbatim>\<open>sqlite3.Error\<close> other than \<^verbatim>\<open>sqlite3.IntegrityError\<close>, \<open>RequestException\<close> for
  \<^verbatim>\<open>requests.exceptions.RequestException\<close> and its subclasses.
\<close>

datatype exn_class =
    KeyError
  | TypeError
  | ValueError
  | AttributeError
  | RequestException
  | IntegrityError
  | SqliteError
  | OverflowError
  | OtherException
  | KeyboardInterrupt

datatype exn = Exn exn_class string

fun exn_cls :: "exn \<Rightarrow> exn_class" where
  "exn_cls (Exn c t) = c"

fun exn_str :: "exn \<Rightarrow> string" where
  "exn_str (Exn c t) = t"

definition is_Exception :: "exn \<Rightarrow> bool" where
  "is_Exception e = (exn_cls e \<noteq> KeyboardInterrupt)"

definition is_RequestException :: "exn \<Rightarrow> bool" where
  "is_RequestException e = (exn_cls e = RequestException)"

definition is_IntegrityError :: "exn \<Rightarrow> bool" where
  "is_IntegrityError e = (exn_cls e = IntegrityError)"

subsection \<open>Decimal rendering of integers\<close>

definition digit_char :: "nat \<Rightarrow> char" where
  "digit_char d = ''0123456789'' ! (d mod 10)"

function str_nat :: "nat \<Rightarrow> string" where
  "str_nat n = (if n < 10 then [digit_char n] else str_nat (n div 10) @ [digit_char (n mod 10)])"
  by pat_completeness auto
termination
  by (relation "measure (\<lambda>n. n)") auto

declare str_nat.simps [simp del]

definition str_int :: "int \<Rightarrow> string" where
  "str_int i = (if i < 0 then CHR ''-'' # str_nat (nat (- i)) else str_nat (nat i))"

subsection \<open>Operations on Python values\<close>

text \<open>\<^verbatim>\<open>repr\<close> of a (literal) key, as \<^verbatim>\<open>str(KeyError(key))\<close> shows it.\<close>

definition repr_key :: "string \<Rightarrow> string" where
  "repr_key k = [CHR 0x27] @ k @ [CHR 0x27]"

definition type_name :: "json \<Rightarrow> string" where
  "type_name v = (case v of
      JNull \<Rightarrow> ''NoneType'' | JBool b \<Rightarrow> ''bool'' | JInt i \<Rightarrow> ''int''
    | JStr s \<Rightarrow> ''str'' | JList xs \<Rightarrow> ''list'' | JObj kvs \<Rightarrow> ''dict'')"

text \<open>\<^verbatim>\<open>v[key]\<close> with a string key: only a dict holding the key answers.\<close>

definition py_getitem :: "json \<Rightarrow> string \<Rightarrow> exn + json" where
  "py_getitem v k = (case v of
      JObj kvs \<Rightarrow> (case map_of kvs k of
                     Some x \<Rightarrow> Inr x
                   | None \<Rightarrow> Inl (Exn KeyError (repr_key k)))
    | JStr s \<Rightarrow> Inl (Exn TypeError (''string indices must be integers, not '' @ repr_key ''str''))
    | JList xs \<Rightarrow> Inl (Exn TypeError ''list indices must be integers or slices, not str'')
    | _ \<Rightarrow> Inl (Exn TypeError ([CHR 0x27] @ type_name v @ [CHR 0x27] @ '' object is not subscriptable'')))"

text \<open>\<^verbatim>\<open>v.get(key, default)\<close>: only a dict has the method.\<close>

definition py_get :: "json \<Rightarrow> string \<Rightarrow> json \<Rightarrow> exn + json" where
  "py_get v k dflt = (case v of
      JObj kvs \<Rightarrow> (case map_of kvs k of Some x \<Rightarrow> Inr x | None \<Rightarrow> Inr dflt)
    | _ \<Rightarrow> Inl (Exn AttributeError
             ([CHR 0x27] @ type_name v @ [CHR 0x27] @ '' object has no attribute '' @ repr_key ''get'')))"

text \<open>Truthiness, as \<^verbatim>\<open>if v:\<close> tests it.\<close>

definition truthy :: "json \<Rightarrow> bool" where
  "truthy v = (case v of
      JNull \<Rightarrow> False | JBool b \<Rightarrow> b | JInt i \<Rightarrow> i \<noteq> 0
    | JStr s \<Rightarrow> s \<noteq> [] | JList xs \<Rightarrow> xs \<noteq> [] | JObj kvs \<Rightarrow> kvs \<noteq> [])"

text \<open>
  \<^verbatim>\<open>for x in v\<close>: a list yields its elements, a dict its keys, a string its characters
  (one-character strings; Python yields one per code point, the model one per byte),
  anything else is not iterable.
\<close>

definition py_iter :: "json \<Rightarrow> exn + json list" where
  "py_iter v = (case v of
      JList xs \<Rightarrow> Inr xs
    | JObj kvs \<Rightarrow> Inr (map (\<lambda>kv. JStr (fst kv)) kvs)
    | JStr s \<Rightarrow> Inr (map (\<lambda>c. JStr [c]) s)
    | _ \<Rightarrow> Inl (Exn TypeError ([CHR 0x27] @ type_name v @ [CHR 0x27] @ '' object is not iterable'')))"

text \<open>\<^verbatim>\<open>str.join\<close> on a list of strings.\<close>

fun join :: "string \<Rightarrow> string list \<Rightarrow> string" where
  "join sep [] = []"
| "join sep [x] = x"
| "join sep (x # y # ys) = x @ sep @ join sep (y # ys)"

text \<open>
  \<^verbatim>\<open>s.replace(old, new)\<close> for a non-empty \<open>old\<close>: every occurrence, left to right,
  without overlap. (The source never replaces the empty string; the model leaves the
  text unchanged there.)
\<close>

function replace :: "string \<Rightarrow> string \<Rightarrow> string \<Rightarrow> string" where
  "replace old new s =
     (if s = [] \<or> old = [] then s
      else if take (length old) s = old then new @ replace old new (drop (length old) s)
      else hd s # replace old new (tl s))"
  by pat_completeness auto
termination
  by (relation "measure (\<lambda>(old, new, s). length s)") auto

declare replace.simps [simp del]

text \<open>\<^verbatim>\<open>sub in s\<close> for strings.\<close>

fun contains :: "string \<Rightarrow> string \<Rightarrow> bool" where
  "contains sub [] = (sub = [])"
| "contains sub (c # cs) = (take (length sub) (c # cs) = sub \<or> contains sub cs)"

subsection \<open>Configuration\<close>

text \<open>
  The configuration object read from \<^verbatim>\<open>config.yaml\<close>, with the keys the program reads.
  \<open>secret\<close> and \<open>bot_name\<close> are read with \<^verbatim>\<open>.get\<close> and may be absent.
\<close>

record bot_config =
  webhook :: string
  secret :: "string option"
  bot_name :: "string option"

record config =
  github_username :: string
  github_token :: string
  max_events :: int
  poll_interval :: int
  dingtalk_enable :: bool
  dingtalk_bots :: "bot_config list"
  feishu_enable :: bool
  feishu_bots :: "bot_config list"

subsection \<open>The world outside the program\<close>

record response =
  status_code :: int
  resp_text :: string
  resp_json :: "json option"

datatype http_outcome = Raises exn | Responds response

datatype payload =
    DingTalkMarkdown string string
  | FeishuCard string string

text \<open>
  The calls on the connection: the SQL statement of each method of \<^verbatim>\<open>Database\<close>, and the
  \<^verbatim>\<open>conn.commit()\<close> that follows each of the three writes.
\<close>

datatype stmt =
    SelectPushed
  | InsertPushed
  | CommitPushed
  | SelectRepo
  | ReplaceRepo
  | CommitRepo
  | SelectUser
  | ReplaceUser
  | CommitUser

record parsed_url =
  url_rest :: string
  url_query :: string

text \<open>
  Everything the program asks of its surroundings is answered by an \<open>env\<close>. The first
  argument of each answer is the number of questions asked before (\<open>tick\<close> below), so
  an \<open>env\<close> can script any sequence of answers.
  \<^item> \<open>http_get\<close>, \<open>http_post\<close>: what \<^verbatim>\<open>requests.get\<close> and \<^verbatim>\<open>requests.post\<close> do for
    a URL (and payload): raise, or return a response.
  \<^item> \<open>storage_fault\<close>: the exception a call on the connection (a statement or a commit)
    raises, if any.
  \<^item> \<open>sleep_interrupted\<close>: whether a \<^verbatim>\<open>KeyboardInterrupt\<close> ends a \<^verbatim>\<open>time.sleep\<close>.
  \<^item> \<open>now_iso\<close>: \<^verbatim>\<open>datetime.now().isoformat()\<close>; \<open>time_millis\<close>:
    \<^verbatim>\<open>round(time.time() * 1000)\<close>; \<open>time_seconds\<close>: \<^verbatim>\<open>int(time.time())\<close>.
  The remaining fields are library functions whose results the program only passes on:
  \<^item> \<open>reformat_time\<close>: \<^verbatim>\<open>datetime.strptime(s, "%Y-%m-%dT%H:%M:%SZ").strftime("%Y-%m-%d %H:%M")\<close>;
  \<^item> \<open>repr_container\<close>: \<^verbatim>\<open>str\<close> of a list or dict;
  \<^item> \<open>integer_affinity\<close>: what SQLite stores when text is written to an INTEGER column;
  \<^item> \<open>urlparse\<close>, \<open>urlunparse\<close>: \<^verbatim>\<open>urllib.parse.urlparse\<close> and \<^verbatim>\<open>urlunparse\<close>, where
    a parsed URL is its query string and all its other components.
\<close>

record env =
  http_get :: "nat \<Rightarrow> string \<Rightarrow> http_outcome"
  http_post :: "nat \<Rightarrow> string \<Rightarrow> payload \<Rightarrow> http_outcome"
  storage_fault :: "stmt \<Rightarrow> nat \<Rightarrow> exn option"
  sleep_interrupted :: "nat \<Rightarrow> bool"
  now_iso :: "nat \<Rightarrow> string"
  time_millis :: "nat \<Rightarrow> int"
  time_seconds :: "nat \<Rightarrow> int"
  reformat_time :: "string \<Rightarrow> exn + string"
  repr_container :: "json \<Rightarrow> string"
  integer_affinity :: "string \<Rightarrow> json"
  urlparse :: "string \<Rightarrow> exn + parsed_url"
  urlunparse :: "parsed_url \<Rightarrow> string"

subsection \<open>The database\<close>

text \<open>
  The three tables of \<^verbatim>\<open>Database._init_db\<close>, each a list of rows with the primary key
  first. A key or a TEXT value is \<^const>\<open>JNull\<close> or a \<^const>\<open>JStr\<close>. The tables are what the
  one connection of the program reads: the rows it has written, committed or not.
\<close>

record database =
  pushed_events :: "(json \<times> string) list"
  repo_cache :: "(json \<times> json \<times> json \<times> json \<times> string) list"
  user_cache :: "(json \<times> json \<times> string) list"

definition empty_database :: database where
  "empty_database = \<lparr>pushed_events = [], repo_cache = [], user_cache = []\<rparr>"

subsection \<open>State, effects and the exception monad\<close>

datatype log_level = INFO | WARNING | ERROR

text \<open>
  What an observer sees: requests sent, sleeps (in milliseconds), log lines, and each
  call \<^verbatim>\<open>notifier.send_all(msg)\<close> of the poll loop with the \<^verbatim>\<open>event["id"]\<close> it is for,
  and the closing of the database connection.
\<close>

datatype effect =
    NetGet string
  | NetPost string payload
  | Slept int
  | Logged log_level string
  | SendAll json string
  | DbClosed

record state =
  db :: database
  tick :: nat
  trace :: "effect list"

definition initial_state :: state where
  "initial_state = \<lparr>db = empty_database, tick = 0, trace = []\<rparr>"

type_synonym 'a prog = "state \<Rightarrow> (exn + 'a) \<times> state"

definition ret :: "'a \<Rightarrow> 'a prog" where
  "ret v = (\<lambda>s. (Inr v, s))"

definition raise_exn :: "exn \<Rightarrow> 'a prog" where
  "raise_exn e = (\<lambda>s. (Inl e, s))"

definition and_then :: "'a prog \<Rightarrow> ('a \<Rightarrow> 'b prog) \<Rightarrow> 'b prog" where
  "and_then m f = (\<lambda>s. case m s of (Inl e, s') \<Rightarrow> (Inl e, s') | (Inr v, s') \<Rightarrow> f v s')"

text \<open>A pure computation that may raise.\<close>

definition lift :: "exn + 'a \<Rightarrow> 'a prog" where
  "lift r = (case r of Inl e \<Rightarrow> raise_exn e | Inr v \<Rightarrow> ret v)"

text \<open>\<^verbatim>\<open>try: m  except C as e: h(e)\<close>, where \<open>catches\<close> says which exceptions \<open>C\<close> covers.\<close>

definition try_except :: "(exn \<Rightarrow> bool) \<Rightarrow> 'a prog \<Rightarrow> (exn \<Rightarrow> 'a prog) \<Rightarrow> 'a prog" where
  "try_except catches m h =
     (\<lambda>s. case m s of
        (Inl e, s') \<Rightarrow> if catches e then h e s' else (Inl e, s')
      | (Inr v, s') \<Rightarrow> (Inr v, s'))"

definition next_tick :: "nat prog" where
  "next_tick = (\<lambda>s. (Inr (tick s), s\<lparr>tick := Suc (tick s)\<rparr>))"

definition emit :: "effect \<Rightarrow> unit prog" where
  "emit x = (\<lambda>s. (Inr (), s\<lparr>trace := trace s @ [x]\<rparr>))"

definition get_db :: "database prog" where
  "get_db = (\<lambda>s. (Inr (db s), s))"

definition put_db :: "database \<Rightarrow> unit prog" where
  "put_db d = (\<lambda>s. (Inr (), s\<lparr>db := d\<rparr>))"

definition modify_db :: "(database \<Rightarrow> database) \<Rightarrow> unit prog" where
  "modify_db f = (\<lambda>s. (Inr (), s\<lparr>db := f (db s)\<rparr>))"

text \<open>
  \<^verbatim>\<open>response.json()\<close>: the decoded body, or the \<^verbatim>\<open>requests.exceptions.JSONDecodeError\<close> (a
  \<^verbatim>\<open>RequestException\<close> since requests 2.27; every handler of this program that catches
  the one catches the other) of a body that is not JSON.
\<close>

definition response_json :: "response \<Rightarrow> exn + json" where
  "response_json r = (case resp_json r of
      Some v \<Rightarrow> Inr v
    | None \<Rightarrow> Inl (Exn RequestException ''Expecting value: line 1 column 1 (char 0)''))"

text \<open>The logger never raises.\<close>

definition log :: "log_level \<Rightarrow> string \<Rightarrow> unit prog" where
  "log lvl msg = emit (Logged lvl msg)"

definition requests_get :: "env \<Rightarrow> string \<Rightarrow> response prog" where
  "requests_get w url =
     and_then next_tick (\<lambda>t.
     and_then (emit (NetGet url)) (\<lambda>_.
       case http_get w t url of Raises e \<Rightarrow> raise_exn e | Responds r \<Rightarrow> ret r))"

definition requests_post :: "env \<Rightarrow> string \<Rightarrow> payload \<Rightarrow> response prog" where
  "requests_post w url p =
     and_then next_tick (\<lambda>t.
     and_then (emit (NetPost url p)) (\<lambda>_.
       case http_post w t url p of Raises e \<Rightarrow> raise_exn e | Responds r \<Rightarrow> ret r))"

text \<open>\<^verbatim>\<open>time.sleep\<close> of a duration in milliseconds; a negative duration is a \<^verbatim>\<open>ValueError\<close>.\<close>

definition sleep :: "env \<Rightarrow> int \<Rightarrow> unit prog" where
  "sleep w ms =
     (if ms < 0 then raise_exn (Exn ValueError ''sleep length must be non-negative'')
      else and_then next_tick (\<lambda>t.
           and_then (emit (Slept ms)) (\<lambda>_.
             if sleep_interrupted w t then raise_exn (Exn KeyboardInterrupt []) else ret ())))"

subsection \<open>Values on their way into SQLite and into text\<close>

text \<open>
  Binding a Python value as the parameter number \<open>pos\<close> of a statement: \<^verbatim>\<open>None\<close>, strings
  and the integers of 64 bits (booleans are integers) are accepted; a larger integer is
  an \<^verbatim>\<open>OverflowError\<close>, a list or dict a \<^verbatim>\<open>sqlite3.ProgrammingError\<close>.
\<close>

definition unsupported_type :: "nat \<Rightarrow> json \<Rightarrow> exn" where
  "unsupported_type pos v =
     Exn SqliteError (''Error binding parameter '' @ str_nat pos @ '': type ''
                      @ repr_key (type_name v) @ '' is not supported'')"

definition sql_bind :: "nat \<Rightarrow> json \<Rightarrow> exn + json" where
  "sql_bind pos v = (case v of
      JList xs \<Rightarrow> Inl (unsupported_type pos v)
    | JObj kvs \<Rightarrow> Inl (unsupported_type pos v)
    | JBool b \<Rightarrow> Inr (JInt (if b then 1 else 0))
    | JInt i \<Rightarrow>
        (if - (2 ^ 63) \<le> i \<and> i < 2 ^ 63 then Inr v
         else Inl (Exn OverflowError ''Python int too large to convert to SQLite INTEGER''))
    | _ \<Rightarrow> Inr v)"

text \<open>A TEXT column (and a comparison with one) turns an integer into its decimal text.\<close>

definition text_affinity :: "json \<Rightarrow> json" where
  "text_affinity v = (case v of JInt i \<Rightarrow> JStr (str_int i) | _ \<Rightarrow> v)"

definition int_affinity :: "env \<Rightarrow> json \<Rightarrow> json" where
  "int_affinity w v = (case v of JStr s \<Rightarrow> integer_affinity w s | _ \<Rightarrow> v)"

text \<open>The parameter number \<open>pos\<close>, bound for a TEXT column and for an INTEGER column.\<close>

definition sql_text_at :: "nat \<Rightarrow> json \<Rightarrow> exn + json" where
  "sql_text_at pos v =
     (case sql_bind pos v of Inl e \<Rightarrow> Inl e | Inr b \<Rightarrow> Inr (text_affinity b))"

definition sql_integer :: "env \<Rightarrow> nat \<Rightarrow> json \<Rightarrow> exn + json" where
  "sql_integer w pos v =
     (case sql_bind pos v of Inl e \<Rightarrow> Inl e | Inr b \<Rightarrow> Inr (int_affinity w b))"

text \<open>
  The key of a row: it is the first parameter of each of the six statements, and the
  key column of each table is a TEXT column.
\<close>

definition sql_text :: "json \<Rightarrow> exn + json" where
  "sql_text v = sql_text_at 1 v"

text \<open>\<^verbatim>\<open>str(v)\<close>, as an f-string renders a value.\<close>

definition py_str :: "env \<Rightarrow> json \<Rightarrow> string" where
  "py_str w v = (case v of
      JNull \<Rightarrow> ''None''
    | JBool b \<Rightarrow> (if b then ''True'' else ''False'')
    | JInt i \<Rightarrow> str_int i
    | JStr s \<Rightarrow> s
    | _ \<Rightarrow> repr_container w v)"

text \<open>
  One call on the connection: it takes a tick and raises what the environment says. A
  statement that raises writes nothing.
\<close>

definition statement :: "env \<Rightarrow> stmt \<Rightarrow> nat prog" where
  "statement w q =
     and_then next_tick (\<lambda>t.
       case storage_fault w q t of Some e \<Rightarrow> raise_exn e | None \<Rightarrow> ret t)"

text \<open>
  \<^verbatim>\<open>self.conn.commit()\<close> after the write \<open>q\<close>. A commit that raises (the database is locked
  by another process, say) leaves the transaction open: the rows written before it stay
  in the tables the connection reads.
\<close>

definition commit :: "env \<Rightarrow> stmt \<Rightarrow> unit prog" where
  "commit w q = and_then (statement w q) (\<lambda>t. ret ())"

text \<open>A row with the key \<open>k\<close>; \<^verbatim>\<open>NULL\<close> equals nothing, itself included.\<close>

definition has_key :: "json \<Rightarrow> (json \<times> 'a) list \<Rightarrow> bool" where
  "has_key k rows = (k \<noteq> JNull \<and> k \<in> set (map fst rows))"

definition select_row :: "json \<Rightarrow> (json \<times> 'a) list \<Rightarrow> 'a option" where
  "select_row k rows = (if k = JNull then None else map_of rows k)"

text \<open>\<^verbatim>\<open>INSERT OR REPLACE\<close>: the row with the same key, if any, goes; the new one is added.\<close>

definition insert_or_replace :: "json \<Rightarrow> 'a \<Rightarrow> (json \<times> 'a) list \<Rightarrow> (json \<times> 'a) list" where
  "insert_or_replace k v rows = filter (\<lambda>r. \<not> (k \<noteq> JNull \<and> fst r = k)) rows @ [(k, v)]"

section \<open>Database\<close>

text \<open>
  \<^verbatim>\<open>
  def is_pushed(self, event_id):
      cursor = self.conn.cursor()
      cursor.execute("SELECT 1 FROM pushed_events WHERE event_id=?", (event_id,))
      return cursor.fetchone() is not None
  \<close>
\<close>

definition is_pushed :: "env \<Rightarrow> json \<Rightarrow> bool prog" where
  "is_pushed w event_id =
     and_then (statement w SelectPushed) (\<lambda>t.
     and_then (lift (sql_text event_id)) (\<lambda>k.
     and_then get_db (\<lambda>d.
       ret (has_key k (pushed_events d)))))"

text \<open>
  \<^verbatim>\<open>
  def mark_pushed(self, event_id):
      try:
          self.conn.execute("INSERT INTO pushed_events VALUES (?, ?)",
                            (event_id, datetime.now().isoformat()))
          self.conn.commit()
      except sqlite3.IntegrityError:
          pass
  \<close>
  \<open>insert_pushed\<close> is the \<^verbatim>\<open>conn.execute\<close> of the \<^verbatim>\<open>INSERT\<close>: the insert of a key that is
  already there raises \<^verbatim>\<open>IntegrityError\<close>.
\<close>

definition insert_pushed :: "env \<Rightarrow> json \<Rightarrow> unit prog" where
  "insert_pushed w event_id =
     and_then (statement w InsertPushed) (\<lambda>t.
     and_then (lift (sql_text event_id)) (\<lambda>k.
     and_then get_db (\<lambda>d.
       if has_key k (pushed_events d)
       then raise_exn (Exn IntegrityError ''UNIQUE constraint failed: pushed_events.event_id'')
       else put_db (d\<lparr>pushed_events := pushed_events d @ [(k, now_iso w t)]\<rparr>))))"

definition mark_pushed :: "env \<Rightarrow> json \<Rightarrow> unit prog" where
  "mark_pushed w event_id =
     try_except is_IntegrityError
       (and_then (insert_pushed w event_id) (\<lambda>_. commit w CommitPushed))
       (\<lambda>e. ret ())"

text \<open>
  \<^verbatim>\<open>
  def get_repo_info(self, repo_name):
      cursor = self.conn.cursor()
      cursor.execute("SELECT description, language, stars FROM repo_cache WHERE name=?",
                     (repo_name,))
      return cursor.fetchone()
  \<close>
\<close>

definition get_repo_info :: "env \<Rightarrow> json \<Rightarrow> (json \<times> json \<times> json) option prog" where
  "get_repo_info w repo_name =
     and_then (statement w SelectRepo) (\<lambda>t.
     and_then (lift (sql_text repo_name)) (\<lambda>k.
     and_then get_db (\<lambda>d.
       ret (case select_row k (repo_cache d) of
              None \<Rightarrow> None
            | Some (description, language, stars, last_updated) \<Rightarrow>
                Some (description, language, stars)))))"

text \<open>
  \<^verbatim>\<open>
  def cache_repo_info(self, repo_name, info):
      self.conn.execute("INSERT OR REPLACE INTO repo_cache VALUES (?, ?, ?, ?, ?)",
          (repo_name, info.get("description"), info.get("language"),
           info.get("stargazers_count", 0), datetime.now().isoformat()))
      self.conn.commit()
  \<close>
\<close>

definition cache_repo_info :: "env \<Rightarrow> json \<Rightarrow> json \<Rightarrow> unit prog" where
  "cache_repo_info w repo_name info =
     and_then (lift (py_get info ''description'' JNull)) (\<lambda>description.
     and_then (lift (py_get info ''language'' JNull)) (\<lambda>language.
     and_then (lift (py_get info ''stargazers_count'' (JInt 0))) (\<lambda>stars.
     and_then (statement w ReplaceRepo) (\<lambda>t.
     and_then (lift (sql_text repo_name)) (\<lambda>k.
     and_then (lift (sql_text_at 2 description)) (\<lambda>c1.
     and_then (lift (sql_text_at 3 language)) (\<lambda>c2.
     and_then (lift (sql_integer w 4 stars)) (\<lambda>c3.
     and_then (modify_db (\<lambda>d. d\<lparr>repo_cache :=
                  insert_or_replace k (c1, c2, c3, now_iso w t) (repo_cache d)\<rparr>)) (\<lambda>_.
       commit w CommitRepo)))))))))"

text \<open>
  \<^verbatim>\<open>
  def get_user_avatar(self, login):
      cursor = self.conn.cursor()
      cursor.execute("SELECT avatar_url FROM user_cache WHERE login=?", (login,))
      result = cursor.fetchone()
      return result[0] if result else None
  \<close>
\<close>

definition db_get_user_avatar :: "env \<Rightarrow> json \<Rightarrow> json prog" where
  "db_get_user_avatar w login =
     and_then (statement w SelectUser) (\<lambda>t.
     and_then (lift (sql_text login)) (\<lambda>k.
     and_then get_db (\<lambda>d.
       ret (case select_row k (user_cache d) of
              None \<Rightarrow> JNull
            | Some (avatar_url, last_updated) \<Rightarrow> avatar_url))))"

text \<open>
  \<^verbatim>\<open>
  def cache_user_avatar(self, login, avatar_url):
      self.conn.execute("INSERT OR REPLACE INTO user_cache VALUES (?, ?, ?)",
                        (login, avatar_url, datetime.now().isoformat()))
      self.conn.commit()
  \<close>
\<close>

definition cache_user_avatar :: "env \<Rightarrow> json \<Rightarrow> json \<Rightarrow> unit prog" where
  "cache_user_avatar w login avatar_url =
     and_then (statement w ReplaceUser) (\<lambda>t.
     and_then (lift (sql_text login)) (\<lambda>k.
     and_then (lift (sql_text_at 2 avatar_url)) (\<lambda>c1.
     and_then (modify_db (\<lambda>d. d\<lparr>user_cache :=
                  insert_or_replace k (c1, now_iso w t) (user_cache d)\<rparr>)) (\<lambda>_.
       commit w CommitUser))))"

section \<open>Notifier: metadata enrichment\<close>

definition DEFAULT_DESCRIPTION :: string where
  "DEFAULT_DESCRIPTION = [CHR 0xE6, CHR 0x9A, CHR 0x82, CHR 0xE6, CHR 0x97, CHR 0xA0, CHR 0xE6, CHR 0x8F, CHR 0x8F, CHR 0xE8, CHR 0xBF, CHR 0xB0]"

definition WARN_REPO :: string where
  "WARN_REPO = [CHR 0xE8, CHR 0x8E, CHR 0xB7, CHR 0xE5, CHR 0x8F, CHR 0x96, CHR 0xE4, CHR 0xBB, CHR 0x93, CHR 0xE5, CHR 0xBA, CHR 0x93, CHR 0xE8, CHR 0xAF, CHR 0xA6, CHR 0xE6, CHR 0x83, CHR 0x85, CHR 0xE5, CHR 0xA4, CHR 0xB1, CHR 0xE8, CHR 0xB4, CHR 0xA5] @ '': ''"

definition WARN_AVATAR :: string where
  "WARN_AVATAR = [CHR 0xE8, CHR 0x8E, CHR 0xB7, CHR 0xE5, CHR 0x8F, CHR 0x96, CHR 0xE7, CHR 0x94, CHR 0xA8, CHR 0xE6, CHR 0x88, CHR 0xB7, CHR 0xE5, CHR 0xA4, CHR 0xB4, CHR 0xE5, CHR 0x83, CHR 0x8F, CHR 0xE5, CHR 0xA4, CHR 0xB1, CHR 0xE8, CHR 0xB4, CHR 0xA5] @ '': ''"

definition PLACEHOLDER_AVATAR :: string where
  "PLACEHOLDER_AVATAR = ''https://github.com/identicons/app.png''"

text \<open>The dict \<^verbatim>\<open>_get_repo_details\<close> returns: description, language, stargazers_count.\<close>

type_synonym repo_details = "json \<times> json \<times> json"

definition default_details :: repo_details where
  "default_details = (JStr DEFAULT_DESCRIPTION, JStr [], JInt 0)"

text \<open>
  \<^verbatim>\<open>
  def _get_repo_details(self, repo_name):
      cached = self.db.get_repo_info(repo_name)
      if cached:
          return {"description": cached[0], "language": cached[1],
                  "stargazers_count": cached[2]}
      try:
          response = requests.get(f"https://api.github.com/repos/{repo_name}",
                                  headers=..., timeout=5)
          if response.status_code == 200:
              data = response.json()
              self.db.cache_repo_info(repo_name, data)
              return {"description": data.get("description"),
                      "language": data.get("language"),
                      "stargazers_count": data.get("stargazers_count", 0)}
      except Exception as e:
          logger.warning(f"...: {e}")
      return {"description": "...", "language": "", "stargazers_count": 0}
  \<close>
  The \<^verbatim>\<open>try\<close> block yields \<open>Some\<close> of what it returns, or \<open>None\<close> when control falls
  through to the final \<^verbatim>\<open>return\<close>.
\<close>

definition repo_url_api :: "env \<Rightarrow> json \<Rightarrow> string" where
  "repo_url_api w repo_name = ''https://api.github.com/repos/'' @ py_str w repo_name"

definition fetch_repo_details :: "env \<Rightarrow> json \<Rightarrow> repo_details option prog" where
  "fetch_repo_details w repo_name =
     and_then (requests_get w (repo_url_api w repo_name)) (\<lambda>response.
       if status_code response = 200 then
         and_then (lift (response_json response)) (\<lambda>data.
         and_then (cache_repo_info w repo_name data) (\<lambda>_.
         and_then (lift (py_get data ''description'' JNull)) (\<lambda>description.
         and_then (lift (py_get data ''language'' JNull)) (\<lambda>language.
         and_then (lift (py_get data ''stargazers_count'' (JInt 0))) (\<lambda>stars.
           ret (Some (description, language, stars)))))))
       else ret None)"

definition get_repo_details :: "env \<Rightarrow> json \<Rightarrow> repo_details prog" where
  "get_repo_details w repo_name =
     and_then (get_repo_info w repo_name) (\<lambda>cached.
       case cached of
         Some row \<Rightarrow> ret row
       | None \<Rightarrow>
           and_then (try_except is_Exception (fetch_repo_details w repo_name)
                       (\<lambda>e. and_then (log WARNING (WARN_REPO @ exn_str e)) (\<lambda>_. ret None)))
             (\<lambda>r. case r of Some details \<Rightarrow> ret details | None \<Rightarrow> ret default_details))"

text \<open>
  \<^verbatim>\<open>
  def _get_user_avatar(self, login):
      cached = self.db.get_user_avatar(login)
      if cached:
          return cached
      try:
          response = requests.get(f"https://api.github.com/users/{login}",
                                  headers=..., timeout=3)
          if response.status_code == 200:
              avatar_url = response.json().get("avatar_url", "")
              self.db.cache_user_avatar(login, avatar_url)
              return avatar_url
      except Exception as e:
          logger.warning(f"...: {e}")
      return "https://github.com/identicons/app.png"
  \<close>
\<close>

definition user_url_api :: "env \<Rightarrow> json \<Rightarrow> string" where
  "user_url_api w login = ''https://api.github.com/users/'' @ py_str w login"

definition fetch_user_avatar :: "env \<Rightarrow> json \<Rightarrow> json option prog" where
  "fetch_user_avatar w login =
     and_then (requests_get w (user_url_api w login)) (\<lambda>response.
       if status_code response = 200 then
         and_then (lift (response_json response)) (\<lambda>data.
         and_then (lift (py_get data ''avatar_url'' (JStr []))) (\<lambda>avatar_url.
         and_then (cache_user_avatar w login avatar_url) (\<lambda>_.
           ret (Some avatar_url))))
       else ret None)"

definition get_user_avatar :: "env \<Rightarrow> json \<Rightarrow> json prog" where
  "get_user_avatar w login =
     and_then (db_get_user_avatar w login) (\<lambda>cached.
       if truthy cached then ret cached
       else
         and_then (try_except is_Exception (fetch_user_avatar w login)
                     (\<lambda>e. and_then (log WARNING (WARN_AVATAR @ exn_str e)) (\<lambda>_. ret None)))
           (\<lambda>r. case r of Some avatar_url \<Rightarrow> ret avatar_url
                 | None \<Rightarrow> ret (JStr PLACEHOLDER_AVATAR)))"

section \<open>Notifier: message formatting\<close>

definition ACT_WATCH :: string where
  "ACT_WATCH = [CHR 0xE2, CHR 0xAD, CHR 0x90] @ '' Starred''"

definition ACT_FORK :: string where
  "ACT_FORK = [CHR 0xF0, CHR 0x9F, CHR 0x8D, CHR 0xB4] @ '' Forked''"

definition ACT_PR :: string where
  "ACT_PR = [CHR 0xF0, CHR 0x9F, CHR 0x94, CHR 0x80] @ '' '' @ [CHR 0xE6, CHR 0x8F, CHR 0x90, CHR 0xE4, CHR 0xBA, CHR 0xA4] @ ''PR'' @ [CHR 0xE5, CHR 0x88, CHR 0xB0]"

definition ACT_ISSUES :: string where
  "ACT_ISSUES = [CHR 0xE2, CHR 0x9D, CHR 0x97] @ '' '' @ [CHR 0xE5, CHR 0x88, CHR 0x9B, CHR 0xE5, CHR 0xBB, CHR 0xBA] @ ''Issue''"

definition ACT_PUSH :: string where
  "ACT_PUSH = [CHR 0xE2, CHR 0xAC, CHR 0x86, CHR 0xEF, CHR 0xB8, CHR 0x8F] @ '' '' @ [CHR 0xE6, CHR 0x8E, CHR 0xA8, CHR 0xE9, CHR 0x80, CHR 0x81, CHR 0xE4, CHR 0xBB, CHR 0xA3, CHR 0xE7, CHR 0xA0, CHR 0x81, CHR 0xE5, CHR 0x88, CHR 0xB0]"

definition ACT_CREATE :: string where
  "ACT_CREATE = [CHR 0xF0, CHR 0x9F, CHR 0x86, CHR 0x95] @ '' '' @ [CHR 0xE5, CHR 0x88, CHR 0x9B, CHR 0xE5, CHR 0xBB, CHR 0xBA]"

definition ACT_RELEASE :: string where
  "ACT_RELEASE = [CHR 0xF0, CHR 0x9F, CHR 0x9A, CHR 0x80] @ '' '' @ [CHR 0xE5, CHR 0x8F, CHR 0x91, CHR 0xE5, CHR 0xB8, CHR 0x83, CHR 0xE4, CHR 0xBA, CHR 0x86, CHR 0xE6, CHR 0x96, CHR 0xB0, CHR 0xE7, CHR 0x89, CHR 0x88, CHR 0xE6, CHR 0x9C, CHR 0xAC]"

definition actions :: "(string \<times> string) list" where
  "actions =
     [(''WatchEvent'', ACT_WATCH),
      (''ForkEvent'', ACT_FORK),
      (''PullRequestEvent'', ACT_PR),
      (''IssuesEvent'', ACT_ISSUES),
      (''PushEvent'', ACT_PUSH),
      (''CreateEvent'', ACT_CREATE),
      (''ReleaseEvent'', ACT_RELEASE)]"

definition REL_PREFIX :: string where
  "REL_PREFIX = [CHR 0x0A] @ ''**'' @ [CHR 0xE7, CHR 0x89, CHR 0x88, CHR 0xE6, CHR 0x9C, CHR 0xAC] @ ''**: ''"

definition L_TITLE :: string where
  "L_TITLE = ''### '' @ [CHR 0xE2, CHR 0x9C, CHR 0xA8] @ '' GitHub'' @ [CHR 0xE5, CHR 0x8A, CHR 0xA8, CHR 0xE6, CHR 0x80, CHR 0x81, CHR 0xE9, CHR 0x80, CHR 0x9A, CHR 0xE7, CHR 0x9F, CHR 0xA5]"

definition L_AVATAR :: string where
  "L_AVATAR = ''!['' @ [CHR 0xE7, CHR 0x94, CHR 0xA8, CHR 0xE6, CHR 0x88, CHR 0xB7, CHR 0xE5, CHR 0xA4, CHR 0xB4, CHR 0xE5, CHR 0x83, CHR 0x8F] @ ''](''"

definition L_TIME :: string where
  "L_TIME = ''**'' @ [CHR 0xE2, CHR 0x8C, CHR 0x9A] @ '' '' @ [CHR 0xE6, CHR 0x97, CHR 0xB6, CHR 0xE9, CHR 0x97, CHR 0xB4] @ ''**: ''"

definition L_ACTION :: string where
  "L_ACTION = ''**'' @ [CHR 0xF0, CHR 0x9F, CHR 0x94, CHR 0xA7] @ '' '' @ [CHR 0xE6, CHR 0x93, CHR 0x8D, CHR 0xE4, CHR 0xBD, CHR 0x9C] @ ''**: ''"

definition L_REPO :: string where
  "L_REPO = ''**'' @ [CHR 0xF0, CHR 0x9F, CHR 0x93, CHR 0xA6] @ '' '' @ [CHR 0xE4, CHR 0xBB, CHR 0x93, CHR 0xE5, CHR 0xBA, CHR 0x93] @ ''**: [''"

definition L_DESC :: string where
  "L_DESC = ''**'' @ [CHR 0xF0, CHR 0x9F, CHR 0x93, CHR 0x9D] @ '' '' @ [CHR 0xE6, CHR 0x8F, CHR 0x8F, CHR 0xE8, CHR 0xBF, CHR 0xB0] @ ''**: ''"

definition L_LANG :: string where
  "L_LANG = ''**'' @ [CHR 0xF0, CHR 0x9F, CHR 0x8C, CHR 0x90] @ '' '' @ [CHR 0xE8, CHR 0xAF, CHR 0xAD, CHR 0xE8, CHR 0xA8, CHR 0x80] @ ''**: ''"

definition L_STARS :: string where
  "L_STARS = '' | **'' @ [CHR 0xE2, CHR 0xAD, CHR 0x90] @ '' Stars**: ''"

definition ERR_FORMAT :: string where
  "ERR_FORMAT = [CHR 0xE6, CHR 0xA0, CHR 0xBC, CHR 0xE5, CHR 0xBC, CHR 0x8F, CHR 0xE5, CHR 0x8C, CHR 0x96, CHR 0xE6, CHR 0xB6, CHR 0x88, CHR 0xE6, CHR 0x81, CHR 0xAF, CHR 0xE5, CHR 0xA4, CHR 0xB1, CHR 0xE8, CHR 0xB4, CHR 0xA5] @ '': ''"

definition FB_TITLE :: string where
  "FB_TITLE = ''### GitHub'' @ [CHR 0xE5, CHR 0x8A, CHR 0xA8, CHR 0xE6, CHR 0x80, CHR 0x81, CHR 0xE9, CHR 0x80, CHR 0x9A, CHR 0xE7, CHR 0x9F, CHR 0xA5]"

text \<open>The line of the fallback document that says, in Chinese, "warning: the message could not be formatted".\<close>

definition FB_WARN :: string where
  "FB_WARN = ''**'' @ [CHR 0xE8, CHR 0xAD, CHR 0xA6, CHR 0xE5, CHR 0x91, CHR 0x8A] @ ''**: '' @ [CHR 0xE6, CHR 0xB6, CHR 0x88, CHR 0xE6, CHR 0x81, CHR 0xAF, CHR 0xE6, CHR 0xA0, CHR 0xBC, CHR 0xE5, CHR 0xBC, CHR 0x8F, CHR 0xE5, CHR 0x8C, CHR 0x96, CHR 0xE5, CHR 0x87, CHR 0xBA, CHR 0xE9, CHR 0x94, CHR 0x99]"

text \<open>\<^verbatim>\<open>a + "?size=20"\<close>: only a string can be extended by a string.\<close>

definition py_add_str :: "json \<Rightarrow> string \<Rightarrow> exn + string" where
  "py_add_str v suffix = (case v of
      JStr s \<Rightarrow> Inr (s @ suffix)
    | JList xs \<Rightarrow> Inl (Exn TypeError (''can only concatenate list (not '' @ [CHR 0x22] @ ''str''
                                      @ [CHR 0x22] @ '') to list''))
    | _ \<Rightarrow> Inl (Exn TypeError (''unsupported operand type(s) for +: '' @ repr_key (type_name v)
                                 @ '' and '' @ repr_key ''str'')))"

text \<open>
  \<^verbatim>\<open>datetime.strptime(v, ...).strftime(...)\<close>: the argument must be a string. The message
  names the type of another argument, and \<^verbatim>\<open>None\<close> as \<^verbatim>\<open>None\<close>.
\<close>

definition format_time :: "env \<Rightarrow> json \<Rightarrow> exn + string" where
  "format_time w v = (case v of
      JStr s \<Rightarrow> reformat_time w s
    | JNull \<Rightarrow> Inl (Exn TypeError ''strptime() argument 1 must be str, not None'')
    | _ \<Rightarrow> Inl (Exn TypeError (''strptime() argument 1 must be str, not '' @ type_name v)))"

text \<open>\<^verbatim>\<open>actions.get(event_type, event_type)\<close>: a list or dict cannot be hashed.\<close>

definition action_label :: "json \<Rightarrow> exn + json" where
  "action_label event_type = (case event_type of
      JStr s \<Rightarrow> (case map_of actions s of Some a \<Rightarrow> Inr (JStr a) | None \<Rightarrow> Inr event_type)
    | JList xs \<Rightarrow> Inl (Exn TypeError (''unhashable type: '' @ repr_key ''list''))
    | JObj kvs \<Rightarrow> Inl (Exn TypeError (''unhashable type: '' @ repr_key ''dict''))
    | _ \<Rightarrow> Inr event_type)"

text \<open>
  \<^verbatim>\<open>
  release_info = ""
  if event_type == "ReleaseEvent":
      release_name = event["payload"]["release"].get("name", "")
      tag_name = event["payload"]["release"].get("tag_name", "")
      release_info = f"\n**...**: {tag_name} {release_name}"
  \<close>
\<close>

definition release_info :: "env \<Rightarrow> json \<Rightarrow> json \<Rightarrow> exn + string" where
  "release_info w event event_type =
     (if event_type = JStr ''ReleaseEvent'' then
        (case py_getitem event ''payload'' of Inl e \<Rightarrow> Inl e | Inr p1 \<Rightarrow>
         case py_getitem p1 ''release'' of Inl e \<Rightarrow> Inl e | Inr r1 \<Rightarrow>
         case py_get r1 ''name'' (JStr []) of Inl e \<Rightarrow> Inl e | Inr release_name \<Rightarrow>
         case py_getitem event ''payload'' of Inl e \<Rightarrow> Inl e | Inr p2 \<Rightarrow>
         case py_getitem p2 ''release'' of Inl e \<Rightarrow> Inl e | Inr r2 \<Rightarrow>
         case py_get r2 ''tag_name'' (JStr []) of Inl e \<Rightarrow> Inl e | Inr tag_name \<Rightarrow>
           Inr (REL_PREFIX @ py_str w tag_name @ '' '' @ py_str w release_name))
      else Inr [])"

text \<open>The body of the \<^verbatim>\<open>try\<close> block of \<^verbatim>\<open>format_message\<close>.\<close>

definition assemble_message :: "env \<Rightarrow> json \<Rightarrow> string prog" where
  "assemble_message w event =
     and_then (lift (py_getitem event ''type'')) (\<lambda>event_type.
     and_then (lift (py_getitem event ''actor'')) (\<lambda>actor_obj.
     and_then (lift (py_getitem actor_obj ''login'')) (\<lambda>actor.
     and_then (get_user_avatar w actor) (\<lambda>avatar.
     and_then (lift (py_add_str avatar ''?size=20'')) (\<lambda>actor_avatar.
     and_then (lift (py_getitem event ''repo'')) (\<lambda>repo_obj.
     and_then (lift (py_getitem repo_obj ''name'')) (\<lambda>repo_name.
     and_then (ret (''https://github.com/'' @ py_str w repo_name)) (\<lambda>repo_url.
     and_then (lift (py_getitem event ''created_at'')) (\<lambda>created_at.
     and_then (lift (format_time w created_at)) (\<lambda>time_str.
     and_then (get_repo_details w repo_name) (\<lambda>(description, language, stars).
     and_then (lift (release_info w event event_type)) (\<lambda>rel.
     and_then (lift (action_label event_type)) (\<lambda>action.
       ret (join [CHR 0x0A]
         [L_TITLE,
          L_AVATAR @ actor_avatar @ '') **['' @ py_str w actor
            @ ''](https://github.com/'' @ py_str w actor @ '')**'',
          L_TIME @ time_str,
          L_ACTION @ py_str w action,
          L_REPO @ py_str w repo_name @ '']('' @ repo_url @ '')'',
          L_DESC @ py_str w description @ rel,
          L_LANG @ py_str w language @ L_STARS @ py_str w stars,
          ''---'']))))))))))))))"

definition fallback_message :: "exn \<Rightarrow> string" where
  "fallback_message e =
     join [CHR 0x0A]
       [FB_TITLE,
        FB_WARN,
        [CHR 0x60, CHR 0x60, CHR 0x60, CHR 0x0A] @ exn_str e @ [CHR 0x0A, CHR 0x60, CHR 0x60, CHR 0x60]]"

text \<open>
  \<^verbatim>\<open>
  def format_message(self, event):
      try:
          ...
      except Exception as e:
          logger.error(f"...: {e}")
          return "\n".join([...])
  \<close>
\<close>

definition format_message :: "env \<Rightarrow> json \<Rightarrow> string prog" where
  "format_message w event =
     try_except is_Exception (assemble_message w event)
       (\<lambda>e. and_then (log ERROR (ERR_FORMAT @ exn_str e)) (\<lambda>_. ret (fallback_message e)))"

section \<open>Signatures: SHA-256, HMAC, Base64 and URL quoting\<close>

text \<open>
  The library functions the two signature methods call, written out so that a signature
  can be computed: \<^verbatim>\<open>hashlib.sha256\<close> (FIPS 180-4), \<^verbatim>\<open>hmac.new(key, msg, sha256).digest()\<close>
  (RFC 2104), \<^verbatim>\<open>base64.b64encode\<close> and \<^verbatim>\<open>urllib.parse.quote_plus\<close>.
\<close>

type_synonym byte = "8 word"

definition encode_utf8 :: "string \<Rightarrow> byte list" where
  "encode_utf8 s = map of_char s"

subsection \<open>SHA-256\<close>

definition sha256_K :: "32 word list" where
  "sha256_K =
     [0x428A2F98, 0x71374491, 0xB5C0FBCF, 0xE9B5DBA5, 0x3956C25B, 0x59F111F1,
      0x923F82A4, 0xAB1C5ED5, 0xD807AA98, 0x12835B01, 0x243185BE, 0x550C7DC3,
      0x72BE5D74, 0x80DEB1FE, 0x9BDC06A7, 0xC19BF174, 0xE49B69C1, 0xEFBE4786,
      0x0FC19DC6, 0x240CA1CC, 0x2DE92C6F, 0x4A7484AA, 0x5CB0A9DC, 0x76F988DA,
      0x983E5152, 0xA831C66D, 0xB00327C8, 0xBF597FC7, 0xC6E00BF3, 0xD5A79147,
      0x06CA6351, 0x14292967, 0x27B70A85, 0x2E1B2138, 0x4D2C6DFC, 0x53380D13,
      0x650A7354, 0x766A0ABB, 0x81C2C92E, 0x92722C85, 0xA2BFE8A1, 0xA81A664B,
      0xC24B8B70, 0xC76C51A3, 0xD192E819, 0xD6990624, 0xF40E3585, 0x106AA070,
      0x19A4C116, 0x1E376C08, 0x2748774C, 0x34B0BCB5, 0x391C0CB3, 0x4ED8AA4A,
      0x5B9CCA4F, 0x682E6FF3, 0x748F82EE, 0x78A5636F, 0x84C87814, 0x8CC70208,
      0x90BEFFFA, 0xA4506CEB, 0xBEF9A3F7, 0xC67178F2]"

definition Ch :: "32 word \<Rightarrow> 32 word \<Rightarrow> 32 word \<Rightarrow> 32 word" where
  "Ch x y z = (x AND y) XOR (NOT x AND z)"

definition Maj :: "32 word \<Rightarrow> 32 word \<Rightarrow> 32 word \<Rightarrow> 32 word" where
  "Maj x y z = (x AND y) XOR (x AND z) XOR (y AND z)"

definition big_sigma0 :: "32 word \<Rightarrow> 32 word" where
  "big_sigma0 x = word_rotr 2 x XOR word_rotr 13 x XOR word_rotr 22 x"

definition big_sigma1 :: "32 word \<Rightarrow> 32 word" where
  "big_sigma1 x = word_rotr 6 x XOR word_rotr 11 x XOR word_rotr 25 x"

definition small_sigma0 :: "32 word \<Rightarrow> 32 word" where
  "small_sigma0 x = word_rotr 7 x XOR word_rotr 18 x XOR drop_bit 3 x"

definition small_sigma1 :: "32 word \<Rightarrow> 32 word" where
  "small_sigma1 x = word_rotr 17 x XOR word_rotr 19 x XOR drop_bit 10 x"

text \<open>Padding: a one bit, zeros up to 56 modulo 64 bytes, the length in bits on 8 bytes.\<close>

definition be_bytes64 :: "64 word \<Rightarrow> byte list" where
  "be_bytes64 x = map (\<lambda>i. ucast (drop_bit (8 * (7 - i)) x)) [0..<8]"

definition sha256_pad :: "byte list \<Rightarrow> byte list" where
  "sha256_pad m =
     m @ [0x80] @ replicate ((119 - length m mod 64) mod 64) 0 @ be_bytes64 (word_of_nat (8 * length m))"

fun be_words :: "byte list \<Rightarrow> 32 word list" where
  "be_words (a # b # c # d # rest) =
     (push_bit 24 (ucast a) OR push_bit 16 (ucast b) OR push_bit 8 (ucast c) OR ucast d)
       # be_words rest"
| "be_words _ = []"

fun schedule :: "nat \<Rightarrow> 32 word list \<Rightarrow> 32 word list" where
  "schedule 0 ws = ws"
| "schedule (Suc n) ws =
     schedule n (ws @ [small_sigma1 (ws ! (length ws - 2)) + ws ! (length ws - 7)
                       + small_sigma0 (ws ! (length ws - 15)) + ws ! (length ws - 16)])"

type_synonym sha_state =
  "32 word \<times> 32 word \<times> 32 word \<times> 32 word \<times> 32 word \<times> 32 word \<times> 32 word \<times> 32 word"

fun sha256_round :: "sha_state \<Rightarrow> 32 word \<times> 32 word \<Rightarrow> sha_state" where
  "sha256_round (a, b, c, d, e, f, g, h) (k, x) =
     (let t1 = h + big_sigma1 e + Ch e f g + k + x;
          t2 = big_sigma0 a + Maj a b c
      in (t1 + t2, a, b, c, d + t1, e, f, g))"

fun sha256_add :: "sha_state \<Rightarrow> sha_state \<Rightarrow> sha_state" where
  "sha256_add (a, b, c, d, e, f, g, h) (a', b', c', d', e', f', g', h') =
     (a + a', b + b', c + c', d + d', e + e', f + f', g + g', h + h')"

definition sha256_compress :: "sha_state \<Rightarrow> byte list \<Rightarrow> sha_state" where
  "sha256_compress st block =
     sha256_add st (foldl sha256_round st (zip sha256_K (schedule 48 (be_words block))))"

fun sha256_blocks :: "nat \<Rightarrow> sha_state \<Rightarrow> byte list \<Rightarrow> sha_state" where
  "sha256_blocks 0 st bs = st"
| "sha256_blocks (Suc n) st bs = sha256_blocks n (sha256_compress st (take 64 bs)) (drop 64 bs)"

fun word_bytes :: "32 word \<Rightarrow> byte list" where
  "word_bytes x = [ucast (drop_bit 24 x), ucast (drop_bit 16 x), ucast (drop_bit 8 x), ucast x]"

fun sha_state_bytes :: "sha_state \<Rightarrow> byte list" where
  "sha_state_bytes (a, b, c, d, e, f, g, h) =
     concat (map word_bytes [a, b, c, d, e, f, g, h])"

definition sha256_init :: sha_state where
  "sha256_init = (0x6A09E667, 0xBB67AE85, 0x3C6EF372, 0xA54FF53A,
                  0x510E527F, 0x9B05688C, 0x1F83D9AB, 0x5BE0CD19)"

definition sha256 :: "byte list \<Rightarrow> byte list" where
  "sha256 m =
     (let p = sha256_pad m
      in sha_state_bytes (sha256_blocks (length p div 64) sha256_init p))"

subsection \<open>HMAC\<close>

definition hmac_key_block :: "byte list \<Rightarrow> byte list" where
  "hmac_key_block key =
     (let k = (if length key > 64 then sha256 key else key)
      in k @ replicate (64 - length k) 0)"

definition hmac_sha256 :: "byte list \<Rightarrow> byte list \<Rightarrow> byte list" where
  "hmac_sha256 key msg =
     (let kb = hmac_key_block key
      in sha256 (map (\<lambda>b. b XOR 0x5c) kb @ sha256 (map (\<lambda>b. b XOR 0x36) kb @ msg)))"

subsection \<open>Base64\<close>

definition b64_alphabet :: string where
  "b64_alphabet = ''ABCDEFGHIJKLMNOPQRSTUVWXYZabcdefghijklmnopqrstuvwxyz0123456789+/''"

definition b64_char :: "nat \<Rightarrow> char" where
  "b64_char n = b64_alphabet ! (n mod 64)"

fun b64encode :: "byte list \<Rightarrow> string" where
  "b64encode [] = []"
| "b64encode [a] =
     (let n = unat a * 65536
      in [b64_char (n div 262144), b64_char (n div 4096), CHR ''='', CHR ''=''])"
| "b64encode [a, b] =
     (let n = unat a * 65536 + unat b * 256
      in [b64_char (n div 262144), b64_char (n div 4096), b64_char (n div 64), CHR ''=''])"
| "b64encode (a # b # c # rest) =
     (let n = unat a * 65536 + unat b * 256 + unat c
      in [b64_char (n div 262144), b64_char (n div 4096), b64_char (n div 64), b64_char n]
         @ b64encode rest)"

subsection \<open>URL quoting\<close>

definition hex_digit :: "nat \<Rightarrow> char" where
  "hex_digit n = ''0123456789ABCDEF'' ! (n mod 16)"

definition always_safe :: "char \<Rightarrow> bool" where
  "always_safe c = (c \<in> set ''ABCDEFGHIJKLMNOPQRSTUVWXYZabcdefghijklmnopqrstuvwxyz0123456789_.-~'')"

text \<open>
  \<^verbatim>\<open>urllib.parse.quote_plus(s)\<close> with the default \<^verbatim>\<open>safe=''\<close>: letters, digits and
  \<^verbatim>\<open>_.-~\<close> stay, a space becomes \<^verbatim>\<open>+\<close>, every other byte becomes \<^verbatim>\<open>%XX\<close>.
\<close>

definition quote_char :: "char \<Rightarrow> string" where
  "quote_char c =
     (if always_safe c then [c]
      else if c = CHR '' '' then ''+''
      else [CHR ''%'', hex_digit (of_char c div 16), hex_digit (of_char c)])"

definition quote_plus :: "string \<Rightarrow> string" where
  "quote_plus s = concat (map quote_char s)"

section \<open>Notifier: signatures and query strings\<close>

text \<open>
  \<^verbatim>\<open>
  def _generate_dingtalk_sign(self, secret, timestamp):
      string_to_sign = f"{timestamp}\n{secret}"
      hmac_code = hmac.new(secret.encode('utf-8'), string_to_sign.encode('utf-8'),
                           digestmod=hashlib.sha256).digest()
      return urllib.parse.quote_plus(base64.b64encode(hmac_code))
  \<close>
\<close>

definition generate_dingtalk_sign :: "string \<Rightarrow> string \<Rightarrow> string" where
  "generate_dingtalk_sign scrt timestamp =
     (let string_to_sign = timestamp @ [CHR 0x0A] @ scrt;
          hmac_code = hmac_sha256 (encode_utf8 scrt) (encode_utf8 string_to_sign)
      in quote_plus (b64encode hmac_code))"

text \<open>
  \<^verbatim>\<open>
  def _generate_feishu_sign(self, secret, timestamp):
      string_to_sign = f"{timestamp}\n{secret}".encode('utf-8')
      hmac_code = hmac.new(secret.encode('utf-8'), string_to_sign,
                           digestmod=hashlib.sha256).digest()
      return base64.b64encode(hmac_code).decode('utf-8')
  \<close>
\<close>

definition generate_feishu_sign :: "string \<Rightarrow> string \<Rightarrow> string" where
  "generate_feishu_sign scrt timestamp =
     (let string_to_sign = encode_utf8 (timestamp @ [CHR 0x0A] @ scrt);
          hmac_code = hmac_sha256 (encode_utf8 scrt) string_to_sign
      in b64encode hmac_code)"

subsection \<open>Query strings\<close>

text \<open>\<^verbatim>\<open>s.split(c)\<close>: the pieces between the separators, at least one piece.\<close>

fun split_on :: "char \<Rightarrow> string \<Rightarrow> string list" where
  "split_on c [] = [[]]"
| "split_on c (x # xs) =
     (if x = c then [] # split_on c xs
      else (case split_on c xs of
              p # ps \<Rightarrow> (x # p) # ps
            | [] \<Rightarrow> [[x]]))"

text \<open>\<^verbatim>\<open>s.split(c, 1)\<close>, when it has two parts.\<close>

definition split_first :: "char \<Rightarrow> string \<Rightarrow> (string \<times> string) option" where
  "split_first c s =
     (if c \<in> set s then Some (takeWhile (\<lambda>x. x \<noteq> c) s, tl (dropWhile (\<lambda>x. x \<noteq> c) s))
      else None)"

definition hex_value :: "char \<Rightarrow> nat option" where
  "hex_value c = map_of
     [(CHR ''0'', 0), (CHR ''1'', 1), (CHR ''2'', 2), (CHR ''3'', 3), (CHR ''4'', 4),
      (CHR ''5'', 5), (CHR ''6'', 6), (CHR ''7'', 7), (CHR ''8'', 8), (CHR ''9'', 9),
      (CHR ''A'', 10), (CHR ''B'', 11), (CHR ''C'', 12), (CHR ''D'', 13), (CHR ''E'', 14),
      (CHR ''F'', 15), (CHR ''a'', 10), (CHR ''b'', 11), (CHR ''c'', 12), (CHR ''d'', 13),
      (CHR ''e'', 14), (CHR ''f'', 15)] c"

text \<open>
  \<^verbatim>\<open>urllib.parse.unquote\<close>: \<^verbatim>\<open>%XX\<close> with two hexadecimal digits is the byte \<open>XX\<close>, any
  other \<^verbatim>\<open>%\<close> stays. (Python then decodes the bytes as UTF-8 and replaces what is not
  valid UTF-8 by U+FFFD; the model keeps the bytes.)
\<close>

fun unquote :: "string \<Rightarrow> string" where
  "unquote (c # h # l # rest) =
     (if c = CHR ''%'' then
        (case (hex_value h, hex_value l) of
           (Some a, Some b) \<Rightarrow> char_of (16 * a + b) # unquote rest
         | _ \<Rightarrow> c # unquote (h # l # rest))
      else c # unquote (h # l # rest))"
| "unquote (c # rest) = c # unquote rest"
| "unquote [] = []"

definition plus_to_space :: "string \<Rightarrow> string" where
  "plus_to_space s = map (\<lambda>c. if c = CHR ''+'' then CHR '' '' else c) s"

text \<open>
  \<^verbatim>\<open>urllib.parse.parse_qsl(qs)\<close> with its defaults: the fields between \<^verbatim>\<open>&\<close>; an empty
  field, a field without \<^verbatim>\<open>=\<close> and a field with an empty value are skipped
  (\<^verbatim>\<open>keep_blank_values=False\<close>).
\<close>

definition parse_field :: "string \<Rightarrow> (string \<times> string) list" where
  "parse_field name_value =
     (if name_value = [] then []
      else (case split_first CHR ''='' name_value of
              None \<Rightarrow> []
            | Some (n, v) \<Rightarrow>
                if v \<noteq> [] then [(unquote (plus_to_space n), unquote (plus_to_space v))]
                else []))"

definition parse_qsl :: "string \<Rightarrow> (string \<times> string) list" where
  "parse_qsl qs = concat (map parse_field (split_on CHR ''&'' qs))"

text \<open>
  A dict from names to lists of values, in insertion order.
  \<^verbatim>\<open>parse_qs\<close> appends each value to the list of its name.
\<close>

type_synonym query = "(string \<times> string list) list"

fun dict_append :: "query \<Rightarrow> string \<times> string \<Rightarrow> query" where
  "dict_append [] (n, v) = [(n, [v])]"
| "dict_append ((k, vs) # d) (n, v) =
     (if k = n then (k, vs @ [v]) # d else (k, vs) # dict_append d (n, v))"

definition parse_qs :: "string \<Rightarrow> query" where
  "parse_qs qs = foldl dict_append [] (parse_qsl qs)"

text \<open>\<^verbatim>\<open>d[k] = vs\<close>: an existing key keeps its place.\<close>

fun dict_set :: "query \<Rightarrow> string \<Rightarrow> string list \<Rightarrow> query" where
  "dict_set [] n vs = [(n, vs)]"
| "dict_set ((k, old) # d) n vs =
     (if k = n then (k, vs) # d else (k, old) # dict_set d n vs)"

text \<open>\<^verbatim>\<open>urllib.parse.urlencode(query, doseq=True)\<close> for a dict of lists of strings.\<close>

definition urlencode :: "query \<Rightarrow> string" where
  "urlencode q =
     join ''&'' (concat (map (\<lambda>(k, vs). map (\<lambda>v. quote_plus k @ ''='' @ quote_plus v) vs) q))"

text \<open>
  \<^verbatim>\<open>
  query = urllib.parse.parse_qs(parsed_url.query)
  query.update({"timestamp": [timestamp], "sign": [sign]})
  new_query = urllib.parse.urlencode(query, doseq=True)
  \<close>
\<close>

definition signed_query :: "string \<Rightarrow> string \<Rightarrow> string \<Rightarrow> string" where
  "signed_query old_query timestamp sign =
     (let query = parse_qs old_query;
          query = dict_set (dict_set query ''timestamp'' [timestamp]) ''sign'' [sign]
      in urlencode query)"

section \<open>Notifier: dispatch to the channels\<close>

definition DT_TITLE :: string where
  "DT_TITLE = ''GitHub'' @ [CHR 0xE5, CHR 0x8A, CHR 0xA8, CHR 0xE6, CHR 0x80, CHR 0x81, CHR 0xE9, CHR 0x80, CHR 0x9A, CHR 0xE7, CHR 0x9F, CHR 0xA5]"

definition UNKNOWN_BOT :: string where
  "UNKNOWN_BOT = [CHR 0xE6, CHR 0x9C, CHR 0xAA, CHR 0xE7, CHR 0x9F, CHR 0xA5, CHR 0xE6, CHR 0x9C, CHR 0xBA, CHR 0xE5, CHR 0x99, CHR 0xA8, CHR 0xE4, CHR 0xBA, CHR 0xBA]"

definition DT_FAIL :: string where
  "DT_FAIL = [CHR 0xE9, CHR 0x92, CHR 0x89, CHR 0xE9, CHR 0x92, CHR 0x89, CHR 0xE5, CHR 0x8F, CHR 0x91, CHR 0xE9, CHR 0x80, CHR 0x81, CHR 0xE5, CHR 0xA4, CHR 0xB1, CHR 0xE8, CHR 0xB4, CHR 0xA5, CHR 0xE5, CHR 0x88, CHR 0xB0] @ '' ''"

definition DT_OK :: string where
  "DT_OK = [CHR 0xE5, CHR 0x8F, CHR 0x91, CHR 0xE7, CHR 0x8E, CHR 0xB0, CHR 0xE6, CHR 0x96, CHR 0xB0, CHR 0xE4, CHR 0xBA, CHR 0x8B, CHR 0xE4, CHR 0xBB, CHR 0xB6, CHR 0xEF, CHR 0xBC, CHR 0x8C, CHR 0xE5, CHR 0xB7, CHR 0xB2, CHR 0xE5, CHR 0x8F, CHR 0x91, CHR 0xE9, CHR 0x80, CHR 0x81, CHR 0xE5, CHR 0x88, CHR 0xB0, CHR 0xE9, CHR 0x92, CHR 0x89, CHR 0xE9, CHR 0x92, CHR 0x89, CHR 0xE6, CHR 0x9C, CHR 0xBA, CHR 0xE5, CHR 0x99, CHR 0xA8, CHR 0xE4, CHR 0xBA, CHR 0xBA] @ '' ''"

definition FS_HEADER :: string where
  "FS_HEADER = [CHR 0xE2, CHR 0x9C, CHR 0xA8] @ '' GitHub'' @ [CHR 0xE5, CHR 0x8A, CHR 0xA8, CHR 0xE6, CHR 0x80, CHR 0x81, CHR 0xE9, CHR 0x80, CHR 0x9A, CHR 0xE7, CHR 0x9F, CHR 0xA5]"

definition FS_FAIL :: string where
  "FS_FAIL = [CHR 0xE9, CHR 0xA3, CHR 0x9E, CHR 0xE4, CHR 0xB9, CHR 0xA6, CHR 0xE6, CHR 0x8E, CHR 0xA8, CHR 0xE9, CHR 0x80, CHR 0x81, CHR 0xE5, CHR 0xA4, CHR 0xB1, CHR 0xE8, CHR 0xB4, CHR 0xA5, CHR 0xE5, CHR 0x88, CHR 0xB0] @ '' ''"

definition FS_CODE :: string where
  "FS_CODE = '' | '' @ [CHR 0xE9, CHR 0x94, CHR 0x99, CHR 0xE8, CHR 0xAF, CHR 0xAF, CHR 0xE7, CHR 0xA0, CHR 0x81] @ '': ''"

definition FS_MSG :: string where
  "FS_MSG = '' | '' @ [CHR 0xE6, CHR 0xB6, CHR 0x88, CHR 0xE6, CHR 0x81, CHR 0xAF] @ '': ''"

definition FS_RESP :: string where
  "FS_RESP = '' | '' @ [CHR 0xE5, CHR 0x93, CHR 0x8D, CHR 0xE5, CHR 0xBA, CHR 0x94] @ '': ''"

definition FS_OK :: string where
  "FS_OK = [CHR 0xE5, CHR 0x8F, CHR 0x91, CHR 0xE7, CHR 0x8E, CHR 0xB0] @ ''1'' @ [CHR 0xE4, CHR 0xB8, CHR 0xAA, CHR 0xE6, CHR 0x96, CHR 0xB0, CHR 0xE4, CHR 0xBA, CHR 0x8B, CHR 0xE4, CHR 0xBB, CHR 0xB6, CHR 0xEF, CHR 0xBC, CHR 0x8C, CHR 0xE9, CHR 0xA3, CHR 0x9E, CHR 0xE4, CHR 0xB9, CHR 0xA6, CHR 0xE6, CHR 0x8E, CHR 0xA8, CHR 0xE9, CHR 0x80, CHR 0x81, CHR 0xE6, CHR 0x88, CHR 0x90, CHR 0xE5, CHR 0x8A, CHR 0x9F, CHR 0xE5, CHR 0x88, CHR 0xB0] @ '' ''"

definition FS_EXC :: string where
  "FS_EXC = [CHR 0xE9, CHR 0xA3, CHR 0x9E, CHR 0xE4, CHR 0xB9, CHR 0xA6, CHR 0xE5, CHR 0x8F, CHR 0x91, CHR 0xE9, CHR 0x80, CHR 0x81, CHR 0xE5, CHR 0xBC, CHR 0x82, CHR 0xE5, CHR 0xB8, CHR 0xB8, CHR 0xE5, CHR 0x88, CHR 0xB0] @ '' ''"

definition FS_TITLE_LINE :: string where
  "FS_TITLE_LINE = ''### '' @ [CHR 0xE2, CHR 0x9C, CHR 0xA8] @ '' GitHub'' @ [CHR 0xE5, CHR 0x8A, CHR 0xA8, CHR 0xE6, CHR 0x80, CHR 0x81, CHR 0xE9, CHR 0x80, CHR 0x9A, CHR 0xE7, CHR 0x9F, CHR 0xA5, CHR 0x0A]"

text \<open>\<^verbatim>\<open>bot_config.get("secret")\<close> as a condition: present and not empty.\<close>

definition signing_secret :: "bot_config \<Rightarrow> string option" where
  "signing_secret bc = (case secret bc of
      Some s \<Rightarrow> (if s \<noteq> [] then Some s else None)
    | None \<Rightarrow> None)"

text \<open>\<^verbatim>\<open>bot_config.get('name', '...')\<close>\<close>

definition display_name :: "bot_config \<Rightarrow> string" where
  "display_name bc = (case bot_name bc of Some n \<Rightarrow> n | None \<Rightarrow> UNKNOWN_BOT)"

text \<open>
  \<^verbatim>\<open>
  def _send_dingtalk(self, message, bot_config):
      try:
          payload = {"msgtype": "markdown",
                     "markdown": {"title": "...", "text": message.replace("\n", "\n\n")}}
          url = bot_config["webhook"]
          if bot_config.get("secret"):
              timestamp = str(round(time.time() * 1000))
              sign = self._generate_dingtalk_sign(bot_config["secret"], timestamp)
              url += f"&timestamp={timestamp}&sign={sign}"
          response = requests.post(url, json=payload, timeout=5)
          if response.status_code != 200:
              logger.error(f"... {bot_config.get('name', '...')}: {response.text}")
          else:
              logger.info(f"... {bot_config.get('name', '...')}")
      except Exception as e:
          logger.error(f"... {bot_config.get('name', '...')}: {e}")
  \<close>
\<close>

definition dingtalk_payload :: "string \<Rightarrow> payload" where
  "dingtalk_payload message = DingTalkMarkdown DT_TITLE (replace [CHR 0x0A] [CHR 0x0A, CHR 0x0A] message)"

definition dingtalk_signed_url :: "string \<Rightarrow> string \<Rightarrow> int \<Rightarrow> string" where
  "dingtalk_signed_url url scrt millis =
     (let timestamp = str_int millis;
          sign = generate_dingtalk_sign scrt timestamp
      in url @ ''&timestamp='' @ timestamp @ ''&sign='' @ sign)"

definition dingtalk_url :: "env \<Rightarrow> bot_config \<Rightarrow> string prog" where
  "dingtalk_url w bc =
     (case signing_secret bc of
        Some scrt \<Rightarrow> and_then next_tick (\<lambda>t. ret (dingtalk_signed_url (webhook bc) scrt (time_millis w t)))
      | None \<Rightarrow> ret (webhook bc))"

definition send_dingtalk :: "env \<Rightarrow> string \<Rightarrow> bot_config \<Rightarrow> unit prog" where
  "send_dingtalk w message bc =
     try_except is_Exception
       (and_then (dingtalk_url w bc) (\<lambda>url.
        and_then (requests_post w url (dingtalk_payload message)) (\<lambda>response.
          if status_code response \<noteq> 200
          then log ERROR (DT_FAIL @ display_name bc @ '': '' @ resp_text response)
          else log INFO (DT_OK @ display_name bc))))
       (\<lambda>e. log ERROR (DT_FAIL @ display_name bc @ '': '' @ exn_str e))"

text \<open>
  \<^verbatim>\<open>
  def _format_for_feishu(self, message):
      try:
          if '![' in message and '](' in message:
              message = re.sub(r'!\[.*?\]\(.*?\)', '', message)
          message = message.replace("### ... GitHub...\n", "")
          message = message.replace("\n", "\n\n")
          return message
      except Exception as e: ...
  \<close>
  Nothing in the \<^verbatim>\<open>try\<close> block raises on a string. The regular expression matches
  \<^verbatim>\<open>![\<close>, the shortest text without a newline up to \<^verbatim>\<open>](\<close>, and the shortest text without
  a newline up to \<^verbatim>\<open>)\<close>.
\<close>

text \<open>What follows the first \<open>pat\<close> in \<open>s\<close> that no newline precedes.\<close>

fun after_on_line :: "string \<Rightarrow> string \<Rightarrow> string option" where
  "after_on_line pat [] = (if pat = [] then Some [] else None)"
| "after_on_line pat (c # cs) =
     (if take (length pat) (c # cs) = pat then Some (drop (length pat) (c # cs))
      else if c = CHR 0x0A then None
      else after_on_line pat cs)"

definition match_image :: "string \<Rightarrow> string option" where
  "match_image s =
     (if take 2 s = ''!['' then
        (case after_on_line '']('' (drop 2 s) of
           None \<Rightarrow> None
         | Some r \<Rightarrow> after_on_line '')'' r)
      else None)"

text \<open>\<open>skip\<close> characters of a match are still to be dropped.\<close>

fun strip_images_from :: "nat \<Rightarrow> string \<Rightarrow> string" where
  "strip_images_from skip [] = []"
| "strip_images_from (Suc k) (c # cs) = strip_images_from k cs"
| "strip_images_from 0 (c # cs) =
     (case match_image (c # cs) of
        Some r \<Rightarrow> strip_images_from (length cs - length r) cs
      | None \<Rightarrow> c # strip_images_from 0 cs)"

definition strip_images :: "string \<Rightarrow> string" where
  "strip_images s = strip_images_from 0 s"

definition format_for_feishu :: "string \<Rightarrow> string" where
  "format_for_feishu message =
     (let m1 = (if contains ''!['' message \<and> contains '']('' message
                then strip_images message else message);
          m2 = replace FS_TITLE_LINE [] m1
      in replace [CHR 0x0A] [CHR 0x0A, CHR 0x0A] m2)"

definition feishu_payload :: "string \<Rightarrow> payload" where
  "feishu_payload message = FeishuCard FS_HEADER (format_for_feishu message)"

text \<open>
  \<^verbatim>\<open>
  if bot_config.get("secret"):
      timestamp = str(int(time.time()))
      sign = self._generate_feishu_sign(bot_config["secret"], timestamp)
      parsed_url = urllib.parse.urlparse(webhook_url)
      query = urllib.parse.parse_qs(parsed_url.query)
      query.update({"timestamp": [timestamp], "sign": [sign]})
      new_query = urllib.parse.urlencode(query, doseq=True)
      webhook_url = urllib.parse.urlunparse(parsed_url._replace(query=new_query))
  \<close>
\<close>

definition feishu_signed_url :: "env \<Rightarrow> string \<Rightarrow> string \<Rightarrow> int \<Rightarrow> exn + string" where
  "feishu_signed_url w webhook_url scrt seconds =
     (let timestamp = str_int seconds;
          sign = generate_feishu_sign scrt timestamp
      in case urlparse w webhook_url of
           Inl e \<Rightarrow> Inl e
         | Inr parsed \<Rightarrow>
             Inr (urlunparse w
                    (parsed\<lparr>url_query := signed_query (url_query parsed) timestamp sign\<rparr>)))"

definition feishu_url :: "env \<Rightarrow> bot_config \<Rightarrow> string prog" where
  "feishu_url w bc =
     (case signing_secret bc of
        Some scrt \<Rightarrow> and_then next_tick (\<lambda>t.
                       lift (feishu_signed_url w (webhook bc) scrt (time_seconds w t)))
      | None \<Rightarrow> ret (webhook bc))"

text \<open>
  \<^verbatim>\<open>
  if response.status_code != 200:
      error_msg = f"... {bot_config.get('name', '...')}: {response.status_code}"
      try:
          error_detail = response.json()
          error_msg += f" | ...: {error_detail.get('code')} | ...: {error_detail.get('msg')}"
      except:
          error_msg += f" | ...: {response.text}"
      logger.error(error_msg)
  \<close>
\<close>

definition feishu_error_detail :: "env \<Rightarrow> response \<Rightarrow> string" where
  "feishu_error_detail w response =
     (case response_json response of
        Inl e \<Rightarrow> FS_RESP @ resp_text response
      | Inr error_detail \<Rightarrow>
          (case py_get error_detail ''code'' JNull of
             Inl e \<Rightarrow> FS_RESP @ resp_text response
           | Inr code \<Rightarrow>
               (case py_get error_detail ''msg'' JNull of
                  Inl e \<Rightarrow> FS_RESP @ resp_text response
                | Inr msg \<Rightarrow> FS_CODE @ py_str w code @ FS_MSG @ py_str w msg)))"

text \<open>
  \<^verbatim>\<open>
  def _send_feishu(self, message, bot_config):
      try:
          webhook_url = bot_config["webhook"]
          payload = {... "content": self._format_for_feishu(message) ...}
          if bot_config.get("secret"): ...
          response = requests.post(webhook_url, json=payload, headers=..., timeout=10)
          if response.status_code != 200: ... logger.error(error_msg)
          else: logger.info(f"... {bot_config.get('name', '...')}")
      except Exception as e:
          logger.error(f"... {bot_config.get('name', '...')}: {str(e)}")
  \<close>
\<close>

definition send_feishu :: "env \<Rightarrow> string \<Rightarrow> bot_config \<Rightarrow> unit prog" where
  "send_feishu w message bc =
     try_except is_Exception
       (and_then (feishu_url w bc) (\<lambda>webhook_url.
        and_then (requests_post w webhook_url (feishu_payload message)) (\<lambda>response.
          if status_code response \<noteq> 200
          then log ERROR (FS_FAIL @ display_name bc @ '': '' @ str_int (status_code response)
                          @ feishu_error_detail w response)
          else log INFO (FS_OK @ display_name bc))))
       (\<lambda>e. log ERROR (FS_EXC @ display_name bc @ '': '' @ exn_str e))"

text \<open>\<^verbatim>\<open>for x in xs: body(x)\<close>: an exception ends the loop.\<close>

fun for_each :: "('a \<Rightarrow> unit prog) \<Rightarrow> 'a list \<Rightarrow> unit prog" where
  "for_each body [] = ret ()"
| "for_each body (x # xs) = and_then (body x) (\<lambda>_. for_each body xs)"

text \<open>
  \<^verbatim>\<open>
  def send_all(self, message):
      if config["notifications"]["dingtalk"]["enable"]:
          for bot in config["notifications"]["dingtalk"].get("bots", []):
              self._send_dingtalk(message, bot)
      if config["notifications"]["feishu"]["enable"]:
          for bot in config["notifications"]["feishu"].get("bots", []):
              self._send_feishu(message, bot)
  \<close>
\<close>

definition send_all :: "env \<Rightarrow> config \<Rightarrow> string \<Rightarrow> unit prog" where
  "send_all w cfg message =
     and_then (if dingtalk_enable cfg
               then for_each (send_dingtalk w message) (dingtalk_bots cfg)
               else ret ()) (\<lambda>_.
       if feishu_enable cfg
       then for_each (send_feishu w message) (feishu_bots cfg)
       else ret ())"

section \<open>The poll loop\<close>

definition LOG_START :: string where
  "LOG_START = [CHR 0xF0, CHR 0x9F, CHR 0x9A, CHR 0x80] @ '' GitHub'' @ [CHR 0xE7, CHR 0x9B, CHR 0x91, CHR 0xE6, CHR 0x8E, CHR 0xA7, CHR 0xE5, CHR 0x90, CHR 0xAF, CHR 0xE5, CHR 0x8A, CHR 0xA8]"

definition LOG_DONE_A :: string where
  "LOG_DONE_A = [CHR 0xE6, CHR 0x9C, CHR 0xAC, CHR 0xE8, CHR 0xBD, CHR 0xAE, CHR 0xE6, CHR 0xA3, CHR 0x80, CHR 0xE6, CHR 0x9F, CHR 0xA5, CHR 0xE5, CHR 0xAE, CHR 0x8C, CHR 0xE6, CHR 0x88, CHR 0x90, CHR 0xEF, CHR 0xBC, CHR 0x8C, CHR 0xE5, CHR 0x8F, CHR 0x91, CHR 0xE7, CHR 0x8E, CHR 0xB0]"

definition LOG_DONE_B :: string where
  "LOG_DONE_B = [CHR 0xE4, CHR 0xB8, CHR 0xAA, CHR 0xE6, CHR 0x96, CHR 0xB0, CHR 0xE4, CHR 0xBA, CHR 0x8B, CHR 0xE4, CHR 0xBB, CHR 0xB6]"

definition LOG_NET :: string where
  "LOG_NET = [CHR 0xE7, CHR 0xBD, CHR 0x91, CHR 0xE7, CHR 0xBB, CHR 0x9C, CHR 0xE8, CHR 0xAF, CHR 0xB7, CHR 0xE6, CHR 0xB1, CHR 0x82, CHR 0xE5, CHR 0xBC, CHR 0x82, CHR 0xE5, CHR 0xB8, CHR 0xB8] @ '': ''"

definition LOG_EXC :: string where
  "LOG_EXC = [CHR 0xE5, CHR 0xA4, CHR 0x84, CHR 0xE7, CHR 0x90, CHR 0x86, CHR 0xE5, CHR 0xBC, CHR 0x82, CHR 0xE5, CHR 0xB8, CHR 0xB8] @ '': ''"

definition LOG_STOP :: string where
  "LOG_STOP = [CHR 0xF0, CHR 0x9F, CHR 0x9B, CHR 0x91] @ '' '' @ [CHR 0xE6, CHR 0x89, CHR 0x8B, CHR 0xE5, CHR 0x8A, CHR 0xA8, CHR 0xE5, CHR 0x81, CHR 0x9C, CHR 0xE6, CHR 0xAD, CHR 0xA2, CHR 0xE7, CHR 0x9B, CHR 0x91, CHR 0xE6, CHR 0x8E, CHR 0xA7]"

text \<open>The backoff of both exception handlers of the loop: \<^verbatim>\<open>time.sleep(60)\<close>, in milliseconds.\<close>

definition BACKOFF_MS :: int where
  "BACKOFF_MS = 60000"

text \<open>The pause after each new event: \<^verbatim>\<open>time.sleep(0.5)\<close>, in milliseconds.\<close>

definition EVENT_DELAY_MS :: int where
  "EVENT_DELAY_MS = 500"

text \<open>
  \<^verbatim>\<open>
  new_events = 0
  for event in events:
      if not notifier.db.is_pushed(event["id"]):
          msg = notifier.format_message(event)
          notifier.send_all(msg)
          notifier.db.mark_pushed(event["id"])
          new_events += 1
          time.sleep(0.5)
  \<close>
  \<open>process_event\<close> is one turn of the loop and returns whether the event was new.
\<close>

definition process_event :: "env \<Rightarrow> config \<Rightarrow> json \<Rightarrow> bool prog" where
  "process_event w cfg event =
     and_then (lift (py_getitem event ''id'')) (\<lambda>event_id.
     and_then (is_pushed w event_id) (\<lambda>pushed.
       if \<not> pushed then
         and_then (format_message w event) (\<lambda>msg.
         and_then (emit (SendAll event_id msg)) (\<lambda>_.
         and_then (send_all w cfg msg) (\<lambda>_.
         and_then (lift (py_getitem event ''id'')) (\<lambda>event_id'.
         and_then (mark_pushed w event_id') (\<lambda>_.
         and_then (sleep w EVENT_DELAY_MS) (\<lambda>_.
           ret True))))))
       else ret False))"

fun process_events :: "env \<Rightarrow> config \<Rightarrow> json list \<Rightarrow> int \<Rightarrow> int prog" where
  "process_events w cfg [] new_events = ret new_events"
| "process_events w cfg (event # rest) new_events =
     and_then (process_event w cfg event) (\<lambda>was_new.
       process_events w cfg rest (if was_new then new_events + 1 else new_events))"

definition feed_url :: "config \<Rightarrow> string" where
  "feed_url cfg = ''https://api.github.com/users/'' @ github_username cfg @ ''/received_events''"

text \<open>
  The \<^verbatim>\<open>try\<close> block of the loop body:
  \<^verbatim>\<open>
  events = requests.get(f".../users/{config['github']['username']}/received_events",
                        headers=..., params=..., timeout=10).json()
  new_events = 0
  for event in events: ...
  logger.info(f"...{new_events}...")
  time.sleep(config["github"]["poll_interval"])
  \<close>
\<close>

definition cycle_body :: "env \<Rightarrow> config \<Rightarrow> unit prog" where
  "cycle_body w cfg =
     and_then (requests_get w (feed_url cfg)) (\<lambda>response.
     and_then (lift (response_json response)) (\<lambda>events.
     and_then (lift (py_iter events)) (\<lambda>event_list.
     and_then (process_events w cfg event_list 0) (\<lambda>new_events.
     and_then (log INFO (LOG_DONE_A @ str_int new_events @ LOG_DONE_B)) (\<lambda>_.
       sleep w (poll_interval cfg * 1000))))))"

text \<open>
  One turn of \<^verbatim>\<open>while True\<close>:
  \<^verbatim>\<open>
  try:
      ...
  except requests.exceptions.RequestException as e:
      logger.error(f"...: {e}")
      time.sleep(60)
  except Exception as e:
      logger.error(f"...: {e}")
      time.sleep(60)
  \<close>
  An exception raised by a handler is not caught by the other one.
\<close>

definition backoff :: "env \<Rightarrow> string \<Rightarrow> exn \<Rightarrow> unit prog" where
  "backoff w prefix e =
     and_then (log ERROR (prefix @ exn_str e)) (\<lambda>_. sleep w BACKOFF_MS)"

definition poll_cycle :: "env \<Rightarrow> config \<Rightarrow> unit prog" where
  "poll_cycle w cfg =
     (\<lambda>s. case cycle_body w cfg s of
        (Inr v, s') \<Rightarrow> (Inr (), s')
      | (Inl e, s') \<Rightarrow>
          if is_RequestException e then backoff w LOG_NET e s'
          else if is_Exception e then backoff w LOG_EXC e s'
          else (Inl e, s'))"

text \<open>
  The loop itself never ends by its condition. \<open>run_cycles n\<close> runs at most \<open>n\<close> turns:
  \<open>Some e\<close> when the exception \<open>e\<close> left the loop within them, \<open>None\<close> when the loop is
  still running after \<open>n\<close> turns.
\<close>

fun run_cycles :: "env \<Rightarrow> config \<Rightarrow> nat \<Rightarrow> state \<Rightarrow> exn option \<times> state" where
  "run_cycles w cfg 0 s = (None, s)"
| "run_cycles w cfg (Suc n) s =
     (case poll_cycle w cfg s of
        (Inl e, s') \<Rightarrow> (Some e, s')
      | (Inr v, s') \<Rightarrow> run_cycles w cfg n s')"

text \<open>
  \<^verbatim>\<open>
  def monitor():
      notifier = Notifier()
      logger.info("...")
      try:
          while True: ...
      except KeyboardInterrupt:
          logger.info("...")
      finally:
          notifier.db.close()
  \<close>
  After at most \<open>n\<close> turns the monitor is still polling, has stopped on an interrupt, or
  has ended with another exception; in the last two cases the database is closed.
\<close>

datatype outcome = Polling | Stopped | Crashed exn

definition monitor :: "env \<Rightarrow> config \<Rightarrow> nat \<Rightarrow> state \<Rightarrow> outcome \<times> state" where
  "monitor w cfg n s =
     (case run_cycles w cfg n (snd (log INFO LOG_START s)) of
        (None, s') \<Rightarrow> (Polling, s')
      | (Some e, s') \<Rightarrow>
          if exn_cls e = KeyboardInterrupt
          then (Stopped, snd (emit DbClosed (snd (log INFO LOG_STOP s'))))
          else (Crashed e, snd (emit DbClosed s')))"

section \<open>Observations\<close>

text \<open>What the claims speak about, read off the trace, the database and the environment.\<close>

text \<open>The identifiers of the events handed to \<^verbatim>\<open>send_all\<close>, in order.\<close>

fun sent_ids :: "effect list \<Rightarrow> json list" where
  "sent_ids [] = []"
| "sent_ids (SendAll i m # tr) = i # sent_ids tr"
| "sent_ids (x # tr) = sent_ids tr"

definition dispatches_of :: "json \<Rightarrow> effect list \<Rightarrow> nat" where
  "dispatches_of i tr = count_list (sent_ids tr) i"

text \<open>The requests sent.\<close>

fun posts :: "effect list \<Rightarrow> (string \<times> payload) list" where
  "posts [] = []"
| "posts (NetPost url p # tr) = (url, p) # posts tr"
| "posts (x # tr) = posts tr"

fun gets :: "effect list \<Rightarrow> string list" where
  "gets [] = []"
| "gets (NetGet url # tr) = url # gets tr"
| "gets (x # tr) = gets tr"

fun sleeps :: "effect list \<Rightarrow> int list" where
  "sleeps [] = []"
| "sleeps (Slept ms # tr) = ms # sleeps tr"
| "sleeps (x # tr) = sleeps tr"

fun error_logs :: "effect list \<Rightarrow> string list" where
  "error_logs [] = []"
| "error_logs (Logged ERROR msg # tr) = msg # error_logs tr"
| "error_logs (x # tr) = error_logs tr"

text \<open>The marker rows of an event identifier.\<close>

definition markers_of :: "string \<Rightarrow> database \<Rightarrow> (json \<times> string) list" where
  "markers_of k d = filter (\<lambda>row. fst row = JStr k) (pushed_events d)"

text \<open>The key under which SQLite files the identifier of an event, if it has one.\<close>

definition event_key :: "json \<Rightarrow> json option" where
  "event_key event =
     (case py_getitem event ''id'' of
        Inl e \<Rightarrow> None
      | Inr i \<Rightarrow> (case sql_text i of Inl e \<Rightarrow> None | Inr k \<Rightarrow> Some k))"

text \<open>No call on the connection fails.\<close>

definition storage_ok :: "env \<Rightarrow> bool" where
  "storage_ok w = (\<forall>q t. storage_fault w q t = None)"

text \<open>The write of a marker, insert and commit, never fails with a storage error.\<close>

definition marker_writes_ok :: "env \<Rightarrow> bool" where
  "marker_writes_ok w =
     (\<forall>t. storage_fault w InsertPushed t = None \<and> storage_fault w CommitPushed t = None)"

text \<open>No commit of a write to the repository cache fails with a storage error.\<close>

definition repo_commits_ok :: "env \<Rightarrow> bool" where
  "repo_commits_ok w = (\<forall>t. storage_fault w CommitRepo t = None)"

text \<open>
  The state after a write of a marker that meets no storage error: a new key gets its
  row (two ticks, the insert and the commit), a key that is there is left alone (one
  tick).
\<close>

definition marked :: "env \<Rightarrow> json \<Rightarrow> state \<Rightarrow> state" where
  "marked w k s =
     (if has_key k (pushed_events (db s)) then s\<lparr>tick := Suc (tick s)\<rparr>
      else s\<lparr>tick := Suc (Suc (tick s)),
             db := (db s)\<lparr>pushed_events :=
                     pushed_events (db s) @ [(k, now_iso w (tick s))]\<rparr>\<rparr>)"

text \<open>
  Nothing the environment raises is a \<^verbatim>\<open>KeyboardInterrupt\<close>: every failure is an
  \<^verbatim>\<open>Exception\<close>.
\<close>

definition raises_Exception :: "http_outcome \<Rightarrow> bool" where
  "raises_Exception r = (case r of Raises e \<Rightarrow> is_Exception e | Responds x \<Rightarrow> True)"

definition no_interrupt :: "env \<Rightarrow> bool" where
  "no_interrupt w =
     ((\<forall>t url. raises_Exception (http_get w t url))
      \<and> (\<forall>t url p. raises_Exception (http_post w t url p))
      \<and> (\<forall>q t. case storage_fault w q t of Some e \<Rightarrow> is_Exception e | None \<Rightarrow> True)
      \<and> (\<forall>t. \<not> sleep_interrupted w t)
      \<and> (\<forall>s. case reformat_time w s of Inl e \<Rightarrow> is_Exception e | Inr x \<Rightarrow> True)
      \<and> (\<forall>u. case urlparse w u of Inl e \<Rightarrow> is_Exception e | Inr x \<Rightarrow> True))"

subsection \<open>Relations between the state before and the state after\<close>

text \<open>A program keeps a relation between the state before and the state after.\<close>

definition keeps :: "(state \<Rightarrow> state \<Rightarrow> bool) \<Rightarrow> 'a prog \<Rightarrow> bool" where
  "keeps R m = (\<forall>s r s'. m s = (r, s') \<longrightarrow> R s s')"

text \<open>Every exception a program raises satisfies \<open>P\<close>.\<close>

definition raises_only :: "(exn \<Rightarrow> bool) \<Rightarrow> 'a prog \<Rightarrow> bool" where
  "raises_only P m = (\<forall>s e s'. m s = (Inl e, s') \<longrightarrow> P e)"

definition same_db :: "state \<Rightarrow> state \<Rightarrow> bool" where
  "same_db s s' = (db s' = db s)"

text \<open>The markers and the calls of \<^verbatim>\<open>send_all\<close> are the same.\<close>

definition same_marks :: "state \<Rightarrow> state \<Rightarrow> bool" where
  "same_marks s s' =
     (pushed_events (db s') = pushed_events (db s) \<and> sent_ids (trace s') = sent_ids (trace s))"

text \<open>The database and the requests sent are the same.\<close>

definition same_db_net :: "state \<Rightarrow> state \<Rightarrow> bool" where
  "same_db_net s s' =
     (db s' = db s \<and> gets (trace s') = gets (trace s) \<and> posts (trace s') = posts (trace s))"

subsection \<open>The deduplication invariant\<close>

text \<open>
  The keys of the events handed to \<^verbatim>\<open>send_all\<close> (\<^verbatim>\<open>NULL\<close> left out): no key occurs twice,
  and between two events every such key has its marker.
\<close>

definition key_of_id :: "json \<Rightarrow> json list" where
  "key_of_id i = (case sql_text i of Inl e \<Rightarrow> [] | Inr k \<Rightarrow> if k = JNull then [] else [k])"

definition sent_keys :: "effect list \<Rightarrow> json list" where
  "sent_keys tr = concat (map key_of_id (sent_ids tr))"

definition dedup_weak :: "state \<Rightarrow> bool" where
  "dedup_weak s = distinct (sent_keys (trace s))"

definition dedup_inv :: "state \<Rightarrow> bool" where
  "dedup_inv s =
     (distinct (sent_keys (trace s))
      \<and> (\<forall>k \<in> set (sent_keys (trace s)). has_key k (pushed_events (db s))))"

text \<open>The marker table only grows.\<close>

definition marks_grow :: "state \<Rightarrow> state \<Rightarrow> bool" where
  "marks_grow s s' = (\<exists>ext. pushed_events (db s') = pushed_events (db s) @ ext)"

text \<open>The events handed to \<^verbatim>\<open>send_all\<close> and the addresses posted to.\<close>

definition dispatch_summary :: "effect list \<Rightarrow> json list \<times> string list" where
  "dispatch_summary tr = (sent_ids tr, map fst (posts tr))"

text \<open>What a run of the monitor shows: how it stands, the addresses fetched, the sleeps
  and the number of error lines logged.\<close>

definition run_summary :: "outcome \<times> state \<Rightarrow> outcome \<times> string list \<times> int list \<times> nat" where
  "run_summary r =
     (fst r, gets (trace (snd r)), sleeps (trace (snd r)), length (error_logs (trace (snd r))))"

text \<open>The state after the backoff of the loop's handlers for the exception \<open>e\<close>.\<close>

definition backed_off :: "exn \<Rightarrow> state \<Rightarrow> state" where
  "backed_off e s =
     s\<lparr>tick := Suc (tick s),
       trace := trace s @ [Logged ERROR ((if is_RequestException e then LOG_NET else LOG_EXC)
                                          @ exn_str e),
                           Slept BACKOFF_MS]\<rparr>"

subsection \<open>Outcomes of a metadata lookup\<close>



text \<open>The request was answered with status 200.\<close>

definition answered_200 :: "http_outcome \<Rightarrow> bool" where
  "answered_200 r = (case r of Raises e \<Rightarrow> False | Responds resp \<Rightarrow> status_code resp = 200)"

text \<open>
  Values that SQLite gives back as they were stored: text or null, a count (an integer
  of 64 bits) or null.
\<close>

definition is_text :: "json \<Rightarrow> bool" where
  "is_text v = (case v of JNull \<Rightarrow> True | JStr s \<Rightarrow> True | _ \<Rightarrow> False)"

definition is_count :: "json \<Rightarrow> bool" where
  "is_count v = (case v of
      JNull \<Rightarrow> True | JInt i \<Rightarrow> - (2 ^ 63) \<le> i \<and> i < 2 ^ 63 | _ \<Rightarrow> False)"

text \<open>The cached details of a repository name.\<close>

definition cached_details :: "string \<Rightarrow> database \<Rightarrow> repo_details option" where
  "cached_details name d =
     (case select_row (JStr name) (repo_cache d) of
        None \<Rightarrow> None
      | Some (description, language, stars, last_updated) \<Rightarrow>
          Some (description, language, stars))"

text \<open>The \<^verbatim>\<open>try\<close> statement of \<^verbatim>\<open>_get_repo_details\<close> and of \<^verbatim>\<open>_get_user_avatar\<close>.\<close>

definition guarded_fetch :: "env \<Rightarrow> json \<Rightarrow> repo_details option prog" where
  "guarded_fetch w n =
     try_except is_Exception (fetch_repo_details w n)
       (\<lambda>e. and_then (log WARNING (WARN_REPO @ exn_str e)) (\<lambda>_. ret None))"



subsection \<open>The requests of a dispatch\<close>

text \<open>
  The address a dispatcher posts to, at the tick \<open>t\<close> at which it starts; for Feishu the
  signing can fail, when \<^verbatim>\<open>urlparse\<close> raises. Reading the clock for the signature takes
  one tick.
\<close>

definition sign_ticks :: "bot_config \<Rightarrow> nat" where
  "sign_ticks bc = (case signing_secret bc of None \<Rightarrow> 0 | Some k \<Rightarrow> 1)"

definition dingtalk_post_url :: "env \<Rightarrow> bot_config \<Rightarrow> nat \<Rightarrow> string" where
  "dingtalk_post_url w bc t =
     (case signing_secret bc of
        None \<Rightarrow> webhook bc
      | Some k \<Rightarrow> dingtalk_signed_url (webhook bc) k (time_millis w t))"

definition feishu_post_url :: "env \<Rightarrow> bot_config \<Rightarrow> nat \<Rightarrow> exn + string" where
  "feishu_post_url w bc t =
     (case signing_secret bc of
        None \<Rightarrow> Inr (webhook bc)
      | Some k \<Rightarrow> feishu_signed_url w (webhook bc) k (time_seconds w t))"

text \<open>A failed delivery: the request raises an \<^verbatim>\<open>Exception\<close>, or the status is not 200.\<close>

definition delivery_failed :: "http_outcome \<Rightarrow> bool" where
  "delivery_failed r = (case r of
      Raises e \<Rightarrow> is_Exception e
    | Responds resp \<Rightarrow> status_code resp \<noteq> 200)"

text \<open>What a dispatcher logs for the outcome of its request.\<close>

definition dingtalk_log :: "bot_config \<Rightarrow> http_outcome \<Rightarrow> effect list" where
  "dingtalk_log bc r = (case r of
      Raises e \<Rightarrow>
        (if is_Exception e then [Logged ERROR (DT_FAIL @ display_name bc @ '': '' @ exn_str e)]
         else [])
    | Responds resp \<Rightarrow>
        (if status_code resp \<noteq> 200
         then [Logged ERROR (DT_FAIL @ display_name bc @ '': '' @ resp_text resp)]
         else [Logged INFO (DT_OK @ display_name bc)]))"

definition feishu_log :: "env \<Rightarrow> bot_config \<Rightarrow> http_outcome \<Rightarrow> effect list" where
  "feishu_log w bc r = (case r of
      Raises e \<Rightarrow>
        (if is_Exception e then [Logged ERROR (FS_EXC @ display_name bc @ '': '' @ exn_str e)]
         else [])
    | Responds resp \<Rightarrow>
        (if status_code resp \<noteq> 200
         then [Logged ERROR (FS_FAIL @ display_name bc @ '': '' @ str_int (status_code resp)
                             @ feishu_error_detail w resp)]
         else [Logged INFO (FS_OK @ display_name bc)]))"

text \<open>What leaves a dispatcher for the outcome of its request: only an interrupt.\<close>

definition dispatch_result :: "http_outcome \<Rightarrow> exn + unit" where
  "dispatch_result r = (case r of
      Raises e \<Rightarrow> (if is_Exception e then Inr () else Inl e)
    | Responds resp \<Rightarrow> Inr ())"

text \<open>
  The requests that \<^verbatim>\<open>send_all\<close> makes for a message from the tick \<open>t\<close> on, and the tick
  after them. They depend on the message, the configuration and the clock, not on what
  the webhooks answer.
\<close>

fun dingtalk_plan :: "env \<Rightarrow> string \<Rightarrow> nat \<Rightarrow> bot_config list \<Rightarrow> (string \<times> payload) list \<times> nat" where
  "dingtalk_plan w m t [] = ([], t)"
| "dingtalk_plan w m t (bc # bcs) =
     (let (ps, t') = dingtalk_plan w m (Suc (t + sign_ticks bc)) bcs
      in ((dingtalk_post_url w bc t, dingtalk_payload m) # ps, t'))"

fun feishu_plan :: "env \<Rightarrow> string \<Rightarrow> nat \<Rightarrow> bot_config list \<Rightarrow> (string \<times> payload) list \<times> nat" where
  "feishu_plan w m t [] = ([], t)"
| "feishu_plan w m t (bc # bcs) =
     (case feishu_post_url w bc t of
        Inl e \<Rightarrow> feishu_plan w m (t + sign_ticks bc) bcs
      | Inr url \<Rightarrow>
          (let (ps, t') = feishu_plan w m (Suc (t + sign_ticks bc)) bcs
           in ((url, feishu_payload m) # ps, t')))"

definition send_plan :: "env \<Rightarrow> config \<Rightarrow> string \<Rightarrow> nat \<Rightarrow> (string \<times> payload) list \<times> nat" where
  "send_plan w cfg m t =
     (let (ps1, t1) = (if dingtalk_enable cfg then dingtalk_plan w m t (dingtalk_bots cfg)
                       else ([], t));
          (ps2, t2) = (if feishu_enable cfg then feishu_plan w m t1 (feishu_bots cfg)
                       else ([], t1))
      in (ps1 @ ps2, t2))"

section \<open>Concrete runs\<close>

text \<open>
  A small world for the concrete runs below: the metadata service answers 404, the feed
  and the webhooks answer 200, nothing fails, library functions are the simplest ones.
\<close>

definition plain_response :: "int \<Rightarrow> json option \<Rightarrow> response" where
  "plain_response code body = \<lparr>status_code = code, resp_text = [], resp_json = body\<rparr>"

definition example_event :: json where
  "example_event =
     JObj [(''id'', JStr ''1001''),
           (''type'', JStr ''WatchEvent''),
           (''actor'', JObj [(''login'', JStr ''alice'')]),
           (''repo'', JObj [(''name'', JStr ''alice/widgets'')]),
           (''created_at'', JStr ''2024-05-01T10:20:30Z'')]"

definition example_feed :: json where
  "example_feed = JList [example_event]"

definition quiet_env :: env where
  "quiet_env =
     \<lparr>http_get = (\<lambda>t url.
         if url = ''https://api.github.com/users/bob/received_events''
         then Responds (plain_response 200 (Some example_feed))
         else Responds (plain_response 404 None)),
      http_post = (\<lambda>t url p. Responds (plain_response 200 None)),
      storage_fault = (\<lambda>q t. None),
      sleep_interrupted = (\<lambda>t. False),
      now_iso = (\<lambda>t. ''2024-05-01T10:21:00''),
      time_millis = (\<lambda>t. 1700000000000),
      time_seconds = (\<lambda>t. 1700000000),
      reformat_time = (\<lambda>s. Inr (take 10 s @ '' '' @ take 5 (drop 11 s))),
      repr_container = (\<lambda>v. ''{...}''),
      integer_affinity = (\<lambda>s. JStr s),
      urlparse = (\<lambda>u. Inr \<lparr>url_rest = u, url_query = []\<rparr>),
      urlunparse = (\<lambda>p. url_rest p @ ''?'' @ url_query p)\<rparr>"

definition plain_bot :: "string \<Rightarrow> bot_config" where
  "plain_bot url = \<lparr>webhook = url, secret = None, bot_name = None\<rparr>"

definition example_config :: config where
  "example_config =
     \<lparr>github_username = ''bob'', github_token = ''t0ken'', max_events = 30,
      poll_interval = 120,
      dingtalk_enable = True,
      dingtalk_bots = [plain_bot ''https://oapi.dingtalk.com/robot/send?access_token=a'',
                       plain_bot ''https://oapi.dingtalk.com/robot/send?access_token=b''],
      feishu_enable = True,
      feishu_bots = [plain_bot ''https://open.feishu.cn/open-apis/bot/v2/hook/c'']\<rparr>"

text \<open>The same world, except that the first insert of a marker fails (a locked database).\<close>

definition locked_once_env :: env where
  "locked_once_env =
     quiet_env\<lparr>storage_fault := (\<lambda>q t.
        if q = InsertPushed \<and> t < 10 then Some (Exn SqliteError ''database is locked'')
        else None)\<rparr>"

text \<open>A configuration without channels.\<close>

definition silent_config :: config where
  "silent_config =
     \<lparr>github_username = ''bob'', github_token = ''t0ken'', max_events = 30,
      poll_interval = 120,
      dingtalk_enable = False, dingtalk_bots = [],
      feishu_enable = False, feishu_bots = []\<rparr>"

text \<open>A configuration with one DingTalk webhook.\<close>

definition one_bot_config :: config where
  "one_bot_config =
     silent_config\<lparr>dingtalk_enable := True,
                   dingtalk_bots := [plain_bot ''https://oapi.dingtalk.com/robot/send?access_token=a'']\<rparr>"

text \<open>A world whose feed is unreachable at first and empty afterwards.\<close>

definition flaky_feed_env :: env where
  "flaky_feed_env =
     quiet_env\<lparr>http_get := (\<lambda>t url.
        if t = 0 then Raises (Exn RequestException ''connection refused'')
        else Responds (plain_response 200 (Some (JList []))))\<rparr>"

text \<open>The quiet world, except that the first seen-check fails (a disk error).\<close>

definition broken_check_env :: env where
  "broken_check_env =
     quiet_env\<lparr>storage_fault := (\<lambda>q t.
        if q = SelectPushed \<and> t < 3 then Some (Exn SqliteError ''disk I/O error'')
        else None)\<rparr>"

text \<open>An event without its \<^verbatim>\<open>created_at\<close> field.\<close>

definition undated_event :: json where
  "undated_event =
     JObj [(''id'', JStr ''1002''),
           (''type'', JStr ''PushEvent''),
           (''actor'', JObj [(''login'', JStr ''alice'')]),
           (''repo'', JObj [(''name'', JStr ''alice/widgets'')])]"

text \<open>What the metadata service says of the example repository and of its owner.\<close>

definition example_repo_json :: json where
  "example_repo_json =
     JObj [(''description'', JStr ''Widgets for all''),
           (''language'', JStr ''Python''),
           (''stargazers_count'', JInt 42)]"

definition example_user_json :: json where
  "example_user_json = JObj [(''avatar_url'', JStr ''https://avatars.example/alice.png'')]"

text \<open>The quiet world with a metadata service that answers.\<close>

definition helpful_env :: env where
  "helpful_env =
     quiet_env\<lparr>http_get := (\<lambda>t url.
        if url = ''https://api.github.com/repos/alice/widgets''
        then Responds (plain_response 200 (Some example_repo_json))
        else if url = ''https://api.github.com/users/alice''
        then Responds (plain_response 200 (Some example_user_json))
        else Responds (plain_response 404 None))\<rparr>"

text \<open>
  The same world, except that every commit of a write to the repository cache finds
  the database locked by another process.
\<close>

definition busy_commit_env :: env where
  "busy_commit_env =
     helpful_env\<lparr>storage_fault := (\<lambda>q t.
        if q = CommitRepo then Some (Exn SqliteError ''database is locked'') else None)\<rparr>"

text \<open>A metadata service that is down (status 503) for the first two requests.\<close>

definition recovering_env :: env where
  "recovering_env =
     quiet_env\<lparr>http_get := (\<lambda>t url.
        if t < 2 then Responds (plain_response 503 None)
        else http_get helpful_env t url)\<rparr>"



text \<open>
  A world in which the first DingTalk webhook answers 500 and the Feishu webhook is
  unreachable, and one in which every post is interrupted from the keyboard.
\<close>

definition failing_channel_env :: env where
  "failing_channel_env =
     quiet_env\<lparr>http_post := (\<lambda>t url p.
        if url = ''https://oapi.dingtalk.com/robot/send?access_token=a''
        then Responds \<lparr>status_code = 500, resp_text = ''server error'', resp_json = None\<rparr>
        else if url = ''https://open.feishu.cn/open-apis/bot/v2/hook/c''
        then Raises (Exn RequestException ''connection reset'')
        else Responds (plain_response 200 None))\<rparr>"

definition interrupted_post_env :: env where
  "interrupted_post_env =
     quiet_env\<lparr>http_post := (\<lambda>t url p. Raises (Exn KeyboardInterrupt []))\<rparr>"
section \<open>Reasoning about programs\<close>

subsection \<open>The monad\<close>

lemma and_then_ret [simp]: "and_then (ret v) f = f v"
  by (simp add: and_then_def ret_def)

lemma and_then_raise [simp]: "and_then (raise_exn e) f = raise_exn e"
  by (simp add: and_then_def raise_exn_def)

lemma lift_Inr [simp]: "lift (Inr v) = ret v"
  by (simp add: lift_def)

lemma lift_Inl [simp]: "lift (Inl e) = raise_exn e"
  by (simp add: lift_def)

lemma ret_apply [simp]: "ret v s = (Inr v, s)"
  by (simp add: ret_def)

lemma raise_apply [simp]: "raise_exn e s = (Inl e, s)"
  by (simp add: raise_exn_def)

lemma and_then_Inr: "m s = (Inr v, s') \<Longrightarrow> and_then m f s = f v s'"
  by (simp add: and_then_def)

lemma and_then_Inl: "m s = (Inl e, s') \<Longrightarrow> and_then m f s = (Inl e, s')"
  by (simp add: and_then_def)

lemma and_then_cases:
  assumes "and_then m f s = (r, s'')"
  obtains (raised) e where "m s = (Inl e, s'')" "r = Inl e"
        | (returned) v s' where "m s = (Inr v, s')" "f v s' = (r, s'')"
  using assms by (auto simp: and_then_def split: prod.splits sum.splits)

lemma try_except_cases:
  assumes "try_except c m h s = (r, s'')"
  obtains (returned) v where "m s = (Inr v, s'')" "r = Inr v"
        | (passed) e where "m s = (Inl e, s'')" "\<not> c e" "r = Inl e"
        | (caught) e s' where "m s = (Inl e, s')" "c e" "h e s' = (r, s'')"
  using assms by (auto simp: try_except_def split: prod.splits sum.splits if_splits)

lemma keepsD: "keeps R m \<Longrightarrow> m s = (r, s') \<Longrightarrow> R s s'"
  by (auto simp: keeps_def)

lemma keeps_ret: "reflp R \<Longrightarrow> keeps R (ret v)"
  by (auto simp: keeps_def reflp_def)

lemma keeps_raise: "reflp R \<Longrightarrow> keeps R (raise_exn e)"
  by (auto simp: keeps_def reflp_def)

lemma keeps_lift: "reflp R \<Longrightarrow> keeps R (lift x)"
  by (cases x) (auto simp: keeps_ret keeps_raise)

lemma keeps_and_then:
  assumes "transp R" "keeps R m" "\<And>v. keeps R (f v)"
  shows "keeps R (and_then m f)"
  unfolding keeps_def
proof (intro allI impI)
  fix s r s'' assume "and_then m f s = (r, s'')"
  then show "R s s''"
  proof (cases rule: and_then_cases)
    case (raised e) then show ?thesis using assms(2) by (auto dest: keepsD)
  next
    case (returned v s')
    then have "R s s'" "R s' s''" using assms(2,3) by (auto dest: keepsD)
    then show ?thesis using assms(1) by (auto dest: transpD)
  qed
qed

lemma keeps_try_except:
  assumes "transp R" "keeps R m" "\<And>e. keeps R (h e)"
  shows "keeps R (try_except c m h)"
  unfolding keeps_def
proof (intro allI impI)
  fix s r s'' assume "try_except c m h s = (r, s'')"
  then show "R s s''"
  proof (cases rule: try_except_cases)
    case (caught e s')
    then have "R s s'" "R s' s''" using assms(2,3) by (auto dest: keepsD)
    then show ?thesis using assms(1) by (auto dest: transpD)
  qed (use assms(2) in \<open>auto dest: keepsD\<close>)
qed

lemma keeps_if: "keeps R a \<Longrightarrow> keeps R b \<Longrightarrow> keeps R (if c then a else b)"
  by simp

lemma keeps_case_option:
  "keeps R a \<Longrightarrow> (\<And>v. keeps R (b v)) \<Longrightarrow> keeps R (case x of None \<Rightarrow> a | Some v \<Rightarrow> b v)"
  by (cases x) auto

lemma keeps_case_prod:
  "(\<And>a b. keeps R (f a b)) \<Longrightarrow> keeps R (case x of (a, b) \<Rightarrow> f a b)"
  by (cases x) auto

lemma keeps_case_outcome:
  "(\<And>e. keeps R (a e)) \<Longrightarrow> (\<And>v. keeps R (b v))
   \<Longrightarrow> keeps R (case x of Raises e \<Rightarrow> a e | Responds v \<Rightarrow> b v)"
  by (cases x) auto

lemmas keeps_intros =
  keeps_ret keeps_raise keeps_lift keeps_and_then keeps_try_except keeps_if
  keeps_case_option keeps_case_prod keeps_case_outcome

text \<open>The primitive steps and what they touch.\<close>

lemma keeps_next_tick: "(\<And>s. R s (s\<lparr>tick := Suc (tick s)\<rparr>)) \<Longrightarrow> keeps R next_tick"
  by (auto simp: keeps_def next_tick_def)

lemma keeps_emit: "(\<And>s. R s (s\<lparr>trace := trace s @ [x]\<rparr>)) \<Longrightarrow> keeps R (emit x)"
  by (auto simp: keeps_def emit_def)

lemma keeps_get_db: "reflp R \<Longrightarrow> keeps R get_db"
  by (auto simp: keeps_def get_db_def reflp_def)

lemma keeps_put_db: "(\<And>s. R s (s\<lparr>db := d\<rparr>)) \<Longrightarrow> keeps R (put_db d)"
  by (auto simp: keeps_def put_db_def)

lemma keeps_modify_db: "(\<And>s. R s (s\<lparr>db := f (db s)\<rparr>)) \<Longrightarrow> keeps R (modify_db f)"
  by (auto simp: keeps_def modify_db_def)

subsection \<open>Observations of a longer trace\<close>

lemma sent_ids_append: "sent_ids (tr @ tr') = sent_ids tr @ sent_ids tr'"
  by (induction tr rule: sent_ids.induct) auto

lemma posts_append: "posts (tr @ tr') = posts tr @ posts tr'"
  by (induction tr rule: posts.induct) auto

lemma gets_append: "gets (tr @ tr') = gets tr @ gets tr'"
  by (induction tr rule: gets.induct) auto

lemma sleeps_append: "sleeps (tr @ tr') = sleeps tr @ sleeps tr'"
  by (induction tr rule: sleeps.induct) auto

lemma error_logs_append: "error_logs (tr @ tr') = error_logs tr @ error_logs tr'"
  by (induction tr rule: error_logs.induct) auto

lemmas observe_append =
  sent_ids_append posts_append gets_append sleeps_append error_logs_append

subsection \<open>What each operation leaves alone\<close>

lemma same_db_reflp: "reflp same_db"
  by (auto simp: reflp_def same_db_def)

lemma same_db_transp: "transp same_db"
  by (auto simp: transp_def same_db_def)

lemma same_marks_reflp: "reflp same_marks"
  by (auto simp: reflp_def same_marks_def)

lemma same_marks_transp: "transp same_marks"
  by (auto simp: transp_def same_marks_def)

lemma same_db_net_reflp: "reflp same_db_net"
  by (auto simp: reflp_def same_db_net_def)

lemma same_db_net_transp: "transp same_db_net"
  by (auto simp: transp_def same_db_net_def)

lemmas rel_intros =
  same_db_reflp same_db_transp same_marks_reflp same_marks_transp
  same_db_net_reflp same_db_net_transp

lemma same_db_imp_same_marks_step:
  "db s' = db s \<Longrightarrow> sent_ids (trace s') = sent_ids (trace s) \<Longrightarrow> same_marks s s'"
  by (simp add: same_marks_def)

text \<open>Reading the database, the network, sleeping and logging do not change the database.\<close>

lemma statement_same_db: "keeps same_db (statement w q)"
  unfolding statement_def
  by (intro keeps_intros keeps_next_tick rel_intros) (auto simp: same_db_def)

lemma statement_same_db_net: "keeps same_db_net (statement w q)"
  unfolding statement_def
  by (intro keeps_intros keeps_next_tick rel_intros) (auto simp: same_db_net_def)

lemma statement_same_marks: "keeps same_marks (statement w q)"
  unfolding statement_def
  by (intro keeps_intros keeps_next_tick rel_intros) (auto simp: same_marks_def)

lemma commit_same_db: "keeps same_db (commit w q)"
  unfolding commit_def by (intro keeps_intros statement_same_db rel_intros)

lemma commit_same_db_net: "keeps same_db_net (commit w q)"
  unfolding commit_def by (intro keeps_intros statement_same_db_net rel_intros)

lemma commit_same_marks: "keeps same_marks (commit w q)"
  unfolding commit_def by (intro keeps_intros statement_same_marks rel_intros)

lemma log_same_db: "keeps same_db (log lvl msg)"
  unfolding log_def by (intro keeps_emit) (auto simp: same_db_def)

lemma log_same_db_net: "keeps same_db_net (log lvl msg)"
  unfolding log_def by (intro keeps_emit) (auto simp: same_db_net_def observe_append)

lemma log_same_marks: "keeps same_marks (log lvl msg)"
  unfolding log_def by (intro keeps_emit) (auto simp: same_marks_def observe_append)

lemma sleep_same_db: "keeps same_db (sleep w ms)"
  unfolding sleep_def
  by (intro keeps_intros keeps_next_tick keeps_emit rel_intros) (auto simp: same_db_def)

lemma sleep_same_db_net: "keeps same_db_net (sleep w ms)"
  unfolding sleep_def
  by (intro keeps_intros keeps_next_tick keeps_emit rel_intros)
     (auto simp: same_db_net_def observe_append)

lemma sleep_same_marks: "keeps same_marks (sleep w ms)"
  unfolding sleep_def
  by (intro keeps_intros keeps_next_tick keeps_emit rel_intros)
     (auto simp: same_marks_def observe_append)

lemma requests_get_same_db: "keeps same_db (requests_get w url)"
  unfolding requests_get_def
  by (intro keeps_intros keeps_next_tick keeps_emit rel_intros) (auto simp: same_db_def)

lemma requests_get_same_marks: "keeps same_marks (requests_get w url)"
  unfolding requests_get_def
  by (intro keeps_intros keeps_next_tick keeps_emit rel_intros)
     (auto simp: same_marks_def observe_append)

lemma requests_post_same_db: "keeps same_db (requests_post w url p)"
  unfolding requests_post_def
  by (intro keeps_intros keeps_next_tick keeps_emit rel_intros) (auto simp: same_db_def)

lemma requests_post_same_marks: "keeps same_marks (requests_post w url p)"
  unfolding requests_post_def
  by (intro keeps_intros keeps_next_tick keeps_emit rel_intros)
     (auto simp: same_marks_def observe_append)

lemma is_pushed_same_db_net: "keeps same_db_net (is_pushed w i)"
  unfolding is_pushed_def
  by (intro keeps_intros keeps_get_db statement_same_db_net rel_intros)

lemma is_pushed_same_marks: "keeps same_marks (is_pushed w i)"
  unfolding is_pushed_def
  by (intro keeps_intros keeps_get_db statement_same_marks rel_intros)

lemma get_repo_info_same_db_net: "keeps same_db_net (get_repo_info w n)"
  unfolding get_repo_info_def
  by (intro keeps_intros keeps_get_db statement_same_db_net rel_intros)

lemma get_repo_info_same_marks: "keeps same_marks (get_repo_info w n)"
  unfolding get_repo_info_def
  by (intro keeps_intros keeps_get_db statement_same_marks rel_intros)

lemma db_get_user_avatar_same_db_net: "keeps same_db_net (db_get_user_avatar w n)"
  unfolding db_get_user_avatar_def
  by (intro keeps_intros keeps_get_db statement_same_db_net rel_intros)

lemma db_get_user_avatar_same_marks: "keeps same_marks (db_get_user_avatar w n)"
  unfolding db_get_user_avatar_def
  by (intro keeps_intros keeps_get_db statement_same_marks rel_intros)

text \<open>Writing a cache leaves the markers alone.\<close>

lemma cache_repo_info_same_marks: "keeps same_marks (cache_repo_info w n info)"
  unfolding cache_repo_info_def
  by (intro keeps_intros keeps_modify_db statement_same_marks commit_same_marks rel_intros)
     (auto simp: same_marks_def)

lemma cache_user_avatar_same_marks: "keeps same_marks (cache_user_avatar w n a)"
  unfolding cache_user_avatar_def
  by (intro keeps_intros keeps_modify_db statement_same_marks commit_same_marks rel_intros)
     (auto simp: same_marks_def)

lemma get_repo_details_same_marks: "keeps same_marks (get_repo_details w n)"
  unfolding get_repo_details_def fetch_repo_details_def
  by (intro keeps_intros get_repo_info_same_marks requests_get_same_marks
        cache_repo_info_same_marks log_same_marks rel_intros)

lemma get_user_avatar_same_marks: "keeps same_marks (get_user_avatar w n)"
  unfolding get_user_avatar_def fetch_user_avatar_def
  by (intro keeps_intros db_get_user_avatar_same_marks requests_get_same_marks
        cache_user_avatar_same_marks log_same_marks rel_intros)

lemma format_message_same_marks: "keeps same_marks (format_message w event)"
  unfolding format_message_def assemble_message_def
  by (intro keeps_intros get_user_avatar_same_marks get_repo_details_same_marks
        log_same_marks rel_intros)

subsection \<open>Exceptions that can leave a program\<close>

lemma raises_onlyD: "raises_only P m \<Longrightarrow> m s = (Inl e, s') \<Longrightarrow> P e"
  by (auto simp: raises_only_def)

lemma raises_only_ret: "raises_only P (ret v)"
  by (simp add: raises_only_def)

lemma raises_only_log: "raises_only P (log lvl msg)"
  by (simp add: raises_only_def log_def emit_def)

lemma raises_only_and_then:
  "raises_only P m \<Longrightarrow> (\<And>v. raises_only P (f v)) \<Longrightarrow> raises_only P (and_then m f)"
  unfolding raises_only_def
proof (intro allI impI)
  fix s e s' assume a: "\<forall>s e s'. m s = (Inl e, s') \<longrightarrow> P e"
    and b: "\<And>v. \<forall>s e s'. f v s = (Inl e, s') \<longrightarrow> P e"
    and c: "and_then m f s = (Inl e, s')"
  from c show "P e"
    by (cases rule: and_then_cases) (use a b in blast)+
qed

lemma raises_only_try_except:
  "(\<And>e. raises_only P (h e)) \<Longrightarrow> (\<And>e. \<not> c e \<Longrightarrow> P e) \<Longrightarrow> raises_only P (try_except c m h)"
  unfolding raises_only_def
  by (auto elim!: try_except_cases)

lemma raises_only_for_each:
  "(\<And>x. raises_only P (body x)) \<Longrightarrow> raises_only P (for_each body xs)"
  by (induction xs) (auto intro: raises_only_ret raises_only_and_then)

lemma raises_only_if:
  "raises_only P a \<Longrightarrow> raises_only P b \<Longrightarrow> raises_only P (if c then a else b)"
  by simp

text \<open>No \<^verbatim>\<open>Exception\<close> leaves the formatter or a dispatcher: only an interrupt does.\<close>

lemma format_message_raises: "raises_only (\<lambda>e. \<not> is_Exception e) (format_message w event)"
  unfolding format_message_def
  by (intro raises_only_try_except raises_only_and_then raises_only_log raises_only_ret) simp

lemma send_dingtalk_raises: "raises_only (\<lambda>e. \<not> is_Exception e) (send_dingtalk w m bc)"
  unfolding send_dingtalk_def
  by (intro raises_only_try_except raises_only_log) simp

lemma send_feishu_raises: "raises_only (\<lambda>e. \<not> is_Exception e) (send_feishu w m bc)"
  unfolding send_feishu_def
  by (intro raises_only_try_except raises_only_log) simp

lemma send_all_raises: "raises_only (\<lambda>e. \<not> is_Exception e) (send_all w cfg m)"
  unfolding send_all_def
  by (intro raises_only_and_then raises_only_if raises_only_for_each raises_only_ret
        send_dingtalk_raises send_feishu_raises)

subsection \<open>Dispatch leaves the database alone\<close>

lemma keeps_for_each:
  "reflp R \<Longrightarrow> transp R \<Longrightarrow> (\<And>x. keeps R (body x)) \<Longrightarrow> keeps R (for_each body xs)"
  by (induction xs) (auto intro: keeps_ret keeps_and_then)

lemma dingtalk_url_same_db: "keeps same_db (dingtalk_url w bc)"
  unfolding dingtalk_url_def
  by (intro keeps_intros keeps_next_tick rel_intros) (auto simp: same_db_def)

lemma dingtalk_url_same_marks: "keeps same_marks (dingtalk_url w bc)"
  unfolding dingtalk_url_def
  by (intro keeps_intros keeps_next_tick rel_intros) (auto simp: same_marks_def)

lemma feishu_url_same_db: "keeps same_db (feishu_url w bc)"
  unfolding feishu_url_def
  by (intro keeps_intros keeps_next_tick rel_intros) (auto simp: same_db_def)

lemma feishu_url_same_marks: "keeps same_marks (feishu_url w bc)"
  unfolding feishu_url_def
  by (intro keeps_intros keeps_next_tick rel_intros) (auto simp: same_marks_def)

lemma send_dingtalk_same_db: "keeps same_db (send_dingtalk w m bc)"
  unfolding send_dingtalk_def
  by (intro keeps_intros dingtalk_url_same_db requests_post_same_db log_same_db rel_intros)

lemma send_dingtalk_same_marks: "keeps same_marks (send_dingtalk w m bc)"
  unfolding send_dingtalk_def
  by (intro keeps_intros dingtalk_url_same_marks requests_post_same_marks log_same_marks
        rel_intros)

lemma send_feishu_same_db: "keeps same_db (send_feishu w m bc)"
  unfolding send_feishu_def
  by (intro keeps_intros feishu_url_same_db requests_post_same_db log_same_db rel_intros)

lemma send_feishu_same_marks: "keeps same_marks (send_feishu w m bc)"
  unfolding send_feishu_def
  by (intro keeps_intros feishu_url_same_marks requests_post_same_marks log_same_marks
        rel_intros)

lemma send_all_same_db: "keeps same_db (send_all w cfg m)"
  unfolding send_all_def
  by (intro keeps_intros keeps_for_each send_dingtalk_same_db send_feishu_same_db rel_intros)

lemma send_all_same_marks: "keeps same_marks (send_all w cfg m)"
  unfolding send_all_def
  by (intro keeps_intros keeps_for_each send_dingtalk_same_marks send_feishu_same_marks
        rel_intros)

subsection \<open>The marker table\<close>

lemma statement_ok:
  "storage_fault w q (tick s) = None
   \<Longrightarrow> statement w q s = (Inr (tick s), s\<lparr>tick := Suc (tick s)\<rparr>)"
  by (simp add: statement_def and_then_def next_tick_def)

lemma statement_fault:
  "storage_fault w q (tick s) = Some e
   \<Longrightarrow> statement w q s = (Inl e, s\<lparr>tick := Suc (tick s)\<rparr>)"
  by (simp add: statement_def and_then_def next_tick_def)

lemma is_pushed_result:
  assumes "is_pushed w i s = (Inr b, s')"
  shows "\<exists>k. sql_text i = Inr k \<and> b = has_key k (pushed_events (db s))"
  using assms
  by (cases "storage_fault w SelectPushed (tick s)"; cases "sql_text i")
     (auto simp: is_pushed_def and_then_def statement_def next_tick_def get_db_def)

lemma is_pushed_ok:
  assumes "storage_fault w SelectPushed (tick s) = None" "sql_text i = Inr k"
  shows "is_pushed w i s = (Inr (has_key k (pushed_events (db s))), s\<lparr>tick := Suc (tick s)\<rparr>)"
  using assms
  by (simp add: is_pushed_def and_then_def statement_def next_tick_def get_db_def)

lemma commit_ok:
  "storage_fault w q (tick s) = None \<Longrightarrow> commit w q s = (Inr (), s\<lparr>tick := Suc (tick s)\<rparr>)"
  by (simp add: commit_def statement_def and_then_def next_tick_def)

lemma commit_fault:
  "storage_fault w q (tick s) = Some e \<Longrightarrow> commit w q s = (Inl e, s\<lparr>tick := Suc (tick s)\<rparr>)"
  by (simp add: commit_def statement_def and_then_def next_tick_def)

lemma mark_pushed_ok:
  assumes "storage_fault w InsertPushed (tick s) = None"
    "storage_fault w CommitPushed (Suc (tick s)) = None" "sql_text i = Inr k"
  shows "mark_pushed w i s = (Inr (), marked w k s)"
  using assms
  by (simp add: mark_pushed_def insert_pushed_def try_except_def and_then_def statement_def
        commit_def marked_def next_tick_def get_db_def put_db_def is_IntegrityError_def)

lemma has_key_append:
  "has_key k (rows @ [(k', v)]) = (has_key k rows \<or> (k \<noteq> JNull \<and> k = k'))"
  by (auto simp: has_key_def)

subsection \<open>The deduplication invariant\<close>

lemma same_marks_dedup_inv: "same_marks s s' \<Longrightarrow> dedup_inv s \<Longrightarrow> dedup_inv s'"
  by (simp add: same_marks_def dedup_inv_def sent_keys_def)

lemma same_marks_dedup_weak: "same_marks s s' \<Longrightarrow> dedup_weak s \<Longrightarrow> dedup_weak s'"
  by (simp add: same_marks_def dedup_weak_def sent_keys_def)

lemma dedup_inv_weak: "dedup_inv s \<Longrightarrow> dedup_weak s"
  by (simp add: dedup_inv_def dedup_weak_def)

lemma emit_apply: "emit x s = (Inr (), s\<lparr>trace := trace s @ [x]\<rparr>)"
  by (simp add: emit_def)

lemma sent_keys_snoc: "sent_keys (tr @ [SendAll i m]) = sent_keys tr @ key_of_id i"
  by (simp add: sent_keys_def sent_ids_append)

lemma key_of_id_Inr: "sql_text i = Inr k \<Longrightarrow> key_of_id i = (if k = JNull then [] else [k])"
  by (simp add: key_of_id_def)

lemma process_event_dedup:
  assumes ok: "marker_writes_ok w" and inv: "dedup_inv s"
    and run: "process_event w cfg event s = (r, s')"
  shows "dedup_weak s' \<and> ((\<forall>e. r = Inl e \<longrightarrow> is_Exception e) \<longrightarrow> dedup_inv s')"
proof (cases "py_getitem event ''id''")
  case (Inl e)
  with run have "s' = s" by (simp add: process_event_def)
  with inv show ?thesis by (simp add: dedup_inv_weak)
next
  case (Inr i)
  with run have run1:
    "and_then (is_pushed w i) (\<lambda>pushed.
       if \<not> pushed then
         and_then (format_message w event) (\<lambda>msg.
         and_then (emit (SendAll i msg)) (\<lambda>_.
         and_then (send_all w cfg msg) (\<lambda>_.
         and_then (mark_pushed w i) (\<lambda>_.
         and_then (sleep w EVENT_DELAY_MS) (\<lambda>_. ret True)))))
       else ret False) s = (r, s')"
    by (simp add: process_event_def cong: if_cong)
  from run1 show ?thesis
  proof (cases rule: and_then_cases)
    case (raised e)
    then have "same_marks s s'" by (auto dest: keepsD [OF is_pushed_same_marks])
    with inv show ?thesis by (auto dest: same_marks_dedup_inv dedup_inv_weak)
  next
    case (returned b s1)
    then have m1: "same_marks s s1" by (auto dest: keepsD [OF is_pushed_same_marks])
    from returned(1) obtain k where k: "sql_text i = Inr k"
      and b: "b = has_key k (pushed_events (db s))"
      using is_pushed_result by blast
    show ?thesis
    proof (cases b)
      case True
      with returned(2) have "s' = s1" by simp
      with m1 inv show ?thesis by (auto dest: same_marks_dedup_inv dedup_inv_weak)
    next
      case False
      with returned(2) have run2:
        "and_then (format_message w event) (\<lambda>msg.
         and_then (emit (SendAll i msg)) (\<lambda>_.
         and_then (send_all w cfg msg) (\<lambda>_.
         and_then (mark_pushed w i) (\<lambda>_.
         and_then (sleep w EVENT_DELAY_MS) (\<lambda>_. ret True))))) s1 = (r, s')"
        by simp
      from False b have fresh: "\<not> has_key k (pushed_events (db s))" by simp
      with inv have notin: "k \<notin> set (sent_keys (trace s))"
        by (auto simp: dedup_inv_def)
      from run2 show ?thesis
      proof (cases rule: and_then_cases)
        case (raised e)
        then have "same_marks s1 s'" by (auto dest: keepsD [OF format_message_same_marks])
        with m1 inv show ?thesis by (auto dest: same_marks_dedup_inv dedup_inv_weak)
      next
        case (returned msg s2)
        then have m2: "same_marks s1 s2" by (auto dest: keepsD [OF format_message_same_marks])
        define s3 where "s3 = s2\<lparr>trace := trace s2 @ [SendAll i msg]\<rparr>"
        from returned(2) have run3:
          "and_then (send_all w cfg msg) (\<lambda>_.
           and_then (mark_pushed w i) (\<lambda>_.
           and_then (sleep w EVENT_DELAY_MS) (\<lambda>_. ret True))) s3 = (r, s')"
          by (simp add: and_then_def emit_apply s3_def)
        have keys3: "sent_keys (trace s3) = sent_keys (trace s) @ key_of_id i"
          using m1 m2 by (simp add: s3_def same_marks_def sent_keys_def sent_ids_append)
        have pushed3: "pushed_events (db s3) = pushed_events (db s)"
          using m1 m2 by (simp add: s3_def same_marks_def)
        have weak3: "distinct (sent_keys (trace s3))"
          using inv notin k by (auto simp: keys3 key_of_id_Inr dedup_inv_def)
        from run3 show ?thesis
        proof (cases rule: and_then_cases)
          case (raised e)
          then have "same_marks s3 s'" "\<not> is_Exception e"
            by (auto dest: keepsD [OF send_all_same_marks] raises_onlyD [OF send_all_raises])
          with weak3 raised(2) show ?thesis
            by (auto simp: dedup_weak_def same_marks_def sent_keys_def)
        next
          case (returned u s4)
          then have m4: "same_marks s3 s4" by (auto dest: keepsD [OF send_all_same_marks])
          from ok have nofault: "storage_fault w InsertPushed (tick s4) = None"
            "storage_fault w CommitPushed (Suc (tick s4)) = None"
            by (simp_all add: marker_writes_ok_def)
          define s5 where "s5 = marked w k s4"
          have mark: "mark_pushed w i s4 = (Inr (), s5)"
            unfolding s5_def by (rule mark_pushed_ok [OF nofault k])
          have pushed4: "pushed_events (db s4) = pushed_events (db s)"
            using m4 pushed3 by (simp add: same_marks_def)
          have pushed5: "pushed_events (db s5) = pushed_events (db s) @ [(k, now_iso w (tick s4))]"
            using fresh by (simp add: s5_def marked_def pushed4)
          have keys5: "sent_keys (trace s5) = sent_keys (trace s) @ key_of_id i"
            using m4 keys3 by (simp add: s5_def marked_def same_marks_def sent_keys_def)
          have inv5: "dedup_inv s5"
            unfolding dedup_inv_def keys5 pushed5
            using inv notin k
            by (auto simp: key_of_id_Inr dedup_inv_def has_key_append)
          from returned(2) mark have run5:
            "and_then (sleep w EVENT_DELAY_MS) (\<lambda>_. ret True) s5 = (r, s')"
            by (simp add: and_then_def)
          have "same_marks s5 s'"
            using run5 by (cases rule: and_then_cases) (auto dest: keepsD [OF sleep_same_marks])
          with inv5 show ?thesis by (auto dest: same_marks_dedup_inv dedup_inv_weak)
        qed
      qed
    qed
  qed
qed

lemma process_events_dedup:
  assumes "marker_writes_ok w" "dedup_inv s" "process_events w cfg evs n s = (r, s')"
  shows "dedup_weak s' \<and> ((\<forall>e. r = Inl e \<longrightarrow> is_Exception e) \<longrightarrow> dedup_inv s')"
  using assms(2,3)
proof (induction evs arbitrary: s n)
  case Nil
  then show ?case by (auto dest: dedup_inv_weak)
next
  case (Cons ev evs)
  from Cons.prems(2) have
    "and_then (process_event w cfg ev)
       (\<lambda>was_new. process_events w cfg evs (if was_new then n + 1 else n)) s = (r, s')"
    by simp
  then show ?case
  proof (cases rule: and_then_cases)
    case (raised e)
    with process_event_dedup [OF assms(1) Cons.prems(1)] show ?thesis by blast
  next
    case (returned b s1)
    with process_event_dedup [OF assms(1) Cons.prems(1)] have "dedup_inv s1" by blast
    with returned(2) Cons.IH show ?thesis by blast
  qed
qed

lemma cycle_body_dedup:
  assumes "marker_writes_ok w" "dedup_inv s" "cycle_body w cfg s = (r, s')"
  shows "dedup_weak s' \<and> ((\<forall>e. r = Inl e \<longrightarrow> is_Exception e) \<longrightarrow> dedup_inv s')"
proof -
  have pre: "keeps same_marks
     (and_then (requests_get w (feed_url cfg)) (\<lambda>response.
      and_then (lift (response_json response)) (\<lambda>events. lift (py_iter events))))"
    by (intro keeps_intros requests_get_same_marks rel_intros)
  have post: "\<And>n. keeps same_marks
     (and_then (log INFO (LOG_DONE_A @ str_int n @ LOG_DONE_B)) (\<lambda>_.
        sleep w (poll_interval cfg * 1000)))"
    by (intro keeps_intros log_same_marks sleep_same_marks rel_intros)
  have split: "cycle_body w cfg =
     and_then (and_then (requests_get w (feed_url cfg)) (\<lambda>response.
               and_then (lift (response_json response)) (\<lambda>events. lift (py_iter events))))
       (\<lambda>event_list.
          and_then (process_events w cfg event_list 0) (\<lambda>n.
            and_then (log INFO (LOG_DONE_A @ str_int n @ LOG_DONE_B)) (\<lambda>_.
              sleep w (poll_interval cfg * 1000))))"
    by (auto simp: cycle_body_def and_then_def fun_eq_iff split: prod.splits sum.splits)
  from assms(3) show ?thesis
    unfolding split
  proof (cases rule: and_then_cases)
    case (raised e)
    then have "same_marks s s'" by (auto dest: keepsD [OF pre])
    with assms(2) show ?thesis by (auto dest: same_marks_dedup_inv dedup_inv_weak)
  next
    case (returned evs s1)
    then have "same_marks s s1" by (auto dest: keepsD [OF pre])
    with assms(2) have inv1: "dedup_inv s1" by (auto dest: same_marks_dedup_inv)
    from returned(2) show ?thesis
    proof (cases rule: and_then_cases)
      case (raised e)
      with process_events_dedup [OF assms(1) inv1] show ?thesis by blast
    next
      case (returned n s2)
      with process_events_dedup [OF assms(1) inv1] have "dedup_inv s2" by blast
      moreover from returned(2) have "same_marks s2 s'" by (auto dest: keepsD [OF post])
      ultimately show ?thesis by (auto dest: same_marks_dedup_inv dedup_inv_weak)
    qed
  qed
qed

lemma backoff_same_marks: "keeps same_marks (backoff w prefix e)"
  unfolding backoff_def
  by (intro keeps_intros log_same_marks sleep_same_marks rel_intros)

lemma poll_cycle_dedup:
  assumes "marker_writes_ok w" "dedup_inv s" "poll_cycle w cfg s = (r, s')"
  shows "dedup_weak s' \<and> ((\<exists>v. r = Inr v) \<longrightarrow> dedup_inv s')"
proof -
  obtain r1 s1 where body: "cycle_body w cfg s = (r1, s1)" by (cases "cycle_body w cfg s")
  note d = cycle_body_dedup [OF assms(1,2) body]
  show ?thesis
  proof (cases r1)
    case (Inr v)
    with body assms(3) d show ?thesis by (auto simp: poll_cycle_def)
  next
    case (Inl e)
    show ?thesis
    proof (cases "is_Exception e")
      case True
      with d Inl have inv1: "dedup_inv s1" by simp
      from True Inl body assms(3) obtain prefix where "backoff w prefix e s1 = (r, s')"
        by (auto simp: poll_cycle_def split: if_splits)
      then have "same_marks s1 s'" by (auto dest: keepsD [OF backoff_same_marks])
      with inv1 show ?thesis by (auto dest: same_marks_dedup_inv dedup_inv_weak)
    next
      case False
      then have "\<not> is_RequestException e"
        by (auto simp: is_Exception_def is_RequestException_def)
      with False Inl body assms(3) d show ?thesis by (auto simp: poll_cycle_def)
    qed
  qed
qed

lemma run_cycles_dedup:
  assumes "marker_writes_ok w" "dedup_inv s" "run_cycles w cfg n s = (r, s')"
  shows "dedup_weak s'"
  using assms(2,3)
proof (induction n arbitrary: s)
  case 0
  then show ?case by (auto dest: dedup_inv_weak)
next
  case (Suc n)
  obtain r1 s1 where c: "poll_cycle w cfg s = (r1, s1)" by (cases "poll_cycle w cfg s")
  note d = poll_cycle_dedup [OF assms(1) Suc.prems(1) c]
  show ?case
  proof (cases r1)
    case (Inl e) with c Suc.prems(2) d show ?thesis by auto
  next
    case (Inr v)
    with c Suc.prems(2) d Suc.IH show ?thesis by auto
  qed
qed

lemma monitor_dedup:
  assumes "marker_writes_ok w" "dedup_inv s"
  shows "dedup_weak (snd (monitor w cfg n s))"
proof -
  define s0 where "s0 = snd (log INFO LOG_START s)"
  have "same_marks s s0"
    unfolding s0_def using keepsD [OF log_same_marks, of INFO LOG_START s]
    by (cases "log INFO LOG_START s") auto
  with assms(2) have inv0: "dedup_inv s0" by (auto dest: same_marks_dedup_inv)
  obtain r s1 where run: "run_cycles w cfg n s0 = (r, s1)" by (cases "run_cycles w cfg n s0")
  from run_cycles_dedup [OF assms(1) inv0 run] have w1: "dedup_weak s1" .
  have "monitor w cfg n s =
          (case r of
             None \<Rightarrow> (Polling, s1)
           | Some e \<Rightarrow>
               if exn_cls e = KeyboardInterrupt
               then (Stopped, snd (emit DbClosed (snd (log INFO LOG_STOP s1))))
               else (Crashed e, snd (emit DbClosed s1)))"
    using run unfolding monitor_def s0_def by (simp split: option.splits)
  then have "sent_ids (trace (snd (monitor w cfg n s))) = sent_ids (trace s1)"
    by (auto simp: log_def emit_def observe_append split: option.splits)
  with w1 show ?thesis by (simp add: dedup_weak_def sent_keys_def)
qed

lemma count_list_distinct_le: "distinct xs \<Longrightarrow> count_list xs x \<le> 1"
  by (induction xs) (auto simp: count_list_0_iff)

lemma count_sent_keys: "count_list ids (JStr k) \<le> count_list (concat (map key_of_id ids)) (JStr k)"
  by (induction ids)
     (auto simp: key_of_id_def sql_text_def sql_text_at_def sql_bind_def text_affinity_def)

lemma dedup_weak_dispatches: "dedup_weak s \<Longrightarrow> dispatches_of (JStr k) (trace s) \<le> 1"
  unfolding dedup_weak_def dispatches_of_def sent_keys_def
  using count_sent_keys [of "sent_ids (trace s)" k]
        count_list_distinct_le [of "concat (map key_of_id (sent_ids (trace s)))" "JStr k"]
  by linarith

lemma dedup_inv_start: "trace s = [] \<Longrightarrow> dedup_inv s"
  by (simp add: dedup_inv_def sent_keys_def)

subsection \<open>The marker table only grows\<close>

lemma marks_grow_reflp: "reflp marks_grow"
  by (auto simp: reflp_def marks_grow_def)

lemma marks_grow_transp: "transp marks_grow"
  by (auto simp: transp_def marks_grow_def)

lemma keeps_weaken: "keeps R m \<Longrightarrow> (\<And>s s'. R s s' \<Longrightarrow> R' s s') \<Longrightarrow> keeps R' m"
  by (auto simp: keeps_def)

lemma same_marks_grow: "same_marks s s' \<Longrightarrow> marks_grow s s'"
  by (simp add: same_marks_def marks_grow_def)

lemma mark_pushed_marks_grow: "keeps marks_grow (mark_pushed w i)"
  by (auto simp: keeps_def marks_grow_def mark_pushed_def insert_pushed_def try_except_def
        and_then_def statement_def commit_def next_tick_def get_db_def put_db_def lift_def
      split: option.splits sum.splits if_splits)

lemma is_pushed_marks_grow: "keeps marks_grow (is_pushed w i)"
  by (rule keeps_weaken [OF is_pushed_same_marks same_marks_grow])

lemma format_message_marks_grow: "keeps marks_grow (format_message w ev)"
  by (rule keeps_weaken [OF format_message_same_marks same_marks_grow])

lemma send_all_marks_grow: "keeps marks_grow (send_all w cfg m)"
  by (rule keeps_weaken [OF send_all_same_marks same_marks_grow])

lemma sleep_marks_grow: "keeps marks_grow (sleep w ms)"
  by (rule keeps_weaken [OF sleep_same_marks same_marks_grow])

lemma process_event_marks_grow: "keeps marks_grow (process_event w cfg ev)"
  unfolding process_event_def
  by (intro keeps_intros mark_pushed_marks_grow marks_grow_reflp marks_grow_transp
        is_pushed_marks_grow format_message_marks_grow send_all_marks_grow sleep_marks_grow
        keeps_emit)
     (auto simp: marks_grow_def)

lemma process_events_marks_grow: "keeps marks_grow (process_events w cfg evs n)"
  by (induction evs arbitrary: n)
     (auto intro!: keeps_intros process_event_marks_grow marks_grow_reflp marks_grow_transp)

lemma has_key_grow:
  "marks_grow s s' \<Longrightarrow> has_key k (pushed_events (db s)) \<Longrightarrow> has_key k (pushed_events (db s'))"
  by (auto simp: marks_grow_def has_key_def)

subsection \<open>A pass over a page\<close>

lemma event_key_Some:
  "event_key ev = Some k \<longleftrightarrow> (\<exists>i. py_getitem ev ''id'' = Inr i \<and> sql_text i = Inr k)"
  by (auto simp: event_key_def split: sum.splits)

lemma process_event_Inr_marked:
  assumes ok: "marker_writes_ok w" and run: "process_event w cfg ev s = (Inr b, s')"
  shows "\<exists>k. event_key ev = Some k \<and> (k = JNull \<or> has_key k (pushed_events (db s')))"
proof (cases "py_getitem ev ''id''")
  case (Inl e)
  with run show ?thesis by (simp add: process_event_def)
next
  case (Inr i)
  with run have run1:
    "and_then (is_pushed w i) (\<lambda>pushed.
       if \<not> pushed then
         and_then (format_message w ev) (\<lambda>msg.
         and_then (emit (SendAll i msg)) (\<lambda>_.
         and_then (send_all w cfg msg) (\<lambda>_.
         and_then (mark_pushed w i) (\<lambda>_.
         and_then (sleep w EVENT_DELAY_MS) (\<lambda>_. ret True)))))
       else ret False) s = (Inr b, s')"
    by (simp add: process_event_def cong: if_cong)
  from run1 show ?thesis
  proof (cases rule: and_then_cases)
    case (returned p s1)
    then have m1: "same_marks s s1" by (auto dest: keepsD [OF is_pushed_same_marks])
    from returned(1) obtain k where k: "sql_text i = Inr k"
      and p: "p = has_key k (pushed_events (db s))"
      using is_pushed_result by blast
    from Inr k have ek: "event_key ev = Some k" by (auto simp: event_key_Some)
    show ?thesis
    proof (cases p)
      case True
      with returned(2) have "s' = s1" by simp
      with m1 p True ek show ?thesis by (auto simp: same_marks_def)
    next
      case False
      with returned(2) have
        "and_then (format_message w ev) (\<lambda>msg.
         and_then (emit (SendAll i msg)) (\<lambda>_.
         and_then (send_all w cfg msg) (\<lambda>_.
         and_then (mark_pushed w i) (\<lambda>_.
         and_then (sleep w EVENT_DELAY_MS) (\<lambda>_. ret True))))) s1 = (Inr b, s')"
        by simp
      then obtain msg s2 s3 s4 s5 u1 u2 u3 where
        "format_message w ev s1 = (Inr msg, s2)"
        "emit (SendAll i msg) s2 = (Inr u1, s3)"
        "send_all w cfg msg s3 = (Inr u2, s4)"
        "mark_pushed w i s4 = (Inr u3, s5)"
        and sl: "sleep w EVENT_DELAY_MS s5 = (Inr (), s')"
        by (elim and_then_cases) auto
      from ok have "storage_fault w InsertPushed (tick s4) = None"
        "storage_fault w CommitPushed (Suc (tick s4)) = None"
        by (simp_all add: marker_writes_ok_def)
      from mark_pushed_ok [OF this k] \<open>mark_pushed w i s4 = (Inr u3, s5)\<close>
      have "k \<noteq> JNull \<longrightarrow> has_key k (pushed_events (db s5))"
        by (auto simp: has_key_append marked_def split: if_splits)
      moreover have "same_marks s5 s'"
        using sl by (rule keepsD [OF sleep_same_marks])
      ultimately show ?thesis using ek by (auto simp: same_marks_def)
    qed
  qed simp
qed

lemma process_events_all_marked:
  assumes "marker_writes_ok w" "process_events w cfg evs n s = (Inr m, s')"
  shows "\<forall>ev \<in> set evs. \<exists>k. event_key ev = Some k
            \<and> (k = JNull \<or> has_key k (pushed_events (db s')))"
  using assms(2)
proof (induction evs arbitrary: s n)
  case Nil
  then show ?case by simp
next
  case (Cons ev evs)
  from Cons.prems have
    "and_then (process_event w cfg ev)
       (\<lambda>was_new. process_events w cfg evs (if was_new then n + 1 else n)) s = (Inr m, s')"
    by simp
  then obtain b s1 where
    one: "process_event w cfg ev s = (Inr b, s1)"
    and rest: "process_events w cfg evs (if b then n + 1 else n) s1 = (Inr m, s')"
    by (cases rule: and_then_cases) auto
  from process_event_Inr_marked [OF assms(1) one] obtain k where
    "event_key ev = Some k" "k = JNull \<or> has_key k (pushed_events (db s1))" by blast
  moreover have "marks_grow s1 s'"
    using rest by (rule keepsD [OF process_events_marks_grow])
  ultimately have "\<exists>k. event_key ev = Some k \<and> (k = JNull \<or> has_key k (pushed_events (db s')))"
    by (auto dest: has_key_grow)
  with Cons.IH [OF rest] show ?case by simp
qed

lemma process_event_seen:
  assumes "storage_fault w SelectPushed (tick s) = None" "event_key ev = Some k"
    "has_key k (pushed_events (db s))"
  shows "process_event w cfg ev s = (Inr False, s\<lparr>tick := Suc (tick s)\<rparr>)"
proof -
  from assms(2) obtain i where i: "py_getitem ev ''id'' = Inr i" "sql_text i = Inr k"
    by (auto simp: event_key_Some)
  show ?thesis
    using i(1) assms(3) is_pushed_ok [OF assms(1) i(2)]
    by (simp add: process_event_def and_then_def)
qed

lemma process_events_seen:
  assumes "storage_ok w"
    "\<forall>ev \<in> set evs. \<exists>k. event_key ev = Some k \<and> has_key k (pushed_events (db s))"
  shows "process_events w cfg evs n s = (Inr n, s\<lparr>tick := tick s + length evs\<rparr>)"
  using assms(2)
proof (induction evs arbitrary: s)
  case Nil
  then show ?case by simp
next
  case (Cons ev evs)
  then obtain k where k: "event_key ev = Some k" "has_key k (pushed_events (db s))" by auto
  from assms(1) have "storage_fault w SelectPushed (tick s) = None" by (simp add: storage_ok_def)
  note one = process_event_seen [OF this k, of cfg]
  have "process_events w cfg evs n (s\<lparr>tick := Suc (tick s)\<rparr>)
          = (Inr n, s\<lparr>tick := Suc (tick s)\<rparr>\<lparr>tick := tick (s\<lparr>tick := Suc (tick s)\<rparr>) + length evs\<rparr>)"
    using Cons.prems by (intro Cons.IH) simp
  with one show ?case by (simp add: and_then_def)
qed

subsection \<open>Marking twice\<close>

lemma sql_text_JStr: "sql_text (JStr k) = Inr (JStr k)"
  by (simp add: sql_text_def sql_text_at_def sql_bind_def text_affinity_def)

lemma markers_of_append:
  "markers_of k (d\<lparr>pushed_events := pushed_events d @ [(JStr k, v)]\<rparr>) = markers_of k d @ [(JStr k, v)]"
  by (simp add: markers_of_def)

lemma has_key_markers: "has_key (JStr k) (pushed_events d) \<longleftrightarrow> markers_of k d \<noteq> []"
  by (force simp: has_key_def markers_of_def filter_empty_conv)

lemma mark_pushed_once:
  assumes "storage_fault w InsertPushed (tick s) = None"
    "storage_fault w CommitPushed (Suc (tick s)) = None"
  shows "fst (mark_pushed w (JStr k) s) = Inr ()"
    and "markers_of k (db (snd (mark_pushed w (JStr k) s))) =
           (if markers_of k (db s) = [] then [(JStr k, now_iso w (tick s))] else markers_of k (db s))"
    and "tick (snd (mark_pushed w (JStr k) s)) =
           (if markers_of k (db s) = [] then Suc (Suc (tick s)) else Suc (tick s))"
    and "trace (snd (mark_pushed w (JStr k) s)) = trace s"
  using mark_pushed_ok [OF assms sql_text_JStr, of k]
  by (auto simp: marked_def has_key_markers markers_of_append)

lemma is_pushed_run:
  "is_pushed w i s =
     (case storage_fault w SelectPushed (tick s) of
        Some e \<Rightarrow> Inl e
      | None \<Rightarrow> (case sql_text i of
                   Inl e \<Rightarrow> Inl e
                 | Inr k \<Rightarrow> Inr (has_key k (pushed_events (db s)))),
      s\<lparr>tick := Suc (tick s)\<rparr>)"
  by (simp add: is_pushed_def and_then_def statement_def next_tick_def get_db_def lift_def
      split: option.splits sum.splits)

lemma process_event_seen_any:
  assumes "event_key ev = Some k" "has_key k (pushed_events (db s))"
  shows "process_event w cfg ev s = (Inr False, s\<lparr>tick := Suc (tick s)\<rparr>)
       \<or> (\<exists>e. process_event w cfg ev s = (Inl e, s\<lparr>tick := Suc (tick s)\<rparr>))"
proof -
  from assms(1) obtain i where i: "py_getitem ev ''id'' = Inr i" "sql_text i = Inr k"
    by (auto simp: event_key_Some)
  show ?thesis
    using i assms(2)
    by (cases "storage_fault w SelectPushed (tick s)")
       (simp_all add: process_event_def and_then_def is_pushed_run)
qed

lemma process_events_seen_any:
  assumes "\<forall>ev \<in> set evs. \<exists>k. event_key ev = Some k \<and> has_key k (pushed_events (db s))"
    and "process_events w cfg evs n s = (r, s')"
  shows "trace s' = trace s \<and> db s' = db s \<and> (r = Inr n \<or> (\<exists>e. r = Inl e))"
  using assms
proof (induction evs arbitrary: s)
  case Nil
  then show ?case by simp
next
  case (Cons ev evs)
  then obtain k where k: "event_key ev = Some k" "has_key k (pushed_events (db s))" by auto
  from process_event_seen_any [OF k, of w cfg] show ?case
  proof
    assume one: "process_event w cfg ev s = (Inr False, s\<lparr>tick := Suc (tick s)\<rparr>)"
    with Cons.prems(2) have "process_events w cfg evs n (s\<lparr>tick := Suc (tick s)\<rparr>) = (r, s')"
      by (simp add: and_then_def)
    moreover have "\<forall>ev \<in> set evs. \<exists>k. event_key ev = Some k
        \<and> has_key k (pushed_events (db (s\<lparr>tick := Suc (tick s)\<rparr>)))"
      using Cons.prems(1) by simp
    ultimately show ?thesis using Cons.IH by fastforce
  next
    assume "\<exists>e. process_event w cfg ev s = (Inl e, s\<lparr>tick := Suc (tick s)\<rparr>)"
    with Cons.prems(2) show ?thesis by (auto simp: and_then_def)
  qed
qed

subsection \<open>Without an interrupt, only an \<^verbatim>\<open>Exception\<close> can be raised\<close>

lemma raises_only_raise: "P e \<Longrightarrow> raises_only P (raise_exn e)"
  by (simp add: raises_only_def)

lemma raises_only_lift: "(\<And>e. x = Inl e \<Longrightarrow> P e) \<Longrightarrow> raises_only P (lift x)"
  by (cases x) (auto simp: raises_only_def)

lemma raises_only_try_except_any:
  "raises_only P m \<Longrightarrow> (\<And>e. raises_only P (h e)) \<Longrightarrow> raises_only P (try_except c m h)"
  unfolding raises_only_def
proof (intro allI impI)
  fix s e s' assume a: "\<forall>s e s'. m s = (Inl e, s') \<longrightarrow> P e"
    and b: "\<And>e. \<forall>s ea s'. h e s = (Inl ea, s') \<longrightarrow> P ea"
    and c: "try_except c m h s = (Inl e, s')"
  from c show "P e"
    by (cases rule: try_except_cases) (use a b in blast)+
qed

lemma raises_only_case_option:
  "raises_only P a \<Longrightarrow> (\<And>v. raises_only P (b v))
   \<Longrightarrow> raises_only P (case x of None \<Rightarrow> a | Some v \<Rightarrow> b v)"
  by (cases x) auto

lemma raises_only_case_prod:
  "(\<And>a b. raises_only P (f a b)) \<Longrightarrow> raises_only P (case x of (a, b) \<Rightarrow> f a b)"
  by (cases x) auto

lemma raises_only_next_tick: "raises_only P next_tick"
  by (simp add: raises_only_def next_tick_def)

lemma raises_only_emit: "raises_only P (emit x)"
  by (simp add: raises_only_def emit_def)

lemma raises_only_get_db: "raises_only P get_db"
  by (simp add: raises_only_def get_db_def)

lemma raises_only_put_db: "raises_only P (put_db d)"
  by (simp add: raises_only_def put_db_def)

lemma raises_only_modify_db: "raises_only P (modify_db f)"
  by (simp add: raises_only_def modify_db_def)

lemmas raises_only_intros =
  raises_only_ret raises_only_raise raises_only_log raises_only_and_then
  raises_only_try_except_any raises_only_if raises_only_case_option raises_only_case_prod
  raises_only_next_tick raises_only_emit raises_only_get_db raises_only_put_db
  raises_only_modify_db raises_only_for_each

text \<open>The exceptions of the pure operations are \<^verbatim>\<open>Exception\<close>s.\<close>

lemma py_getitem_Exception: "py_getitem v k = Inl e \<Longrightarrow> is_Exception e"
  by (auto simp: py_getitem_def is_Exception_def split: json.splits option.splits)

lemma py_get_Exception: "py_get v k d = Inl e \<Longrightarrow> is_Exception e"
  by (auto simp: py_get_def is_Exception_def split: json.splits option.splits)

lemma py_iter_Exception: "py_iter v = Inl e \<Longrightarrow> is_Exception e"
  by (auto simp: py_iter_def is_Exception_def split: json.splits)

lemma py_add_str_Exception: "py_add_str v x = Inl e \<Longrightarrow> is_Exception e"
  by (auto simp: py_add_str_def is_Exception_def split: json.splits)

lemma sql_bind_Exception: "sql_bind pos v = Inl e \<Longrightarrow> is_Exception e"
  by (auto simp: sql_bind_def unsupported_type_def is_Exception_def
      split: json.splits if_splits)

lemma sql_text_at_Exception: "sql_text_at pos v = Inl e \<Longrightarrow> is_Exception e"
  by (auto simp: sql_text_at_def dest: sql_bind_Exception split: sum.splits)

lemma sql_text_Exception: "sql_text v = Inl e \<Longrightarrow> is_Exception e"
  by (auto simp: sql_text_def dest: sql_text_at_Exception)

lemma sql_integer_Exception: "sql_integer w pos v = Inl e \<Longrightarrow> is_Exception e"
  by (auto simp: sql_integer_def dest: sql_bind_Exception split: sum.splits)

lemma response_json_Exception: "response_json r = Inl e \<Longrightarrow> is_Exception e"
  by (auto simp: response_json_def is_Exception_def split: option.splits)

lemma action_label_Exception: "action_label v = Inl e \<Longrightarrow> is_Exception e"
  by (auto simp: action_label_def is_Exception_def split: json.splits option.splits)

lemma release_info_Exception: "release_info w ev t = Inl e \<Longrightarrow> is_Exception e"
  by (auto simp: release_info_def dest: py_getitem_Exception py_get_Exception
      split: if_splits sum.splits)

lemma format_time_Exception:
  "no_interrupt w \<Longrightarrow> format_time w v = Inl e \<Longrightarrow> is_Exception e"
  by (auto simp: format_time_def is_Exception_def no_interrupt_def
      split: json.splits sum.splits dest!: spec)

lemma feishu_signed_url_Exception:
  "no_interrupt w \<Longrightarrow> feishu_signed_url w u k t = Inl e \<Longrightarrow> is_Exception e"
  by (auto simp: feishu_signed_url_def Let_def no_interrupt_def split: sum.splits dest!: spec)

lemmas pure_Exception =
  py_getitem_Exception py_get_Exception py_iter_Exception py_add_str_Exception
  sql_text_Exception sql_text_at_Exception sql_integer_Exception response_json_Exception action_label_Exception
  release_info_Exception format_time_Exception feishu_signed_url_Exception

lemma statement_Exception: "no_interrupt w \<Longrightarrow> raises_only is_Exception (statement w q)"
  by (auto simp: raises_only_def statement_def and_then_def next_tick_def no_interrupt_def
      split: option.splits dest!: spec)

lemma commit_Exception: "no_interrupt w \<Longrightarrow> raises_only is_Exception (commit w q)"
  unfolding commit_def
  by (intro raises_only_and_then raises_only_ret statement_Exception)

lemma requests_get_Exception: "no_interrupt w \<Longrightarrow> raises_only is_Exception (requests_get w u)"
  by (auto simp: raises_only_def requests_get_def and_then_def next_tick_def emit_def
        no_interrupt_def raises_Exception_def split: http_outcome.splits dest!: spec)

lemma requests_post_Exception:
  "no_interrupt w \<Longrightarrow> raises_only is_Exception (requests_post w u p)"
  by (auto simp: raises_only_def requests_post_def and_then_def next_tick_def emit_def
        no_interrupt_def raises_Exception_def split: http_outcome.splits dest!: spec)

lemma sleep_Exception: "no_interrupt w \<Longrightarrow> raises_only is_Exception (sleep w ms)"
  by (auto simp: raises_only_def sleep_def and_then_def next_tick_def emit_def
        no_interrupt_def is_Exception_def split: if_splits)

lemma is_pushed_Exception: "no_interrupt w \<Longrightarrow> raises_only is_Exception (is_pushed w i)"
  unfolding is_pushed_def
  by (intro raises_only_intros raises_only_lift statement_Exception) (auto dest: pure_Exception)

lemma mark_pushed_Exception: "no_interrupt w \<Longrightarrow> raises_only is_Exception (mark_pushed w i)"
  unfolding mark_pushed_def insert_pushed_def
  by (intro raises_only_intros raises_only_lift statement_Exception commit_Exception)
     (auto dest: pure_Exception simp: is_Exception_def)

lemma get_repo_info_Exception:
  "no_interrupt w \<Longrightarrow> raises_only is_Exception (get_repo_info w n)"
  unfolding get_repo_info_def
  by (intro raises_only_intros raises_only_lift statement_Exception) (auto dest: pure_Exception)

lemma cache_repo_info_Exception:
  "no_interrupt w \<Longrightarrow> raises_only is_Exception (cache_repo_info w n info)"
  unfolding cache_repo_info_def
  by (intro raises_only_intros raises_only_lift statement_Exception commit_Exception)
     (auto dest: pure_Exception)

lemma db_get_user_avatar_Exception:
  "no_interrupt w \<Longrightarrow> raises_only is_Exception (db_get_user_avatar w n)"
  unfolding db_get_user_avatar_def
  by (intro raises_only_intros raises_only_lift statement_Exception) (auto dest: pure_Exception)

lemma cache_user_avatar_Exception:
  "no_interrupt w \<Longrightarrow> raises_only is_Exception (cache_user_avatar w n a)"
  unfolding cache_user_avatar_def
  by (intro raises_only_intros raises_only_lift statement_Exception commit_Exception)
     (auto dest: pure_Exception)

lemma get_repo_details_Exception:
  "no_interrupt w \<Longrightarrow> raises_only is_Exception (get_repo_details w n)"
  unfolding get_repo_details_def fetch_repo_details_def
  by (intro raises_only_intros raises_only_lift get_repo_info_Exception
        requests_get_Exception cache_repo_info_Exception)
     (auto dest: pure_Exception)

lemma get_user_avatar_Exception:
  "no_interrupt w \<Longrightarrow> raises_only is_Exception (get_user_avatar w n)"
  unfolding get_user_avatar_def fetch_user_avatar_def
  by (intro raises_only_intros raises_only_lift db_get_user_avatar_Exception
        requests_get_Exception cache_user_avatar_Exception)
     (auto dest: pure_Exception)

lemma assemble_message_Exception:
  "no_interrupt w \<Longrightarrow> raises_only is_Exception (assemble_message w ev)"
  unfolding assemble_message_def
  by (intro raises_only_intros raises_only_lift get_user_avatar_Exception
        get_repo_details_Exception)
     (auto dest: pure_Exception)

text \<open>A program that always returns.\<close>

lemma returns_from_raises:
  assumes "raises_only is_Exception m" "raises_only (\<lambda>e. \<not> is_Exception e) m"
  shows "\<exists>v s'. m s = (Inr v, s')"
proof (cases "m s")
  case (Pair r s')
  show ?thesis
  proof (cases r)
    case (Inl e)
    with Pair assms show ?thesis by (auto dest: raises_onlyD)
  next
    case (Inr v)
    with Pair show ?thesis by simp
  qed
qed

lemma format_message_Exception:
  "no_interrupt w \<Longrightarrow> raises_only is_Exception (format_message w ev)"
  unfolding format_message_def
  by (intro raises_only_intros assemble_message_Exception)

lemma format_message_returns:
  "no_interrupt w \<Longrightarrow> \<exists>msg s'. format_message w ev s = (Inr msg, s')"
  by (intro returns_from_raises format_message_Exception format_message_raises)

lemma dingtalk_url_Exception: "raises_only is_Exception (dingtalk_url w bc)"
  unfolding dingtalk_url_def
  by (intro raises_only_intros)

lemma feishu_url_Exception: "no_interrupt w \<Longrightarrow> raises_only is_Exception (feishu_url w bc)"
  unfolding feishu_url_def
  by (intro raises_only_intros raises_only_lift) (auto dest: pure_Exception)

lemma send_dingtalk_Exception:
  "no_interrupt w \<Longrightarrow> raises_only is_Exception (send_dingtalk w m bc)"
  unfolding send_dingtalk_def
  by (intro raises_only_intros dingtalk_url_Exception requests_post_Exception)

lemma send_feishu_Exception:
  "no_interrupt w \<Longrightarrow> raises_only is_Exception (send_feishu w m bc)"
  unfolding send_feishu_def
  by (intro raises_only_intros feishu_url_Exception requests_post_Exception)

lemma send_all_Exception: "no_interrupt w \<Longrightarrow> raises_only is_Exception (send_all w cfg m)"
  unfolding send_all_def
  by (intro raises_only_intros send_dingtalk_Exception send_feishu_Exception)

lemma send_dingtalk_returns:
  "no_interrupt w \<Longrightarrow> \<exists>s'. send_dingtalk w m bc s = (Inr (), s')"
  using returns_from_raises [OF send_dingtalk_Exception send_dingtalk_raises] by simp

lemma send_feishu_returns:
  "no_interrupt w \<Longrightarrow> \<exists>s'. send_feishu w m bc s = (Inr (), s')"
  using returns_from_raises [OF send_feishu_Exception send_feishu_raises] by simp

lemma send_all_returns:
  "no_interrupt w \<Longrightarrow> \<exists>s'. send_all w cfg m s = (Inr (), s')"
  using returns_from_raises [OF send_all_Exception send_all_raises] by simp

lemma sleep_ok:
  "0 \<le> ms \<Longrightarrow> \<not> sleep_interrupted w (tick s)
   \<Longrightarrow> sleep w ms s = (Inr (), s\<lparr>tick := Suc (tick s), trace := trace s @ [Slept ms]\<rparr>)"
  by (simp add: sleep_def and_then_def next_tick_def emit_def)

text \<open>A new event is formatted, handed to \<^verbatim>\<open>send_all\<close>, marked, and followed by the pause.\<close>

lemma process_event_new:
  assumes ok: "storage_ok w" and ni: "no_interrupt w"
    and key: "event_key ev = Some k" and new: "\<not> has_key k (pushed_events (db s))"
  shows "\<exists>i msg s1 s2 s3 s'.
           py_getitem ev ''id'' = Inr i
         \<and> format_message w ev (s\<lparr>tick := Suc (tick s)\<rparr>) = (Inr msg, s1)
         \<and> send_all w cfg msg (s1\<lparr>trace := trace s1 @ [SendAll i msg]\<rparr>) = (Inr (), s2)
         \<and> mark_pushed w i s2 = (Inr (), s3)
         \<and> pushed_events (db s3) = pushed_events (db s) @ [(k, now_iso w (tick s2))]
         \<and> s' = s3\<lparr>tick := Suc (tick s3), trace := trace s3 @ [Slept EVENT_DELAY_MS]\<rparr>
         \<and> process_event w cfg ev s = (Inr True, s')"
proof -
  from key obtain i where i: "py_getitem ev ''id'' = Inr i" "sql_text i = Inr k"
    by (auto simp: event_key_Some)
  from ok have nf: "\<And>q t. storage_fault w q t = None" by (simp add: storage_ok_def)
  note p = is_pushed_ok [OF nf i(2), of s]
  define s0 where "s0 = s\<lparr>tick := Suc (tick s)\<rparr>"
  from format_message_returns [OF ni] obtain msg s1 where
    f: "format_message w ev s0 = (Inr msg, s1)" by blast
  then have m1: "same_marks s0 s1" by (rule keepsD [OF format_message_same_marks])
  define s1' where "s1' = s1\<lparr>trace := trace s1 @ [SendAll i msg]\<rparr>"
  from send_all_returns [OF ni] obtain s2 where
    sa: "send_all w cfg msg s1' = (Inr (), s2)" by blast
  then have m2: "same_marks s1' s2" by (rule keepsD [OF send_all_same_marks])
  have pushed2: "pushed_events (db s2) = pushed_events (db s)"
    using m1 m2 by (simp add: same_marks_def s0_def s1'_def)
  define s3 where "s3 = marked w k s2"
  have mk: "mark_pushed w i s2 = (Inr (), s3)"
    unfolding s3_def by (rule mark_pushed_ok [OF nf nf i(2)])
  have pushed3: "pushed_events (db s3) = pushed_events (db s) @ [(k, now_iso w (tick s2))]"
    using new by (simp add: s3_def marked_def pushed2)
  from ni have "\<not> sleep_interrupted w (tick s3)" by (simp add: no_interrupt_def)
  then have sl: "sleep w EVENT_DELAY_MS s3
      = (Inr (), s3\<lparr>tick := Suc (tick s3), trace := trace s3 @ [Slept EVENT_DELAY_MS]\<rparr>)"
    by (intro sleep_ok) (simp_all add: EVENT_DELAY_MS_def)
  have "process_event w cfg ev s
      = (Inr True, s3\<lparr>tick := Suc (tick s3), trace := trace s3 @ [Slept EVENT_DELAY_MS]\<rparr>)"
    using i(1) p new f sa mk sl
    by (simp add: process_event_def and_then_def emit_def s0_def s1'_def)
  with i(1) f sa mk pushed3 show ?thesis
    unfolding s0_def s1'_def by blast
qed

subsection \<open>The quiet world\<close>

lemma quiet_env_storage_ok: "storage_ok quiet_env"
  by (simp add: storage_ok_def quiet_env_def)

lemma quiet_env_marker_writes_ok: "marker_writes_ok quiet_env"
  by (simp add: marker_writes_ok_def quiet_env_def)

lemma quiet_env_no_interrupt: "no_interrupt quiet_env"
  by (simp add: no_interrupt_def quiet_env_def raises_Exception_def)

lemma example_event_key: "event_key example_event = Some (JStr ''1001'')"
  by (simp add: event_key_def example_event_def py_getitem_def sql_text_def sql_text_at_def
        sql_bind_def text_affinity_def)

lemma flaky_feed_env_first: "http_get flaky_feed_env 0 u = Raises (Exn RequestException ''connection refused'')"
  by (simp add: flaky_feed_env_def quiet_env_def)

lemma undated_event_assembly:
  "fst (assemble_message quiet_env undated_event initial_state)
     = Inl (Exn KeyError (repr_key ''created_at''))"
  by code_simp

lemma helpful_first_call:
  "fst (get_repo_details helpful_env (JStr ''alice/widgets'') initial_state)
     = Inr (JStr ''Widgets for all'', JStr ''Python'', JInt 42)
   \<and> cached_details ''alice/widgets''
        (db (snd (get_repo_details helpful_env (JStr ''alice/widgets'') initial_state)))
     = Some (JStr ''Widgets for all'', JStr ''Python'', JInt 42)
   \<and> gets (trace (snd (get_repo_details helpful_env (JStr ''alice/widgets'') initial_state)))
     = [''https://api.github.com/repos/alice/widgets'']"
  by code_simp

subsection \<open>The handlers of the loop\<close>

lemma sleep_run:
  "0 \<le> ms \<Longrightarrow> sleep w ms s =
     (if sleep_interrupted w (tick s) then Inl (Exn KeyboardInterrupt []) else Inr (),
      s\<lparr>tick := Suc (tick s), trace := trace s @ [Slept ms]\<rparr>)"
  by (simp add: sleep_def and_then_def next_tick_def emit_def)

lemma backoff_run:
  "backoff w prefix e s =
     (if sleep_interrupted w (tick s) then Inl (Exn KeyboardInterrupt []) else Inr (),
      s\<lparr>tick := Suc (tick s), trace := trace s @ [Logged ERROR (prefix @ exn_str e), Slept BACKOFF_MS]\<rparr>)"
  by (simp add: backoff_def and_then_def log_def emit_def sleep_run BACKOFF_MS_def)

lemma not_Exception_not_RequestException: "\<not> is_Exception e \<Longrightarrow> \<not> is_RequestException e"
  by (auto simp: is_Exception_def is_RequestException_def)

lemma poll_cycle_backoff:
  assumes "cycle_body w cfg s = (Inl e, s1)" "is_Exception e" "\<not> sleep_interrupted w (tick s1)"
  shows "poll_cycle w cfg s = (Inr (), backed_off e s1)"
  using assms by (simp add: poll_cycle_def backoff_run backed_off_def)

lemma poll_cycle_raises: "poll_cycle w cfg s = (Inl e, s') \<Longrightarrow> exn_cls e = KeyboardInterrupt"
  by (auto simp: poll_cycle_def backoff_run is_Exception_def
      split: prod.splits sum.splits if_splits)

lemma run_cycles_raises: "run_cycles w cfg n s = (Some e, s') \<Longrightarrow> exn_cls e = KeyboardInterrupt"
proof (induction n arbitrary: s)
  case 0
  then show ?case by simp
next
  case (Suc n)
  then show ?case
    by (auto split: prod.splits sum.splits dest: poll_cycle_raises)
qed

lemma process_event_Exception:
  "no_interrupt w \<Longrightarrow> raises_only is_Exception (process_event w cfg ev)"
  unfolding process_event_def
  by (intro raises_only_intros raises_only_lift is_pushed_Exception format_message_Exception
        send_all_Exception mark_pushed_Exception sleep_Exception)
     (auto dest: pure_Exception)

lemma process_events_Exception:
  "no_interrupt w \<Longrightarrow> raises_only is_Exception (process_events w cfg evs n)"
  by (induction evs arbitrary: n) (auto intro!: raises_only_intros process_event_Exception)

lemma cycle_body_Exception: "no_interrupt w \<Longrightarrow> raises_only is_Exception (cycle_body w cfg)"
  unfolding cycle_body_def
  by (intro raises_only_intros raises_only_lift requests_get_Exception
        process_events_Exception sleep_Exception)
     (auto dest: pure_Exception)

lemma poll_cycle_returns:
  assumes "no_interrupt w"
  shows "\<exists>s'. poll_cycle w cfg s = (Inr (), s')"
proof -
  obtain r s1 where b: "cycle_body w cfg s = (r, s1)" by (cases "cycle_body w cfg s")
  from assms have ns: "\<not> sleep_interrupted w (tick s1)" by (simp add: no_interrupt_def)
  show ?thesis
  proof (cases r)
    case (Inl e)
    with b have "is_Exception e" using raises_onlyD [OF cycle_body_Exception [OF assms]] by blast
    with b Inl ns show ?thesis by (auto simp: poll_cycle_backoff)
  next
    case (Inr v)
    with b show ?thesis by (simp add: poll_cycle_def)
  qed
qed

lemma run_cycles_never_ends: "no_interrupt w \<Longrightarrow> fst (run_cycles w cfg n s) = None"
proof (induction n arbitrary: s)
  case 0
  then show ?case by simp
next
  case (Suc n)
  from poll_cycle_returns [OF Suc.prems] obtain s' where "poll_cycle w cfg s = (Inr (), s')"
    by blast
  with Suc show ?case by simp
qed

lemma requests_get_run:
  "requests_get w url s =
     (case http_get w (tick s) url of Raises e \<Rightarrow> Inl e | Responds r \<Rightarrow> Inr r,
      s\<lparr>tick := Suc (tick s), trace := trace s @ [NetGet url]\<rparr>)"
  by (simp add: requests_get_def and_then_def next_tick_def emit_def split: http_outcome.splits)

lemma cycle_body_fetch_fails:
  "http_get w (tick s) (feed_url cfg) = Raises e
   \<Longrightarrow> cycle_body w cfg s = (Inl e, s\<lparr>tick := Suc (tick s), trace := trace s @ [NetGet (feed_url cfg)]\<rparr>)"
  by (simp add: cycle_body_def and_then_def requests_get_run)

lemma is_pushed_fault:
  "storage_fault w SelectPushed (tick s) = Some e
   \<Longrightarrow> is_pushed w i s = (Inl e, s\<lparr>tick := Suc (tick s)\<rparr>)"
  by (simp add: is_pushed_run)

lemma process_event_check_fails:
  "py_getitem ev ''id'' = Inr i \<Longrightarrow> storage_fault w SelectPushed (tick s) = Some e
   \<Longrightarrow> process_event w cfg ev s = (Inl e, s\<lparr>tick := Suc (tick s)\<rparr>)"
  by (simp add: process_event_def and_then_def is_pushed_fault)

lemma cycle_body_check_fails:
  assumes "http_get w (tick s) (feed_url cfg) = Responds r"
    "resp_json r = Some (JList (ev # rest))"
    "py_getitem ev ''id'' = Inr i"
    "storage_fault w SelectPushed (Suc (tick s)) = Some e"
  shows "cycle_body w cfg s
         = (Inl e, s\<lparr>tick := Suc (Suc (tick s)), trace := trace s @ [NetGet (feed_url cfg)]\<rparr>)"
  using assms
  by (simp add: cycle_body_def and_then_def requests_get_run response_json_def py_iter_def
        process_event_check_fails)

subsection \<open>The fallback document\<close>

lemma contains_prefix: "contains sub (sub @ ys)"
proof (cases "sub @ ys")
  case Nil
  then show ?thesis by simp
next
  case (Cons c cs)
  have "take (length sub) (sub @ ys) = sub" by simp
  with Cons show ?thesis by simp
qed

lemma contains_append: "contains sub (xs @ sub @ ys)"
  by (induction xs) (auto simp: contains_prefix)

lemma fallback_message_eq:
  "fallback_message e =
     FB_TITLE @ [CHR 0x0A] @ FB_WARN @ [CHR 0x0A] @ [CHR 0x60, CHR 0x60, CHR 0x60, CHR 0x0A]
       @ exn_str e @ [CHR 0x0A, CHR 0x60, CHR 0x60, CHR 0x60]"
  by (simp add: fallback_message_def)

lemma fallback_contains_warning: "contains FB_WARN (fallback_message e)"
  unfolding fallback_message_eq
  using contains_append [of FB_WARN "FB_TITLE @ [CHR 0x0A]"] by simp

lemma fallback_contains_error: "contains (exn_str e) (fallback_message e)"
  unfolding fallback_message_eq
  using contains_append [of "exn_str e"
          "FB_TITLE @ [CHR 0x0A] @ FB_WARN @ [CHR 0x0A] @ [CHR 0x60, CHR 0x60, CHR 0x60, CHR 0x0A]"]
  by simp

lemma format_message_fallback:
  assumes "assemble_message w ev s = (Inl e, s1)" "is_Exception e"
  shows "format_message w ev s
         = (Inr (fallback_message e),
            s1\<lparr>trace := trace s1 @ [Logged ERROR (ERR_FORMAT @ exn_str e)]\<rparr>)"
  using assms by (simp add: format_message_def try_except_def and_then_def log_def emit_def)

lemma format_message_assembled:
  assumes "assemble_message w ev s = (Inr m, s1)"
  shows "format_message w ev s = (Inr m, s1)"
  using assms by (simp add: format_message_def try_except_def)

lemma assemble_message_needs_created_at:
  assumes "py_getitem ev ''created_at'' = Inl e0"
  shows "assemble_message w ev s \<noteq> (Inr m, s')"
proof
  assume "assemble_message w ev s = (Inr m, s')"
  then show False
    unfolding assemble_message_def
    by (elim and_then_cases) (auto simp: assms)
qed

lemma format_message_without_created_at:
  assumes "no_interrupt w" "py_getitem ev ''created_at'' = Inl e0"
  shows "\<exists>e s'. format_message w ev s = (Inr (fallback_message e), s')"
proof -
  obtain r s1 where a: "assemble_message w ev s = (r, s1)" by (cases "assemble_message w ev s")
  show ?thesis
  proof (cases r)
    case (Inl e)
    with a have "is_Exception e"
      using raises_onlyD [OF assemble_message_Exception [OF assms(1)]] by blast
    with a Inl show ?thesis by (auto simp: format_message_fallback)
  next
    case (Inr m)
    with a assemble_message_needs_created_at [OF assms(2)] show ?thesis by blast
  qed
qed

subsection \<open>Runs of the repository lookup\<close>

lemma get_repo_info_run:
  "get_repo_info w n s =
     (case storage_fault w SelectRepo (tick s) of
        Some e \<Rightarrow> Inl e
      | None \<Rightarrow> (case sql_text n of
                   Inl e \<Rightarrow> Inl e
                 | Inr k \<Rightarrow> Inr (case select_row k (repo_cache (db s)) of
                                   None \<Rightarrow> None
                                 | Some (d, l, st, u) \<Rightarrow> Some (d, l, st))),
      s\<lparr>tick := Suc (tick s)\<rparr>)"
  by (simp add: get_repo_info_def and_then_def statement_def next_tick_def get_db_def lift_def
      split: option.splits sum.splits)

lemma get_repo_details_hit:
  assumes "storage_fault w SelectRepo (tick s) = None"
    "cached_details name (db s) = Some v"
  shows "get_repo_details w (JStr name) s = (Inr v, s\<lparr>tick := Suc (tick s)\<rparr>)"
  using assms
  by (auto simp: get_repo_details_def and_then_def get_repo_info_run sql_text_JStr
        cached_details_def split: option.splits)

lemma get_repo_details_miss:
  assumes "storage_fault w SelectRepo (tick s) = None"
    "sql_text n = Inr k" "select_row k (repo_cache (db s)) = None"
  shows "get_repo_details w n s =
           (case guarded_fetch w n (s\<lparr>tick := Suc (tick s)\<rparr>) of
              (Inl e, s') \<Rightarrow> (Inl e, s')
            | (Inr r, s') \<Rightarrow> (Inr (case r of Some x \<Rightarrow> x | None \<Rightarrow> default_details), s'))"
  using assms
  by (auto simp: get_repo_details_def and_then_def get_repo_info_run guarded_fetch_def
      split: option.splits prod.splits sum.splits)










text \<open>
  The database changes only through the \<^verbatim>\<open>INSERT OR REPLACE\<close> after a 200; the values of
  the answer are returned when the commit succeeds too, and the exception of the commit
  is raised otherwise, with the row written.
\<close>

lemma cache_repo_info_eq:
  "cache_repo_info w n info s =
     (case py_get info ''description'' JNull of Inl e \<Rightarrow> (Inl e, s) | Inr d \<Rightarrow>
      case py_get info ''language'' JNull of Inl e \<Rightarrow> (Inl e, s) | Inr l \<Rightarrow>
      case py_get info ''stargazers_count'' (JInt 0) of Inl e \<Rightarrow> (Inl e, s) | Inr st \<Rightarrow>
      case storage_fault w ReplaceRepo (tick s) of
        Some e \<Rightarrow> (Inl e, s\<lparr>tick := Suc (tick s)\<rparr>) | None \<Rightarrow>
      case sql_text n of Inl e \<Rightarrow> (Inl e, s\<lparr>tick := Suc (tick s)\<rparr>) | Inr k \<Rightarrow>
      case sql_text_at 2 d of Inl e \<Rightarrow> (Inl e, s\<lparr>tick := Suc (tick s)\<rparr>) | Inr c1 \<Rightarrow>
      case sql_text_at 3 l of Inl e \<Rightarrow> (Inl e, s\<lparr>tick := Suc (tick s)\<rparr>) | Inr c2 \<Rightarrow>
      case sql_integer w 4 st of Inl e \<Rightarrow> (Inl e, s\<lparr>tick := Suc (tick s)\<rparr>) | Inr c3 \<Rightarrow>
        (case storage_fault w CommitRepo (Suc (tick s)) of None \<Rightarrow> Inr () | Some e \<Rightarrow> Inl e,
         s\<lparr>tick := Suc (Suc (tick s)),
           db := (db s)\<lparr>repo_cache :=
                   insert_or_replace k (c1, c2, c3, now_iso w (tick s)) (repo_cache (db s))\<rparr>\<rparr>))"
  by (simp add: cache_repo_info_def and_then_def statement_def commit_def next_tick_def
        modify_db_def lift_def split: sum.splits option.splits)

lemma cache_repo_info_run:
  assumes "cache_repo_info w n info s = (res, s1)"
  shows "(db s1 = db s \<and> (\<exists>e. res = Inl e))
       \<or> (\<exists>k d l st c1 c2 c3.
             py_get info ''description'' JNull = Inr d
           \<and> py_get info ''language'' JNull = Inr l
           \<and> py_get info ''stargazers_count'' (JInt 0) = Inr st
           \<and> sql_text n = Inr k \<and> sql_text_at 2 d = Inr c1 \<and> sql_text_at 3 l = Inr c2
           \<and> sql_integer w 4 st = Inr c3
           \<and> db s1 = (db s)\<lparr>repo_cache :=
                 insert_or_replace k (c1, c2, c3, now_iso w (tick s)) (repo_cache (db s))\<rparr>
           \<and> res = (case storage_fault w CommitRepo (Suc (tick s)) of
                      None \<Rightarrow> Inr () | Some e \<Rightarrow> Inl e))"
  using assms unfolding cache_repo_info_eq
  by (simp split: sum.splits option.splits) auto

lemma fetch_repo_details_db:
  assumes "fetch_repo_details w n s = (res, s1)"
  shows "db s1 = db s
       \<or> (\<exists>k d l st c1 c2 c3 t.
             res = (case storage_fault w CommitRepo (Suc (Suc (tick s))) of
                      None \<Rightarrow> Inr (Some (d, l, st)) | Some e \<Rightarrow> Inl e)
           \<and> sql_text n = Inr k \<and> sql_text_at 2 d = Inr c1 \<and> sql_text_at 3 l = Inr c2
           \<and> sql_integer w 4 st = Inr c3
           \<and> db s1 = (db s)\<lparr>repo_cache := insert_or_replace k (c1, c2, c3, t) (repo_cache (db s))\<rparr>
           \<and> answered_200 (http_get w (tick s) (repo_url_api w n)))"
proof (cases "http_get w (tick s) (repo_url_api w n)")
  case (Raises e)
  with assms show ?thesis
    by (auto simp: fetch_repo_details_def and_then_def requests_get_run)
next
  case (Responds r)
  let ?s0 = "s\<lparr>tick := Suc (tick s), trace := trace s @ [NetGet (repo_url_api w n)]\<rparr>"
  show ?thesis
  proof (cases "status_code r = 200")
    case False
    with Responds assms show ?thesis
      by (auto simp: fetch_repo_details_def and_then_def requests_get_run)
  next
    case True
    show ?thesis
    proof (cases "response_json r")
      case (Inl e)
      with True Responds assms show ?thesis
        by (auto simp: fetch_repo_details_def and_then_def requests_get_run)
    next
      case (Inr data)
      obtain rc sc where c: "cache_repo_info w n data ?s0 = (rc, sc)"
        by (cases "cache_repo_info w n data ?s0")
      from cache_repo_info_run [OF c] show ?thesis
      proof
        assume "db sc = db ?s0 \<and> (\<exists>e. rc = Inl e)"
        with c Inr True Responds assms show ?thesis
          by (auto simp: fetch_repo_details_def and_then_def requests_get_run)
      next
        assume "\<exists>k d l st c1 c2 c3.
             py_get data ''description'' JNull = Inr d
           \<and> py_get data ''language'' JNull = Inr l
           \<and> py_get data ''stargazers_count'' (JInt 0) = Inr st
           \<and> sql_text n = Inr k \<and> sql_text_at 2 d = Inr c1 \<and> sql_text_at 3 l = Inr c2
           \<and> sql_integer w 4 st = Inr c3
           \<and> db sc = (db ?s0)\<lparr>repo_cache :=
                 insert_or_replace k (c1, c2, c3, now_iso w (tick ?s0)) (repo_cache (db ?s0))\<rparr>
           \<and> rc = (case storage_fault w CommitRepo (Suc (tick ?s0)) of
                      None \<Rightarrow> Inr () | Some e \<Rightarrow> Inl e)"
        then obtain k d l st c1 c2 c3 where x:
          "py_get data ''description'' JNull = Inr d"
          "py_get data ''language'' JNull = Inr l"
          "py_get data ''stargazers_count'' (JInt 0) = Inr st"
          "sql_text n = Inr k" "sql_text_at 2 d = Inr c1" "sql_text_at 3 l = Inr c2"
          "sql_integer w 4 st = Inr c3"
          "db sc = (db s)\<lparr>repo_cache :=
                 insert_or_replace k (c1, c2, c3, now_iso w (Suc (tick s))) (repo_cache (db s))\<rparr>"
          "rc = (case storage_fault w CommitRepo (Suc (Suc (tick s))) of
                      None \<Rightarrow> Inr () | Some e \<Rightarrow> Inl e)"
          by auto
        have r: "res = (case storage_fault w CommitRepo (Suc (Suc (tick s))) of
                      None \<Rightarrow> Inr (Some (d, l, st)) | Some e \<Rightarrow> Inl e)"
          and s1: "s1 = sc"
          using c Inr True Responds assms x(1,2,3,9)
          by (auto simp: fetch_repo_details_def and_then_def requests_get_run
              split: option.splits)
        have a: "answered_200 (http_get w (tick s) (repo_url_api w n))"
          using Responds True by (simp add: answered_200_def)
        show ?thesis
        proof (intro disjI2 exI conjI)
          show "res = (case storage_fault w CommitRepo (Suc (Suc (tick s))) of
                      None \<Rightarrow> Inr (Some (d, l, st)) | Some e \<Rightarrow> Inl e)" by (fact r)
          show "sql_text n = Inr k" by (fact x(4))
          show "sql_text_at 2 d = Inr c1" by (fact x(5))
          show "sql_text_at 3 l = Inr c2" by (fact x(6))
          show "sql_integer w 4 st = Inr c3" by (fact x(7))
          show "db s1 = (db s)\<lparr>repo_cache :=
                 insert_or_replace k (c1, c2, c3, now_iso w (Suc (tick s))) (repo_cache (db s))\<rparr>"
            using x(8) s1 by simp
          show "answered_200 (http_get w (tick s) (repo_url_api w n))" by (fact a)
        qed
      qed
    qed
  qed
qed

lemma guarded_fetch_db:
  assumes "guarded_fetch w n s = (res, s1)"
  shows "db s1 = db s
       \<or> (\<exists>k d l st c1 c2 c3 t.
             res = (case storage_fault w CommitRepo (Suc (Suc (tick s))) of
                      None \<Rightarrow> Inr (Some (d, l, st))
                    | Some e \<Rightarrow> if is_Exception e then Inr None else Inl e)
           \<and> sql_text n = Inr k \<and> sql_text_at 2 d = Inr c1 \<and> sql_text_at 3 l = Inr c2
           \<and> sql_integer w 4 st = Inr c3
           \<and> db s1 = (db s)\<lparr>repo_cache := insert_or_replace k (c1, c2, c3, t) (repo_cache (db s))\<rparr>
           \<and> answered_200 (http_get w (tick s) (repo_url_api w n)))"
proof -
  obtain r0 s0 where f: "fetch_repo_details w n s = (r0, s0)"
    by (cases "fetch_repo_details w n s")
  have res: "res = (case r0 of Inl e \<Rightarrow> if is_Exception e then Inr None else Inl e
                     | Inr v \<Rightarrow> Inr v)" and db: "db s1 = db s0"
    using assms f
    by (auto simp: guarded_fetch_def try_except_def and_then_def log_def emit_def
        split: sum.splits if_splits)
  from fetch_repo_details_db [OF f] show ?thesis
  proof
    assume "db s0 = db s" with db show ?thesis by simp
  next
    assume "\<exists>k d l st c1 c2 c3 t.
             r0 = (case storage_fault w CommitRepo (Suc (Suc (tick s))) of
                      None \<Rightarrow> Inr (Some (d, l, st)) | Some e \<Rightarrow> Inl e)
           \<and> sql_text n = Inr k \<and> sql_text_at 2 d = Inr c1 \<and> sql_text_at 3 l = Inr c2
           \<and> sql_integer w 4 st = Inr c3
           \<and> db s0 = (db s)\<lparr>repo_cache := insert_or_replace k (c1, c2, c3, t) (repo_cache (db s))\<rparr>
           \<and> answered_200 (http_get w (tick s) (repo_url_api w n))"
    then obtain k d l st c1 c2 c3 t where x:
      "r0 = (case storage_fault w CommitRepo (Suc (Suc (tick s))) of
                      None \<Rightarrow> Inr (Some (d, l, st)) | Some e \<Rightarrow> Inl e)"
      "sql_text n = Inr k" "sql_text_at 2 d = Inr c1" "sql_text_at 3 l = Inr c2"
      "sql_integer w 4 st = Inr c3"
      "db s0 = (db s)\<lparr>repo_cache := insert_or_replace k (c1, c2, c3, t) (repo_cache (db s))\<rparr>"
      "answered_200 (http_get w (tick s) (repo_url_api w n))"
      by blast
    have r: "res = (case storage_fault w CommitRepo (Suc (Suc (tick s))) of
                      None \<Rightarrow> Inr (Some (d, l, st))
                    | Some e \<Rightarrow> if is_Exception e then Inr None else Inl e)"
      using res x(1) by (simp split: option.splits)
    show ?thesis
    proof (intro disjI2 exI conjI)
      show "res = (case storage_fault w CommitRepo (Suc (Suc (tick s))) of
                      None \<Rightarrow> Inr (Some (d, l, st))
                    | Some e \<Rightarrow> if is_Exception e then Inr None else Inl e)" by (fact r)
      show "sql_text n = Inr k" by (fact x(2))
      show "sql_text_at 2 d = Inr c1" by (fact x(3))
      show "sql_text_at 3 l = Inr c2" by (fact x(4))
      show "sql_integer w 4 st = Inr c3" by (fact x(5))
      show "db s1 = (db s)\<lparr>repo_cache := insert_or_replace k (c1, c2, c3, t) (repo_cache (db s))\<rparr>"
        using x(6) db by simp
      show "answered_200 (http_get w (tick s) (repo_url_api w n))" by (fact x(7))
    qed
  qed
qed

lemma select_row_insert_or_replace:
  "k \<noteq> JNull \<Longrightarrow> select_row k (insert_or_replace k v rows) = Some v"
  by (induction rows) (auto simp: select_row_def insert_or_replace_def)

lemma is_text_sql_text_at: "is_text v \<Longrightarrow> sql_text_at pos v = Inr v"
  by (cases v) (auto simp: is_text_def sql_text_at_def sql_bind_def text_affinity_def)

lemma is_text_sql_text: "is_text v \<Longrightarrow> sql_text v = Inr v"
  by (simp add: sql_text_def is_text_sql_text_at)

lemma is_count_sql_integer: "is_count v \<Longrightarrow> sql_integer w pos v = Inr v"
  by (cases v) (auto simp: is_count_def sql_integer_def sql_bind_def int_affinity_def)

text \<open>What a call that returns leaves in the cache.\<close>

lemma get_repo_details_returns:
  assumes "get_repo_details w (JStr name) s = (Inr v, s1)"
    and "storage_fault w CommitRepo (Suc (Suc (Suc (tick s)))) = None"
  shows "(cached_details name (db s) = Some v \<and> s1 = s\<lparr>tick := Suc (tick s)\<rparr>)
       \<or> (cached_details name (db s) = None \<and> db s1 = db s)
       \<or> (cached_details name (db s) = None
           \<and> answered_200 (http_get w (Suc (tick s)) (repo_url_api w (JStr name)))
           \<and> (\<exists>c1 c2 c3. sql_text_at 2 (fst v) = Inr c1 \<and> sql_text_at 3 (fst (snd v)) = Inr c2
                 \<and> sql_integer w 4 (snd (snd v)) = Inr c3
                 \<and> cached_details name (db s1) = Some (c1, c2, c3)))"
proof (cases "storage_fault w SelectRepo (tick s)")
  case (Some e)
  with assms show ?thesis
    by (simp add: get_repo_details_def and_then_def get_repo_info_run)
next
  case None
  show ?thesis
  proof (cases "cached_details name (db s)")
    case (Some v0)
    from get_repo_details_hit [OF None Some] assms Some show ?thesis by simp
  next
    case miss: None
    then have sel: "select_row (JStr name) (repo_cache (db s)) = None"
      by (auto simp: cached_details_def split: option.splits)
    obtain res s' where g: "guarded_fetch w (JStr name) (s\<lparr>tick := Suc (tick s)\<rparr>) = (res, s')"
      by (cases "guarded_fetch w (JStr name) (s\<lparr>tick := Suc (tick s)\<rparr>)")
    with get_repo_details_miss [OF None sql_text_JStr sel] assms
    obtain r where r: "res = Inr r" "s1 = s'" "v = (case r of Some x \<Rightarrow> x | None \<Rightarrow> default_details)"
      by (cases res) auto
    from guarded_fetch_db [OF g] show ?thesis
    proof
      assume "db s' = db (s\<lparr>tick := Suc (tick s)\<rparr>)"
      with miss r show ?thesis by simp
    next
      assume "\<exists>k d l st c1 c2 c3 t.
             res = (case storage_fault w CommitRepo (Suc (Suc (tick (s\<lparr>tick := Suc (tick s)\<rparr>)))) of
                      None \<Rightarrow> Inr (Some (d, l, st))
                    | Some e \<Rightarrow> if is_Exception e then Inr None else Inl e)
           \<and> sql_text (JStr name) = Inr k \<and> sql_text_at 2 d = Inr c1 \<and> sql_text_at 3 l = Inr c2
           \<and> sql_integer w 4 st = Inr c3
           \<and> db s' = (db (s\<lparr>tick := Suc (tick s)\<rparr>))\<lparr>repo_cache :=
                 insert_or_replace k (c1, c2, c3, t) (repo_cache (db (s\<lparr>tick := Suc (tick s)\<rparr>)))\<rparr>
           \<and> answered_200 (http_get w (tick (s\<lparr>tick := Suc (tick s)\<rparr>)) (repo_url_api w (JStr name)))"
      then obtain d l st c1 c2 c3 t where
        x: "res = Inr (Some (d, l, st))" "sql_text_at 2 d = Inr c1" "sql_text_at 3 l = Inr c2"
           "sql_integer w 4 st = Inr c3"
           "db s' = (db s)\<lparr>repo_cache :=
                 insert_or_replace (JStr name) (c1, c2, c3, t) (repo_cache (db s))\<rparr>"
           "answered_200 (http_get w (Suc (tick s)) (repo_url_api w (JStr name)))"
        using assms(2) by (auto simp: sql_text_JStr)
      from x(5) have "cached_details name (db s') = Some (c1, c2, c3)"
        by (simp add: cached_details_def select_row_insert_or_replace)
      with x r miss show ?thesis by auto
    qed
  qed
qed

subsection \<open>Runs of the avatar lookup\<close>







lemma fetch_repo_details_gets:
  assumes "fetch_repo_details w n s = (res, s1)"
  shows "gets (trace s1) = gets (trace s) @ [repo_url_api w n]"
  using assms
  unfolding fetch_repo_details_def cache_repo_info_def
  by (auto simp: and_then_def requests_get_run statement_def commit_def next_tick_def
        modify_db_def lift_def observe_append
      split: http_outcome.splits if_splits sum.splits option.splits prod.splits)

lemma guarded_fetch_gets:
  assumes "guarded_fetch w n s = (res, s1)"
  shows "gets (trace s1) = gets (trace s) @ [repo_url_api w n]"
  using assms unfolding guarded_fetch_def
proof (cases rule: try_except_cases)
  case (caught e s')
  from caught(3) have "gets (trace s1) = gets (trace s')"
    by (auto simp: and_then_def log_def emit_def observe_append)
  with fetch_repo_details_gets [OF caught(1)] show ?thesis by simp
qed (auto dest: fetch_repo_details_gets)

text \<open>A miss always sends the request.\<close>

lemma get_repo_details_miss_gets:
  assumes "storage_fault w SelectRepo (tick s) = None"
    "sql_text n = Inr k" "select_row k (repo_cache (db s)) = None"
  shows "gets (trace (snd (get_repo_details w n s))) = gets (trace s) @ [repo_url_api w n]"
proof -
  obtain res s' where g: "guarded_fetch w n (s\<lparr>tick := Suc (tick s)\<rparr>) = (res, s')"
    by (cases "guarded_fetch w n (s\<lparr>tick := Suc (tick s)\<rparr>)")
  from guarded_fetch_gets [OF g] get_repo_details_miss [OF assms] g show ?thesis
    by (cases res) auto
qed








lemma mark_pushed_trace:
  "storage_fault w InsertPushed (tick s) = None
   \<Longrightarrow> storage_fault w CommitPushed (Suc (tick s)) = None \<Longrightarrow> sql_text i = Inr k
   \<Longrightarrow> trace (snd (mark_pushed w i s)) = trace s"
  by (simp add: mark_pushed_ok marked_def)

lemma process_event_new_summary:
  assumes "storage_ok w" "no_interrupt w"
    "event_key ev = Some k" "\<not> has_key k (pushed_events (db s))"
  shows "\<exists>i msg t s'. process_event w cfg ev s = (Inr True, s')
           \<and> py_getitem ev ''id'' = Inr i
           \<and> sent_ids (trace s') = sent_ids (trace s) @ [i]
           \<and> pushed_events (db s') = pushed_events (db s) @ [(k, t)]
           \<and> SendAll i msg \<in> set (trace s')"
proof -
  from process_event_new [OF assms, of cfg] obtain i msg s1 s2 s3 s' where
    x: "py_getitem ev ''id'' = Inr i"
       "format_message w ev (s\<lparr>tick := Suc (tick s)\<rparr>) = (Inr msg, s1)"
       "send_all w cfg msg (s1\<lparr>trace := trace s1 @ [SendAll i msg]\<rparr>) = (Inr (), s2)"
       "mark_pushed w i s2 = (Inr (), s3)"
       "pushed_events (db s3) = pushed_events (db s) @ [(k, now_iso w (tick s2))]"
       "s' = s3\<lparr>tick := Suc (tick s3), trace := trace s3 @ [Slept EVENT_DELAY_MS]\<rparr>"
       "process_event w cfg ev s = (Inr True, s')"
    by blast
  from assms(3) x(1) have k: "sql_text i = Inr k" by (auto simp: event_key_Some)
  from assms(1) have nf: "storage_fault w InsertPushed (tick s2) = None"
    "storage_fault w CommitPushed (Suc (tick s2)) = None"
    by (simp_all add: storage_ok_def)
  from mark_pushed_trace [OF nf k] x(4) have t3: "trace s3 = trace s2" by simp
  from keepsD [OF format_message_same_marks x(2)]
  have m1: "sent_ids (trace s1) = sent_ids (trace s)" by (simp add: same_marks_def)
  from keepsD [OF send_all_same_marks x(3)]
  have m2: "sent_ids (trace s2) = sent_ids (trace s1) @ [i]"
    by (simp add: same_marks_def observe_append)
  obtain ext where ext: "trace s2 = (trace s1 @ [SendAll i msg]) @ ext"
  proof -
    have "keeps (\<lambda>a b. \<exists>ext. trace b = trace a @ ext) (send_all w cfg msg)"
      unfolding send_all_def send_dingtalk_def send_feishu_def dingtalk_url_def feishu_url_def
        requests_post_def log_def
      by (intro keeps_intros keeps_for_each keeps_next_tick keeps_emit)
         (auto simp: reflp_def transp_def)
    from keepsD [OF this x(3)] that show ?thesis by auto
  qed
  have "SendAll i msg \<in> set (trace s')"
    by (simp add: x(6) t3 ext)
  moreover have "sent_ids (trace s') = sent_ids (trace s) @ [i]"
    by (simp add: x(6) t3 m2 m1 observe_append)
  ultimately show ?thesis using x(1,5,7) by (auto simp: x(6))
qed

subsection \<open>Runs of the dispatchers\<close>

lemma requests_post_run:
  "requests_post w url p s =
     (case http_post w (tick s) url p of Raises e \<Rightarrow> Inl e | Responds r \<Rightarrow> Inr r,
      s\<lparr>tick := Suc (tick s), trace := trace s @ [NetPost url p]\<rparr>)"
  by (simp add: requests_post_def and_then_def next_tick_def emit_def split: http_outcome.splits)

lemma dingtalk_url_run:
  "dingtalk_url w bc s = (Inr (dingtalk_post_url w bc (tick s)), s\<lparr>tick := tick s + sign_ticks bc\<rparr>)"
  by (simp add: dingtalk_url_def dingtalk_post_url_def sign_ticks_def and_then_def next_tick_def
      split: option.splits)

lemma send_dingtalk_run:
  "send_dingtalk w m bc s =
     (dispatch_result (http_post w (tick s + sign_ticks bc) (dingtalk_post_url w bc (tick s))
                         (dingtalk_payload m)),
      s\<lparr>tick := Suc (tick s + sign_ticks bc),
        trace := trace s @ NetPost (dingtalk_post_url w bc (tick s)) (dingtalk_payload m)
                   # dingtalk_log bc (http_post w (tick s + sign_ticks bc)
                        (dingtalk_post_url w bc (tick s)) (dingtalk_payload m))\<rparr>)"
  by (simp add: send_dingtalk_def try_except_def and_then_def dingtalk_url_run requests_post_run
        dispatch_result_def dingtalk_log_def log_def emit_def
      split: http_outcome.splits)

lemma feishu_url_run:
  "feishu_url w bc s = (feishu_post_url w bc (tick s), s\<lparr>tick := tick s + sign_ticks bc\<rparr>)"
  by (simp add: feishu_url_def feishu_post_url_def sign_ticks_def and_then_def next_tick_def
        lift_def split: option.splits sum.splits)

lemma send_feishu_run:
  "feishu_post_url w bc (tick s) = Inr url \<Longrightarrow>
   send_feishu w m bc s =
     (dispatch_result (http_post w (tick s + sign_ticks bc) url (feishu_payload m)),
      s\<lparr>tick := Suc (tick s + sign_ticks bc),
        trace := trace s @ NetPost url (feishu_payload m)
                   # feishu_log w bc (http_post w (tick s + sign_ticks bc) url (feishu_payload m))\<rparr>)"
  by (simp add: send_feishu_def try_except_def and_then_def feishu_url_run requests_post_run
        dispatch_result_def feishu_log_def log_def emit_def
      split: http_outcome.splits)

lemma send_feishu_unparsed:
  "feishu_post_url w bc (tick s) = Inl e \<Longrightarrow>
   send_feishu w m bc s =
     (if is_Exception e then Inr () else Inl e,
      s\<lparr>tick := tick s + sign_ticks bc,
        trace := trace s @ (if is_Exception e
                            then [Logged ERROR (FS_EXC @ display_name bc @ '': '' @ exn_str e)]
                            else [])\<rparr>)"
  by (simp add: send_feishu_def try_except_def and_then_def feishu_url_run log_def emit_def)

lemma dispatch_result_no_interrupt:
  "no_interrupt w \<Longrightarrow> dispatch_result (http_post w t url p) = Inr ()"
proof -
  assume "no_interrupt w"
  then have "raises_Exception (http_post w t url p)" by (simp add: no_interrupt_def)
  then show ?thesis
    by (cases "http_post w t url p") (simp_all add: dispatch_result_def raises_Exception_def)
qed

lemma posts_dingtalk_log [simp]: "posts (dingtalk_log bc r) = []"
  by (simp add: dingtalk_log_def split: http_outcome.splits)

lemma posts_feishu_log [simp]: "posts (feishu_log w bc r) = []"
  by (simp add: feishu_log_def split: http_outcome.splits)

lemma for_each_dingtalk_plan:
  assumes "no_interrupt w"
  shows "\<exists>s'. for_each (send_dingtalk w m) bcs s = (Inr (), s')
           \<and> posts (trace s') = posts (trace s) @ fst (dingtalk_plan w m (tick s) bcs)
           \<and> tick s' = snd (dingtalk_plan w m (tick s) bcs) \<and> db s' = db s"
proof (induction bcs arbitrary: s)
  case Nil
  then show ?case by simp
next
  case (Cons bc bcs)
  let ?s1 = "s\<lparr>tick := Suc (tick s + sign_ticks bc),
        trace := trace s @ NetPost (dingtalk_post_url w bc (tick s)) (dingtalk_payload m)
                   # dingtalk_log bc (http_post w (tick s + sign_ticks bc)
                        (dingtalk_post_url w bc (tick s)) (dingtalk_payload m))\<rparr>"
  have one: "send_dingtalk w m bc s = (Inr (), ?s1)"
    by (simp add: send_dingtalk_run dispatch_result_no_interrupt [OF assms])
  from Cons.IH [of ?s1] obtain s' where
    "for_each (send_dingtalk w m) bcs ?s1 = (Inr (), s')"
    "posts (trace s') = posts (trace ?s1) @ fst (dingtalk_plan w m (tick ?s1) bcs)"
    "tick s' = snd (dingtalk_plan w m (tick ?s1) bcs)" "db s' = db ?s1"
    by blast
  with one show ?case
    by (auto simp: and_then_def observe_append split: prod.splits)
qed

lemma for_each_feishu_plan:
  assumes "no_interrupt w"
  shows "\<exists>s'. for_each (send_feishu w m) bcs s = (Inr (), s')
           \<and> posts (trace s') = posts (trace s) @ fst (feishu_plan w m (tick s) bcs)
           \<and> tick s' = snd (feishu_plan w m (tick s) bcs) \<and> db s' = db s"
proof (induction bcs arbitrary: s)
  case Nil
  then show ?case by simp
next
  case (Cons bc bcs)
  show ?case
  proof (cases "feishu_post_url w bc (tick s)")
    case (Inl e)
    then have "is_Exception e"
      using assms
      by (auto simp: feishu_post_url_def dest: feishu_signed_url_Exception split: option.splits)
    let ?s1 = "s\<lparr>tick := tick s + sign_ticks bc,
        trace := trace s @ [Logged ERROR (FS_EXC @ display_name bc @ '': '' @ exn_str e)]\<rparr>"
    have one: "send_feishu w m bc s = (Inr (), ?s1)"
      using \<open>is_Exception e\<close> by (simp add: send_feishu_unparsed [OF Inl])
    from Cons.IH [of ?s1] obtain s' where
      "for_each (send_feishu w m) bcs ?s1 = (Inr (), s')"
      "posts (trace s') = posts (trace ?s1) @ fst (feishu_plan w m (tick ?s1) bcs)"
      "tick s' = snd (feishu_plan w m (tick ?s1) bcs)" "db s' = db ?s1"
      by blast
    with one Inl show ?thesis
      by (auto simp: and_then_def observe_append split: prod.splits)
  next
    case (Inr url)
    let ?s1 = "s\<lparr>tick := Suc (tick s + sign_ticks bc),
        trace := trace s @ NetPost url (feishu_payload m)
                   # feishu_log w bc (http_post w (tick s + sign_ticks bc) url (feishu_payload m))\<rparr>"
    have one: "send_feishu w m bc s = (Inr (), ?s1)"
      by (simp add: send_feishu_run [OF Inr] dispatch_result_no_interrupt [OF assms])
    from Cons.IH [of ?s1] obtain s' where
      "for_each (send_feishu w m) bcs ?s1 = (Inr (), s')"
      "posts (trace s') = posts (trace ?s1) @ fst (feishu_plan w m (tick ?s1) bcs)"
      "tick s' = snd (feishu_plan w m (tick ?s1) bcs)" "db s' = db ?s1"
      by blast
    with one Inr show ?thesis
      by (auto simp: and_then_def observe_append split: prod.splits)
  qed
qed

lemma send_plan_eq:
  "send_plan w cfg m t =
     (fst (if dingtalk_enable cfg then dingtalk_plan w m t (dingtalk_bots cfg) else ([], t))
      @ fst (if feishu_enable cfg
             then feishu_plan w m
                    (snd (if dingtalk_enable cfg then dingtalk_plan w m t (dingtalk_bots cfg)
                          else ([], t)))
                    (feishu_bots cfg)
             else ([], snd (if dingtalk_enable cfg then dingtalk_plan w m t (dingtalk_bots cfg)
                            else ([], t)))),
      snd (if feishu_enable cfg
           then feishu_plan w m
                  (snd (if dingtalk_enable cfg then dingtalk_plan w m t (dingtalk_bots cfg)
                        else ([], t)))
                  (feishu_bots cfg)
           else ([], snd (if dingtalk_enable cfg then dingtalk_plan w m t (dingtalk_bots cfg)
                          else ([], t)))))"
  by (simp add: send_plan_def Let_def split: prod.splits)

lemma send_all_plan:
  assumes "no_interrupt w"
  shows "\<exists>s'. send_all w cfg m s = (Inr (), s')
           \<and> posts (trace s') = posts (trace s) @ fst (send_plan w cfg m (tick s))
           \<and> tick s' = snd (send_plan w cfg m (tick s)) \<and> db s' = db s"
proof -
  let ?d = "if dingtalk_enable cfg then dingtalk_plan w m (tick s) (dingtalk_bots cfg)
            else ([], tick s)"
  have "\<exists>s1. (if dingtalk_enable cfg then for_each (send_dingtalk w m) (dingtalk_bots cfg)
              else ret ()) s = (Inr (), s1)
          \<and> posts (trace s1) = posts (trace s) @ fst ?d \<and> tick s1 = snd ?d \<and> db s1 = db s"
  proof (cases "dingtalk_enable cfg")
    case True
    with for_each_dingtalk_plan [OF assms, of m "dingtalk_bots cfg" s] show ?thesis by simp
  next
    case False
    then show ?thesis by simp
  qed
  then obtain s1 where d:
    "(if dingtalk_enable cfg then for_each (send_dingtalk w m) (dingtalk_bots cfg)
      else ret ()) s = (Inr (), s1)"
    "posts (trace s1) = posts (trace s) @ fst ?d" "tick s1 = snd ?d" "db s1 = db s"
    by blast
  let ?f = "if feishu_enable cfg then feishu_plan w m (tick s1) (feishu_bots cfg)
            else ([], tick s1)"
  have "\<exists>s2. (if feishu_enable cfg then for_each (send_feishu w m) (feishu_bots cfg)
              else ret ()) s1 = (Inr (), s2)
          \<and> posts (trace s2) = posts (trace s1) @ fst ?f \<and> tick s2 = snd ?f \<and> db s2 = db s1"
  proof (cases "feishu_enable cfg")
    case True
    with for_each_feishu_plan [OF assms, of m "feishu_bots cfg" s1] show ?thesis by simp
  next
    case False
    then show ?thesis by simp
  qed
  then obtain s2 where f:
    "(if feishu_enable cfg then for_each (send_feishu w m) (feishu_bots cfg)
      else ret ()) s1 = (Inr (), s2)"
    "posts (trace s2) = posts (trace s1) @ fst ?f" "tick s2 = snd ?f" "db s2 = db s1"
    by blast
  have "send_all w cfg m s = (Inr (), s2)"
    using d(1) f(1) by (simp add: send_all_def and_then_def)
  moreover have "posts (trace s2) = posts (trace s) @ fst (send_plan w cfg m (tick s))"
    unfolding send_plan_eq using d(2,3) f(2) by simp
  moreover have "tick s2 = snd (send_plan w cfg m (tick s))"
    unfolding send_plan_eq using d(3) f(3) by simp
  ultimately show ?thesis using d(4) f(4) by simp
qed

lemma dingtalk_post_url_http_post:
  "dingtalk_post_url (w\<lparr>http_post := h\<rparr>) bc t = dingtalk_post_url w bc t"
  by (simp add: dingtalk_post_url_def split: option.splits)

lemma feishu_post_url_http_post:
  "feishu_post_url (w\<lparr>http_post := h\<rparr>) bc t = feishu_post_url w bc t"
  by (simp add: feishu_post_url_def feishu_signed_url_def Let_def
      split: option.splits sum.splits)

lemma dingtalk_plan_http_post:
  "dingtalk_plan (w\<lparr>http_post := h\<rparr>) m t bcs = dingtalk_plan w m t bcs"
  by (induction bcs arbitrary: t) (simp_all add: dingtalk_post_url_http_post)

lemma feishu_plan_http_post:
  "feishu_plan (w\<lparr>http_post := h\<rparr>) m t bcs = feishu_plan w m t bcs"
  by (induction bcs arbitrary: t) (simp_all add: feishu_post_url_http_post split: sum.splits)

lemma send_plan_http_post:
  "send_plan (w\<lparr>http_post := h\<rparr>) cfg m t = send_plan w cfg m t"
  by (simp add: send_plan_def dingtalk_plan_http_post feishu_plan_http_post)

lemma dingtalk_plan_unsigned:
  "\<forall>bc \<in> set bcs. signing_secret bc = None
   \<Longrightarrow> dingtalk_plan w m t bcs
       = (map (\<lambda>bc. (webhook bc, dingtalk_payload m)) bcs, t + length bcs)"
  by (induction bcs arbitrary: t) (simp_all add: dingtalk_post_url_def sign_ticks_def)

lemma feishu_plan_unsigned:
  "\<forall>bc \<in> set bcs. signing_secret bc = None
   \<Longrightarrow> feishu_plan w m t bcs
       = (map (\<lambda>bc. (webhook bc, feishu_payload m)) bcs, t + length bcs)"
  by (induction bcs arbitrary: t) (simp_all add: feishu_post_url_def sign_ticks_def)

lemma send_plan_unsigned:
  assumes "\<forall>bc \<in> set (dingtalk_bots cfg @ feishu_bots cfg). signing_secret bc = None"
  shows "fst (send_plan w cfg m t)
       = (if dingtalk_enable cfg
          then map (\<lambda>bc. (webhook bc, dingtalk_payload m)) (dingtalk_bots cfg) else [])
       @ (if feishu_enable cfg
          then map (\<lambda>bc. (webhook bc, feishu_payload m)) (feishu_bots cfg) else [])"
proof -
  from assms have d: "\<forall>bc \<in> set (dingtalk_bots cfg). signing_secret bc = None"
    and f: "\<forall>bc \<in> set (feishu_bots cfg). signing_secret bc = None" by auto
  show ?thesis
    by (simp add: send_plan_def dingtalk_plan_unsigned [OF d] feishu_plan_unsigned [OF f])
qed

lemma send_dingtalk_failed:
  assumes "http_post w (tick s + sign_ticks bc) (dingtalk_post_url w bc (tick s))
             (dingtalk_payload m) = r" "delivery_failed r"
  shows "send_dingtalk w m bc s =
     (Inr (),
      s\<lparr>tick := Suc (tick s + sign_ticks bc),
        trace := trace s @
          [NetPost (dingtalk_post_url w bc (tick s)) (dingtalk_payload m),
           Logged ERROR (DT_FAIL @ display_name bc @ '': ''
                         @ (case r of Raises e \<Rightarrow> exn_str e
                            | Responds resp \<Rightarrow> resp_text resp))]\<rparr>)"
  using assms
  by (cases r)
     (simp_all add: send_dingtalk_run dispatch_result_def dingtalk_log_def delivery_failed_def)

lemma send_feishu_failed:
  assumes "feishu_post_url w bc (tick s) = Inr url"
    "http_post w (tick s + sign_ticks bc) url (feishu_payload m) = r" "delivery_failed r"
  shows "send_feishu w m bc s =
     (Inr (),
      s\<lparr>tick := Suc (tick s + sign_ticks bc),
        trace := trace s @
          [NetPost url (feishu_payload m),
           Logged ERROR
             (case r of
                Raises e \<Rightarrow> FS_EXC @ display_name bc @ '': '' @ exn_str e
              | Responds resp \<Rightarrow>
                  FS_FAIL @ display_name bc @ '': '' @ str_int (status_code resp)
                  @ feishu_error_detail w resp)]\<rparr>)"
  using assms(2,3)
  by (cases r)
     (simp_all add: send_feishu_run [OF assms(1)] dispatch_result_def feishu_log_def
        delivery_failed_def)
section \<open>C1: an event is dispatched at most once\<close>

text \<open>
  Claim C1, as amended. While no write of a marker (the insert and its commit) fails
  with a storage error:
  (1) from a start with an empty trace, after any number \<open>n\<close> of turns of the poll loop the
  event identifier \<open>k\<close> has been handed to \<^verbatim>\<open>send_all\<close> at most once;
  (2) calling \<^verbatim>\<open>mark_pushed\<close> twice with \<open>k\<close> raises nothing either time and, on a table
  with at most one row for \<open>k\<close>, leaves exactly one row for \<open>k\<close>;
  (3) after a pass over a page whose events carry non-null identifiers has returned, a
  second pass over the same page leaves the trace (so: no further dispatch) and the
  database as they are, and counts 0 new events unless a seen-check raises.
\<close>

theorem C1_dispatched_at_most_once:
  assumes "marker_writes_ok w"
  shows "(trace s = [] \<longrightarrow> dispatches_of (JStr k) (trace (snd (monitor w cfg n s))) \<le> 1)
       \<and> (length (markers_of k (db s)) \<le> 1 \<longrightarrow>
            fst (mark_pushed w (JStr k) s) = Inr ()
          \<and> fst (mark_pushed w (JStr k) (snd (mark_pushed w (JStr k) s))) = Inr ()
          \<and> length (markers_of k
               (db (snd (mark_pushed w (JStr k) (snd (mark_pushed w (JStr k) s)))))) = 1)
       \<and> ((\<forall>ev \<in> set evs. event_key ev \<noteq> Some JNull)
            \<and> process_events w cfg evs 0 s = (Inr m, s1)
            \<and> process_events w cfg evs 0 s1 = (r, s2) \<longrightarrow>
            trace s2 = trace s1 \<and> db s2 = db s1 \<and> (r = Inr 0 \<or> (\<exists>e. r = Inl e)))"
proof (intro conjI impI)
  assume "trace s = []"
  then have "dedup_inv s" by (rule dedup_inv_start)
  from monitor_dedup [OF assms this] show
    "dispatches_of (JStr k) (trace (snd (monitor w cfg n s))) \<le> 1"
    by (rule dedup_weak_dispatches)
next
  from assms have nf: "\<And>t. storage_fault w InsertPushed t = None"
    "\<And>t. storage_fault w CommitPushed t = None"
    by (simp_all add: marker_writes_ok_def)
  show "fst (mark_pushed w (JStr k) s) = Inr ()"
    by (rule mark_pushed_once(1) [OF nf])
  show "fst (mark_pushed w (JStr k) (snd (mark_pushed w (JStr k) s))) = Inr ()"
    by (rule mark_pushed_once(1) [OF nf])
  assume "length (markers_of k (db s)) \<le> 1"
  then show "length (markers_of k
               (db (snd (mark_pushed w (JStr k) (snd (mark_pushed w (JStr k) s)))))) = 1"
    by (cases "markers_of k (db s)") (simp_all add: mark_pushed_once(2) [OF nf])
next
  assume a: "(\<forall>ev \<in> set evs. event_key ev \<noteq> Some JNull)
            \<and> process_events w cfg evs 0 s = (Inr m, s1)
            \<and> process_events w cfg evs 0 s1 = (r, s2)"
  then have "\<forall>ev \<in> set evs. \<exists>k. event_key ev = Some k
            \<and> (k = JNull \<or> has_key k (pushed_events (db s1)))"
    using process_events_all_marked [OF assms] by blast
  with a have "\<forall>ev \<in> set evs. \<exists>k. event_key ev = Some k \<and> has_key k (pushed_events (db s1))"
    by fastforce
  from process_events_seen_any [OF this] a
  show "trace s2 = trace s1" "db s2 = db s1" "r = Inr 0 \<or> (\<exists>e. r = Inl e)"
    by blast+
qed

text \<open>
  The amended claim at work: in the quiet world, two turns of the loop over the example
  feed, two insertions of the marker \<open>1001\<close>, and two passes over the example page.
\<close>

theorem C1_dispatched_at_most_once_witness:
  "marker_writes_ok quiet_env
   \<and> trace initial_state = []
   \<and> dispatches_of (JStr ''1001'') (trace (snd (monitor quiet_env example_config 2 initial_state))) \<le> 1
   \<and> length (markers_of ''1001'' (db initial_state)) \<le> 1
   \<and> fst (mark_pushed quiet_env (JStr ''1001'') initial_state) = Inr ()
   \<and> fst (mark_pushed quiet_env (JStr ''1001'')
            (snd (mark_pushed quiet_env (JStr ''1001'') initial_state))) = Inr ()
   \<and> length (markers_of ''1001''
        (db (snd (mark_pushed quiet_env (JStr ''1001'')
                   (snd (mark_pushed quiet_env (JStr ''1001'') initial_state)))))) = 1
   \<and> event_key example_event \<noteq> Some JNull
   \<and> fst (process_events quiet_env example_config [example_event] 0 initial_state) = Inr 1
   \<and> fst (process_events quiet_env example_config [example_event] 0
            (snd (process_events quiet_env example_config [example_event] 0 initial_state)))
       = Inr 0
   \<and> trace (snd (process_events quiet_env example_config [example_event] 0
                   (snd (process_events quiet_env example_config [example_event] 0
                          initial_state))))
       = trace (snd (process_events quiet_env example_config [example_event] 0 initial_state))"
proof -
  have new: "\<not> has_key (JStr ''1001'') (pushed_events (db initial_state))"
    by (simp add: has_key_def initial_state_def empty_database_def)
  from process_event_new [OF quiet_env_storage_ok quiet_env_no_interrupt example_event_key new]
  obtain s' where "process_event quiet_env example_config example_event initial_state = (Inr True, s')"
    by blast
  then have first: "process_events quiet_env example_config [example_event] 0 initial_state
                      = (Inr 1, s')"
    by (simp add: and_then_def)
  obtain r s2 where second:
    "process_events quiet_env example_config [example_event] 0 s' = (r, s2)"
    by (cases "process_events quiet_env example_config [example_event] 0 s'")
  have t0: "trace initial_state = []" and m0: "length (markers_of ''1001'' (db initial_state)) \<le> 1"
    by (simp_all add: initial_state_def markers_of_def empty_database_def)
  have keys: "\<forall>ev \<in> set [example_event]. event_key ev \<noteq> Some JNull"
    by (simp add: example_event_key)
  have "\<forall>ev \<in> set [example_event]. \<exists>k. event_key ev = Some k \<and> has_key k (pushed_events (db s'))"
    using process_events_all_marked [OF quiet_env_marker_writes_ok first] keys by fastforce
  from process_events_seen [OF quiet_env_storage_ok this, of example_config 0] second
  have r: "r = Inr 0" by simp
  from C1_dispatched_at_most_once [OF quiet_env_marker_writes_ok, of initial_state "''1001''"
         example_config 2 "[example_event]" 1 s' r s2]
       t0 m0 keys first second r quiet_env_marker_writes_ok
  show ?thesis by simp
qed

text \<open>
  The claim as stated fails when an insert of the marker fails: the first insert finds
  the database locked, the loop backs off and polls again, and the same event is handed
  to \<^verbatim>\<open>send_all\<close> and posted to the webhook a second time.
\<close>

theorem C1_dispatched_twice_counterexample:
  "dispatch_summary (trace (snd (monitor locked_once_env one_bot_config 2 initial_state)))
     = ([JStr ''1001'', JStr ''1001''],
        [''https://oapi.dingtalk.com/robot/send?access_token=a'',
         ''https://oapi.dingtalk.com/robot/send?access_token=a''])"
  by code_simp

section \<open>C2: the second call for a repository uses the cache\<close>

text \<open>
  Claim C2, as amended. Let a first call of \<^verbatim>\<open>_get_repo_details\<close> for the repository
  \<open>name\<close> return \<open>v\<close> and leave \<open>name\<close> in the cache: it found it there, or it received
  status 200 and stored the answer, the commit of that write did not fail, and the
  description and language of the answer are text or null and its star count is an
  integer of 64 bits or null. Then a second call, whose read of the cache succeeds,
  returns the same \<open>v\<close> and sends no request: it changes nothing but the tick.
  Whatever the first call did, a call for a name that is in the cache returns the cached
  values without a request, and a call for a name that is not sends the request.
\<close>

theorem C2_second_call_uses_cache:
  assumes "storage_fault w SelectRepo (tick s1) = None"
  shows "(get_repo_details w (JStr name) s = (Inr v, s1)
          \<and> cached_details name (db s1) \<noteq> None
          \<and> (cached_details name (db s) = None \<longrightarrow>
               repo_commits_ok w
               \<and> is_text (fst v) \<and> is_text (fst (snd v)) \<and> is_count (snd (snd v)))
          \<longrightarrow> get_repo_details w (JStr name) s1 = (Inr v, s1\<lparr>tick := Suc (tick s1)\<rparr>)
            \<and> gets (trace (s1\<lparr>tick := Suc (tick s1)\<rparr>)) = gets (trace s1))
       \<and> (cached_details name (db s1) = Some v
          \<longrightarrow> get_repo_details w (JStr name) s1 = (Inr v, s1\<lparr>tick := Suc (tick s1)\<rparr>))
       \<and> (cached_details name (db s1) = None
          \<longrightarrow> gets (trace (snd (get_repo_details w (JStr name) s1)))
              = gets (trace s1) @ [repo_url_api w (JStr name)])"
proof (intro conjI impI)
  assume a: "get_repo_details w (JStr name) s = (Inr v, s1)
          \<and> cached_details name (db s1) \<noteq> None
          \<and> (cached_details name (db s) = None \<longrightarrow>
               repo_commits_ok w
               \<and> is_text (fst v) \<and> is_text (fst (snd v)) \<and> is_count (snd (snd v)))"
  then have run: "get_repo_details w (JStr name) s = (Inr v, s1)" by simp
  have "cached_details name (db s1) = Some v"
  proof (cases "cached_details name (db s)")
    case (Some v0)
    have ok: "storage_fault w SelectRepo (tick s) = None"
      using run
      by (cases "storage_fault w SelectRepo (tick s)")
         (simp_all add: get_repo_details_def and_then_def get_repo_info_run)
    from get_repo_details_hit [OF ok Some] run Some show ?thesis by simp
  next
    case None
    with a have c: "storage_fault w CommitRepo (Suc (Suc (Suc (tick s)))) = None"
      and ty: "is_text (fst v)" "is_text (fst (snd v))" "is_count (snd (snd v))"
      by (simp_all add: repo_commits_ok_def)
    from get_repo_details_returns [OF run c] a None ty show ?thesis
      by (auto simp: is_text_sql_text_at is_count_sql_integer)
  qed
  from get_repo_details_hit [OF assms this]
  show "get_repo_details w (JStr name) s1 = (Inr v, s1\<lparr>tick := Suc (tick s1)\<rparr>)" .
  show "gets (trace (s1\<lparr>tick := Suc (tick s1)\<rparr>)) = gets (trace s1)" by simp
next
  assume "cached_details name (db s1) = Some v"
  from get_repo_details_hit [OF assms this]
  show "get_repo_details w (JStr name) s1 = (Inr v, s1\<lparr>tick := Suc (tick s1)\<rparr>)" .
next
  assume "cached_details name (db s1) = None"
  then have "select_row (JStr name) (repo_cache (db s1)) = None"
    by (auto simp: cached_details_def split: option.splits)
  from get_repo_details_miss_gets [OF assms sql_text_JStr this]
  show "gets (trace (snd (get_repo_details w (JStr name) s1)))
          = gets (trace s1) @ [repo_url_api w (JStr name)]" .
qed

text \<open>
  The amended claim at work: the metadata service answers the first call, which sends
  one request; the second call returns the same values and the list of requests is as
  it was.
\<close>

theorem C2_second_call_uses_cache_witness:
  "storage_fault helpful_env SelectRepo
     (tick (snd (get_repo_details helpful_env (JStr ''alice/widgets'') initial_state))) = None
   \<and> fst (get_repo_details helpful_env (JStr ''alice/widgets'') initial_state)
       = Inr (JStr ''Widgets for all'', JStr ''Python'', JInt 42)
   \<and> cached_details ''alice/widgets''
        (db (snd (get_repo_details helpful_env (JStr ''alice/widgets'') initial_state))) \<noteq> None
   \<and> repo_commits_ok helpful_env
   \<and> is_text (JStr ''Widgets for all'') \<and> is_text (JStr ''Python'') \<and> is_count (JInt 42)
   \<and> fst (get_repo_details helpful_env (JStr ''alice/widgets'')
            (snd (get_repo_details helpful_env (JStr ''alice/widgets'') initial_state)))
       = Inr (JStr ''Widgets for all'', JStr ''Python'', JInt 42)
   \<and> gets (trace (snd (get_repo_details helpful_env (JStr ''alice/widgets'')
            (snd (get_repo_details helpful_env (JStr ''alice/widgets'') initial_state)))))
       = [''https://api.github.com/repos/alice/widgets'']"
proof -
  let ?v = "(JStr ''Widgets for all'', JStr ''Python'', JInt 42)"
  let ?s1 = "snd (get_repo_details helpful_env (JStr ''alice/widgets'') initial_state)"
  have ok: "storage_fault helpful_env SelectRepo (tick ?s1) = None"
    by (simp add: helpful_env_def quiet_env_def)
  have com: "repo_commits_ok helpful_env"
    by (simp add: repo_commits_ok_def helpful_env_def quiet_env_def)
  have first: "get_repo_details helpful_env (JStr ''alice/widgets'') initial_state = (Inr ?v, ?s1)"
    using helpful_first_call by (metis prod.collapse)
  have ty: "is_text (JStr ''Widgets for all'')" "is_text (JStr ''Python'')" "is_count (JInt 42)"
    by (simp_all add: is_text_def is_count_def)
  from C2_second_call_uses_cache [OF ok, of "''alice/widgets''" initial_state ?v]
       first helpful_first_call ty com
  have "get_repo_details helpful_env (JStr ''alice/widgets'') ?s1
          = (Inr ?v, ?s1\<lparr>tick := Suc (tick ?s1)\<rparr>)"
    by simp
  with ok helpful_first_call ty com show ?thesis by simp
qed

text \<open>
  The claim as stated fails after a first call whose lookup failed: the service answers
  503, the first call returns the default, nothing is cached, and the second call sends
  the request again and returns other values.
\<close>

theorem C2_second_call_fetches_counterexample:
  "fst (get_repo_details recovering_env (JStr ''alice/widgets'')
         initial_state) = Inr default_details
   \<and> fst (get_repo_details recovering_env (JStr ''alice/widgets'')
           (snd (get_repo_details recovering_env (JStr ''alice/widgets'') initial_state)))
       = Inr (JStr ''Widgets for all'', JStr ''Python'', JInt 42)
   \<and> gets (trace (snd (get_repo_details recovering_env (JStr ''alice/widgets'')
           (snd (get_repo_details recovering_env (JStr ''alice/widgets'') initial_state)))))
       = [''https://api.github.com/repos/alice/widgets'',
          ''https://api.github.com/repos/alice/widgets'']"
  by code_simp

text \<open>
  Why the amended claim asks that the commit did not fail: when the commit of the write
  finds the database locked, the first call returns the default, the row it wrote stays
  readable on the connection, and the second call returns the values of that row (and
  sends no request).
\<close>

lemma uncommitted_row_is_read:
  "fst (get_repo_details busy_commit_env (JStr ''alice/widgets'') initial_state)
     = Inr default_details
   \<and> fst (get_repo_details busy_commit_env (JStr ''alice/widgets'')
           (snd (get_repo_details busy_commit_env (JStr ''alice/widgets'') initial_state)))
       = Inr (JStr ''Widgets for all'', JStr ''Python'', JInt 42)
   \<and> gets (trace (snd (get_repo_details busy_commit_env (JStr ''alice/widgets'')
           (snd (get_repo_details busy_commit_env (JStr ''alice/widgets'') initial_state)))))
       = [''https://api.github.com/repos/alice/widgets'']"
  by code_simp
section \<open>C3: a failed lookup of the repository does not stop the notification\<close>





section \<open>C4: the formatter never raises\<close>

text \<open>
  Claim C4. No \<^verbatim>\<open>Exception\<close> leaves \<^verbatim>\<open>format_message\<close>, whatever the event; with
  nothing interrupting the process it returns a message. When the assembly raises the
  \<^verbatim>\<open>Exception\<close> \<open>e\<close>, the result is the fallback document of \<open>e\<close>, which holds the line
  that says the formatting failed and the text of \<open>e\<close>, and one error line is logged. An
  event without \<^verbatim>\<open>created_at\<close> always gets a fallback document. The fallback document is
  accepted by \<^verbatim>\<open>send_all\<close> like any message.
\<close>

theorem C4_formatter_never_raises:
  "(format_message w ev s = (Inl e, s') \<longrightarrow> \<not> is_Exception e)
   \<and> (no_interrupt w \<longrightarrow> (\<exists>msg s'. format_message w ev s = (Inr msg, s')))
   \<and> (assemble_message w ev s = (Inl e, s1) \<and> is_Exception e \<longrightarrow>
        format_message w ev s
          = (Inr (fallback_message e),
             s1\<lparr>trace := trace s1 @ [Logged ERROR (ERR_FORMAT @ exn_str e)]\<rparr>))
   \<and> contains FB_WARN (fallback_message e)
   \<and> contains (exn_str e) (fallback_message e)
   \<and> (no_interrupt w \<and> py_getitem ev ''created_at'' = Inl e0 \<longrightarrow>
        (\<exists>e' s'. format_message w ev s = (Inr (fallback_message e'), s')))
   \<and> (no_interrupt w \<longrightarrow> (\<exists>s'. send_all w cfg (fallback_message e) s = (Inr (), s')))"
  using raises_onlyD [OF format_message_raises, of w ev s e s']
        format_message_returns [of w ev s]
        format_message_fallback [of w ev s e s1]
        fallback_contains_warning [of e] fallback_contains_error [of e]
        format_message_without_created_at [of w ev e0 s]
        send_all_returns [of w cfg "fallback_message e" s]
  by blast

text \<open>
  The claim at work: the event without \<^verbatim>\<open>created_at\<close> in the quiet world. The assembly
  raises \<^verbatim>\<open>KeyError('created_at')\<close>, the formatter returns the fallback document, and
  \<^verbatim>\<open>send_all\<close> takes it.
\<close>

theorem C4_formatter_never_raises_witness:
  "no_interrupt quiet_env
   \<and> py_getitem undated_event ''created_at'' = Inl (Exn KeyError (repr_key ''created_at''))
   \<and> fst (assemble_message quiet_env undated_event initial_state)
       = Inl (Exn KeyError (repr_key ''created_at''))
   \<and> is_Exception (Exn KeyError (repr_key ''created_at''))
   \<and> fst (format_message quiet_env undated_event initial_state)
       = Inr (fallback_message (Exn KeyError (repr_key ''created_at'')))
   \<and> contains FB_WARN (fallback_message (Exn KeyError (repr_key ''created_at'')))
   \<and> contains (repr_key ''created_at'') (fallback_message (Exn KeyError (repr_key ''created_at'')))
   \<and> fst (send_all quiet_env example_config
            (fallback_message (Exn KeyError (repr_key ''created_at''))) initial_state) = Inr ()"
proof -
  let ?e = "Exn KeyError (repr_key ''created_at'')"
  let ?s1 = "snd (assemble_message quiet_env undated_event initial_state)"
  have k: "py_getitem undated_event ''created_at'' = Inl ?e"
    by (simp add: py_getitem_def undated_event_def)
  have a: "assemble_message quiet_env undated_event initial_state = (Inl ?e, ?s1)"
    using undated_event_assembly by (metis prod.collapse)
  have e: "is_Exception ?e" by (simp add: is_Exception_def)
  note c4 = C4_formatter_never_raises [of quiet_env undated_event initial_state ?e ?s1 ?s1 ?e
              example_config]
  from c4 a e have f: "fst (format_message quiet_env undated_event initial_state)
                         = Inr (fallback_message ?e)"
    by simp
  from c4 quiet_env_no_interrupt obtain s' where
    "send_all quiet_env example_config (fallback_message ?e) initial_state = (Inr (), s')"
    by blast
  then have d: "fst (send_all quiet_env example_config (fallback_message ?e) initial_state) = Inr ()"
    by simp
  from c4 have "contains FB_WARN (fallback_message ?e)"
    "contains (exn_str ?e) (fallback_message ?e)" by blast+
  with quiet_env_no_interrupt k undated_event_assembly e f d show ?thesis by simp
qed

section \<open>C7: a failing channel stops neither the other channels nor the marker\<close>

text \<open>
  Claim C7. No \<^verbatim>\<open>Exception\<close> leaves \<^verbatim>\<open>_send_dingtalk\<close>, \<^verbatim>\<open>_send_feishu\<close> or \<^verbatim>\<open>send_all\<close>
  (only an interrupt does). A delivery that fails, because the request raises an
  \<^verbatim>\<open>Exception\<close> or because the status is not 200, is caught by its dispatcher, which
  logs one error line naming the bot and returns. Without interrupts \<^verbatim>\<open>send_all\<close> returns,
  leaves the database alone, and has posted exactly the requests of \<open>send_plan\<close>: these
  do not depend on what the webhooks answer, and when no bot has a secret they are one
  post of the same message to the webhook of every bot of every enabled channel. And a
  new event is handed to \<^verbatim>\<open>send_all\<close> and then gets its one marker row, whatever the
  webhooks answer (storage working, no interrupt).
\<close>

theorem C7_channel_isolation:
  "((send_dingtalk w m bc s = (Inl e, s') \<or> send_feishu w m bc s = (Inl e, s')
      \<or> send_all w cfg m s = (Inl e, s'))
    \<longrightarrow> \<not> is_Exception e)
   \<and> (http_post w (tick s + sign_ticks bc) (dingtalk_post_url w bc (tick s))
         (dingtalk_payload m) = r
       \<and> delivery_failed r
    \<longrightarrow> send_dingtalk w m bc s =
         (Inr (),
          s\<lparr>tick := Suc (tick s + sign_ticks bc),
            trace := trace s @
              [NetPost (dingtalk_post_url w bc (tick s)) (dingtalk_payload m),
               Logged ERROR (DT_FAIL @ display_name bc @ '': ''
                             @ (case r of Raises x \<Rightarrow> exn_str x
                                | Responds resp \<Rightarrow> resp_text resp))]\<rparr>))
   \<and> (feishu_post_url w bc (tick s) = Inr url
       \<and> http_post w (tick s + sign_ticks bc) url (feishu_payload m) = r
       \<and> delivery_failed r
    \<longrightarrow> send_feishu w m bc s =
         (Inr (),
          s\<lparr>tick := Suc (tick s + sign_ticks bc),
            trace := trace s @
              [NetPost url (feishu_payload m),
               Logged ERROR
                 (case r of
                    Raises x \<Rightarrow> FS_EXC @ display_name bc @ '': '' @ exn_str x
                  | Responds resp \<Rightarrow>
                      FS_FAIL @ display_name bc @ '': '' @ str_int (status_code resp)
                      @ feishu_error_detail w resp)]\<rparr>))
   \<and> (no_interrupt w
    \<longrightarrow> (\<exists>s1. send_all w cfg m s = (Inr (), s1)
           \<and> posts (trace s1) = posts (trace s) @ fst (send_plan w cfg m (tick s))
           \<and> db s1 = db s))
   \<and> send_plan (w\<lparr>http_post := h\<rparr>) cfg m t = send_plan w cfg m t
   \<and> ((\<forall>b \<in> set (dingtalk_bots cfg @ feishu_bots cfg). signing_secret b = None)
    \<longrightarrow> fst (send_plan w cfg m t)
        = (if dingtalk_enable cfg
           then map (\<lambda>b. (webhook b, dingtalk_payload m)) (dingtalk_bots cfg) else [])
        @ (if feishu_enable cfg
           then map (\<lambda>b. (webhook b, feishu_payload m)) (feishu_bots cfg) else []))
   \<and> (storage_ok w \<and> no_interrupt w \<and> event_key ev = Some k
       \<and> \<not> has_key k (pushed_events (db s))
    \<longrightarrow> (\<exists>i msg tm s2. process_event w cfg ev s = (Inr True, s2)
           \<and> py_getitem ev ''id'' = Inr i
           \<and> sent_ids (trace s2) = sent_ids (trace s) @ [i]
           \<and> pushed_events (db s2) = pushed_events (db s) @ [(k, tm)]
           \<and> SendAll i msg \<in> set (trace s2)))"
proof (intro conjI impI)
  assume "send_dingtalk w m bc s = (Inl e, s') \<or> send_feishu w m bc s = (Inl e, s')
      \<or> send_all w cfg m s = (Inl e, s')"
  then show "\<not> is_Exception e"
    using raises_onlyD [OF send_dingtalk_raises, of w m bc s e s']
          raises_onlyD [OF send_feishu_raises, of w m bc s e s']
          raises_onlyD [OF send_all_raises, of w cfg m s e s']
    by blast
next
  assume "http_post w (tick s + sign_ticks bc) (dingtalk_post_url w bc (tick s))
         (dingtalk_payload m) = r \<and> delivery_failed r"
  then show "send_dingtalk w m bc s =
         (Inr (),
          s\<lparr>tick := Suc (tick s + sign_ticks bc),
            trace := trace s @
              [NetPost (dingtalk_post_url w bc (tick s)) (dingtalk_payload m),
               Logged ERROR (DT_FAIL @ display_name bc @ '': ''
                             @ (case r of Raises x \<Rightarrow> exn_str x
                                | Responds resp \<Rightarrow> resp_text resp))]\<rparr>)"
    using send_dingtalk_failed [of w s bc m r] by simp
next
  assume "feishu_post_url w bc (tick s) = Inr url
       \<and> http_post w (tick s + sign_ticks bc) url (feishu_payload m) = r
       \<and> delivery_failed r"
  then show "send_feishu w m bc s =
         (Inr (),
          s\<lparr>tick := Suc (tick s + sign_ticks bc),
            trace := trace s @
              [NetPost url (feishu_payload m),
               Logged ERROR
                 (case r of
                    Raises x \<Rightarrow> FS_EXC @ display_name bc @ '': '' @ exn_str x
                  | Responds resp \<Rightarrow>
                      FS_FAIL @ display_name bc @ '': '' @ str_int (status_code resp)
                      @ feishu_error_detail w resp)]\<rparr>)"
    using send_feishu_failed [of w bc s url m r] by simp
next
  assume "no_interrupt w"
  from send_all_plan [OF this, of cfg m s]
  show "\<exists>s1. send_all w cfg m s = (Inr (), s1)
           \<and> posts (trace s1) = posts (trace s) @ fst (send_plan w cfg m (tick s))
           \<and> db s1 = db s"
    by blast
next
  show "send_plan (w\<lparr>http_post := h\<rparr>) cfg m t = send_plan w cfg m t"
    by (rule send_plan_http_post)
next
  assume "\<forall>b \<in> set (dingtalk_bots cfg @ feishu_bots cfg). signing_secret b = None"
  then show "fst (send_plan w cfg m t)
        = (if dingtalk_enable cfg
           then map (\<lambda>b. (webhook b, dingtalk_payload m)) (dingtalk_bots cfg) else [])
        @ (if feishu_enable cfg
           then map (\<lambda>b. (webhook b, feishu_payload m)) (feishu_bots cfg) else [])"
    by (rule send_plan_unsigned)
next
  assume "storage_ok w \<and> no_interrupt w \<and> event_key ev = Some k
       \<and> \<not> has_key k (pushed_events (db s))"
  then show "\<exists>i msg tm s2. process_event w cfg ev s = (Inr True, s2)
           \<and> py_getitem ev ''id'' = Inr i
           \<and> sent_ids (trace s2) = sent_ids (trace s) @ [i]
           \<and> pushed_events (db s2) = pushed_events (db s) @ [(k, tm)]
           \<and> SendAll i msg \<in> set (trace s2)"
    using process_event_new_summary [of w ev k s cfg] by simp
qed


text \<open>
  The claim at work: the first DingTalk webhook answers 500 and the Feishu webhook is
  unreachable. Each failure is logged by its dispatcher, \<^verbatim>\<open>send_all\<close> returns, all three
  webhooks have been posted to, and the example event is marked once. An interrupt (not
  an \<^verbatim>\<open>Exception\<close>) is what can leave a dispatcher.
\<close>

theorem C7_channel_isolation_witness:
  "fst (send_dingtalk interrupted_post_env ''hi''
         (plain_bot ''https://oapi.dingtalk.com/robot/send?access_token=a'') initial_state)
     = Inl (Exn KeyboardInterrupt [])
   \<and> \<not> is_Exception (Exn KeyboardInterrupt [])
   \<and> http_post failing_channel_env 0 ''https://oapi.dingtalk.com/robot/send?access_token=a''
        (dingtalk_payload ''hi'')
       = Responds \<lparr>status_code = 500, resp_text = ''server error'', resp_json = None\<rparr>
   \<and> delivery_failed
        (Responds \<lparr>status_code = 500, resp_text = ''server error'', resp_json = None\<rparr>)
   \<and> send_dingtalk failing_channel_env ''hi''
        (plain_bot ''https://oapi.dingtalk.com/robot/send?access_token=a'') initial_state
       = (Inr (),
          initial_state\<lparr>tick := 1,
            trace := [NetPost ''https://oapi.dingtalk.com/robot/send?access_token=a''
                        (dingtalk_payload ''hi''),
                      Logged ERROR (DT_FAIL @ UNKNOWN_BOT @ '': server error'')]\<rparr>)
   \<and> feishu_post_url failing_channel_env
        (plain_bot ''https://open.feishu.cn/open-apis/bot/v2/hook/c'') 0
       = Inr ''https://open.feishu.cn/open-apis/bot/v2/hook/c''
   \<and> http_post failing_channel_env 0 ''https://open.feishu.cn/open-apis/bot/v2/hook/c''
        (feishu_payload ''hi'')
       = Raises (Exn RequestException ''connection reset'')
   \<and> delivery_failed (Raises (Exn RequestException ''connection reset''))
   \<and> send_feishu failing_channel_env ''hi''
        (plain_bot ''https://open.feishu.cn/open-apis/bot/v2/hook/c'') initial_state
       = (Inr (),
          initial_state\<lparr>tick := 1,
            trace := [NetPost ''https://open.feishu.cn/open-apis/bot/v2/hook/c''
                        (feishu_payload ''hi''),
                      Logged ERROR (FS_EXC @ UNKNOWN_BOT @ '': connection reset'')]\<rparr>)
   \<and> no_interrupt failing_channel_env
   \<and> map signing_secret (dingtalk_bots example_config @ feishu_bots example_config)
       = [None, None, None]
   \<and> fst (send_all failing_channel_env example_config ''hi'' initial_state) = Inr ()
   \<and> posts (trace (snd (send_all failing_channel_env example_config ''hi'' initial_state)))
       = [(''https://oapi.dingtalk.com/robot/send?access_token=a'', dingtalk_payload ''hi''),
          (''https://oapi.dingtalk.com/robot/send?access_token=b'', dingtalk_payload ''hi''),
          (''https://open.feishu.cn/open-apis/bot/v2/hook/c'', feishu_payload ''hi'')]
   \<and> send_plan failing_channel_env example_config ''hi'' 0
       = send_plan quiet_env example_config ''hi'' 0
   \<and> storage_ok failing_channel_env
   \<and> event_key example_event = Some (JStr ''1001'')
   \<and> \<not> has_key (JStr ''1001'') (pushed_events (db initial_state))
   \<and> fst (process_event failing_channel_env example_config example_event initial_state)
       = Inr True
   \<and> sent_ids (trace (snd (process_event failing_channel_env example_config example_event
                              initial_state)))
       = [JStr ''1001'']
   \<and> map fst (pushed_events
        (db (snd (process_event failing_channel_env example_config example_event
                    initial_state))))
       = [JStr ''1001'']"
proof -
  let ?a = "''https://oapi.dingtalk.com/robot/send?access_token=a''"
  let ?c = "''https://open.feishu.cn/open-apis/bot/v2/hook/c''"
  let ?r500 = "Responds \<lparr>status_code = 500, resp_text = ''server error'', resp_json = None\<rparr>"
  let ?reset = "Raises (Exn RequestException ''connection reset'')"
  let ?ki = "Exn KeyboardInterrupt []"
  let ?si = "snd (send_dingtalk interrupted_post_env ''hi'' (plain_bot ?a) initial_state)"
  have plain: "\<And>u. signing_secret (plain_bot u) = None" "\<And>u. sign_ticks (plain_bot u) = 0"
    "\<And>u. display_name (plain_bot u) = UNKNOWN_BOT" "\<And>u. webhook (plain_bot u) = u"
    "\<And>w u t. dingtalk_post_url w (plain_bot u) t = u"
    "\<And>w u t. feishu_post_url w (plain_bot u) t = Inr u"
    by (simp_all add: signing_secret_def sign_ticks_def display_name_def plain_bot_def
          dingtalk_post_url_def feishu_post_url_def)
  have t0: "tick initial_state = 0" "trace initial_state = []"
    "pushed_events (db initial_state) = []"
    by (simp_all add: initial_state_def empty_database_def)
  have ni: "no_interrupt failing_channel_env"
    by (simp add: no_interrupt_def failing_channel_env_def quiet_env_def raises_Exception_def
          is_Exception_def)
  have ok: "storage_ok failing_channel_env"
    by (simp add: storage_ok_def failing_channel_env_def quiet_env_def)
  have i1: "send_dingtalk interrupted_post_env ''hi'' (plain_bot ?a) initial_state = (Inl ?ki, ?si)"
    by (simp add: send_dingtalk_run plain t0 interrupted_post_env_def dispatch_result_def
          is_Exception_def)
  have h: "http_post failing_channel_env 0 ?a (dingtalk_payload ''hi'') = ?r500"
    "http_post failing_channel_env 0 ?c (feishu_payload ''hi'') = ?reset"
    "delivery_failed ?r500" "delivery_failed ?reset"
    "\<not> has_key (JStr ''1001'') (pushed_events (db initial_state))"
    "map signing_secret (dingtalk_bots example_config @ feishu_bots example_config)
       = [None, None, None]"
    by (simp_all add: failing_channel_env_def delivery_failed_def is_Exception_def has_key_def
          t0 example_config_def plain)
  have unsigned: "\<forall>b \<in> set (dingtalk_bots example_config @ feishu_bots example_config).
                    signing_secret b = None"
    by (simp add: example_config_def plain)
  have fenv: "failing_channel_env = quiet_env\<lparr>http_post := http_post failing_channel_env\<rparr>"
    by (simp add: failing_channel_env_def)
  note c1 = C7_channel_isolation [where w = interrupted_post_env and m = "''hi''"
      and bc = "plain_bot ?a" and s = initial_state and e = ?ki and s' = ?si]
  note c2 = C7_channel_isolation [where w = failing_channel_env and m = "''hi''"
      and bc = "plain_bot ?a" and s = initial_state and r = ?r500
      and cfg = example_config and t = 0 and ev = example_event and k = "JStr ''1001''"]
  note c3 = C7_channel_isolation [where w = failing_channel_env and m = "''hi''"
      and bc = "plain_bot ?c" and s = initial_state and r = ?reset and url = ?c]
  note c4 = C7_channel_isolation [where w = quiet_env and h = "http_post failing_channel_env"
      and cfg = example_config and m = "''hi''" and t = 0]
  from c1 i1 have a: "\<not> is_Exception ?ki" by blast
  from c2 h(1,3) have b: "send_dingtalk failing_channel_env ''hi'' (plain_bot ?a) initial_state
       = (Inr (),
          initial_state\<lparr>tick := 1,
            trace := [NetPost ?a (dingtalk_payload ''hi''),
                      Logged ERROR (DT_FAIL @ UNKNOWN_BOT @ '': server error'')]\<rparr>)"
    by (simp add: plain t0)
  from c3 h(2,4) have c: "send_feishu failing_channel_env ''hi'' (plain_bot ?c) initial_state
       = (Inr (),
          initial_state\<lparr>tick := 1,
            trace := [NetPost ?c (feishu_payload ''hi''),
                      Logged ERROR (FS_EXC @ UNKNOWN_BOT @ '': connection reset'')]\<rparr>)"
    by (simp add: plain t0)
  from c2 ni obtain s1 where
    sa: "send_all failing_channel_env example_config ''hi'' initial_state = (Inr (), s1)"
        "posts (trace s1) = posts (trace initial_state)
           @ fst (send_plan failing_channel_env example_config ''hi'' (tick initial_state))"
    by blast
  from c2 unsigned have pl: "fst (send_plan failing_channel_env example_config ''hi'' 0)
       = [(?a, dingtalk_payload ''hi''),
          (''https://oapi.dingtalk.com/robot/send?access_token=b'', dingtalk_payload ''hi''),
          (?c, feishu_payload ''hi'')]"
    by (simp add: example_config_def plain)
  from sa pl have d: "fst (send_all failing_channel_env example_config ''hi'' initial_state) = Inr ()"
    "posts (trace (snd (send_all failing_channel_env example_config ''hi'' initial_state)))
       = [(?a, dingtalk_payload ''hi''),
          (''https://oapi.dingtalk.com/robot/send?access_token=b'', dingtalk_payload ''hi''),
          (?c, feishu_payload ''hi'')]"
    by (simp_all add: t0)
  from c4 fenv have e: "send_plan failing_channel_env example_config ''hi'' 0
       = send_plan quiet_env example_config ''hi'' 0"
    by metis
  from c2 ok ni example_event_key h(5)
  obtain i' msg tm s2 where
    p: "process_event failing_channel_env example_config example_event initial_state = (Inr True, s2)"
       "py_getitem example_event ''id'' = Inr i'"
       "sent_ids (trace s2) = sent_ids (trace initial_state) @ [i']"
       "pushed_events (db s2) = pushed_events (db initial_state) @ [(JStr ''1001'', tm)]"
    by blast
  from p(2) have "i' = JStr ''1001''" by (simp add: py_getitem_def example_event_def)
  with p have f: "fst (process_event failing_channel_env example_config example_event initial_state) = Inr True"
    "sent_ids (trace (snd (process_event failing_channel_env example_config example_event initial_state)))
       = [JStr ''1001'']"
    "map fst (pushed_events
        (db (snd (process_event failing_channel_env example_config example_event initial_state))))
       = [JStr ''1001'']"
    by (simp_all add: t0)
  from i1 have i1f: "fst (send_dingtalk interrupted_post_env ''hi'' (plain_bot ?a) initial_state)
      = Inl ?ki"
    by (metis fst_conv)
  show ?thesis
    by (intro conjI) (fact i1f a h b c d e f ni ok example_event_key plain)+
qed
section \<open>C8: failures of a poll cycle\<close>

text \<open>
  Claim C8, as amended. When the fetch raises (a network failure), the \<^verbatim>\<open>try\<close> block of
  the cycle ends with that exception; when the \<^verbatim>\<open>try\<close> block ends with any
  \<^verbatim>\<open>Exception\<close>, the cycle logs one error line, sleeps the fixed 60 seconds and, unless
  that sleep is interrupted, returns normally, so that the loop fetches again. The loop
  is left only by a \<^verbatim>\<open>KeyboardInterrupt\<close>, and with nothing interrupting it is still
  polling after any number of cycles. The backoff is longer than the normal sleep exactly
  when the configured poll interval is below 60 seconds.
\<close>

theorem C8_backoff_and_continue:
  "(http_get w (tick s) (feed_url cfg) = Raises e \<longrightarrow>
      cycle_body w cfg s
        = (Inl e, s\<lparr>tick := Suc (tick s), trace := trace s @ [NetGet (feed_url cfg)]\<rparr>))
   \<and> (cycle_body w cfg s = (Inl e, s1) \<and> is_Exception e \<and> \<not> sleep_interrupted w (tick s1) \<longrightarrow>
        poll_cycle w cfg s = (Inr (), backed_off e s1)
      \<and> error_logs (trace (backed_off e s1))
          = error_logs (trace s1) @ [(if is_RequestException e then LOG_NET else LOG_EXC) @ exn_str e]
      \<and> sleeps (trace (backed_off e s1)) = sleeps (trace s1) @ [60000]
      \<and> run_cycles w cfg (Suc n) s = run_cycles w cfg n (backed_off e s1))
   \<and> (run_cycles w cfg n s = (Some e, s') \<longrightarrow> exn_cls e = KeyboardInterrupt)
   \<and> (no_interrupt w \<longrightarrow> fst (monitor w cfg n s) = Polling)
   \<and> (BACKOFF_MS > poll_interval cfg * 1000 \<longleftrightarrow> poll_interval cfg < 60)"
proof (intro conjI impI)
  assume "http_get w (tick s) (feed_url cfg) = Raises e"
  then show "cycle_body w cfg s
        = (Inl e, s\<lparr>tick := Suc (tick s), trace := trace s @ [NetGet (feed_url cfg)]\<rparr>)"
    by (rule cycle_body_fetch_fails)
next
  assume a: "cycle_body w cfg s = (Inl e, s1) \<and> is_Exception e \<and> \<not> sleep_interrupted w (tick s1)"
  then show p: "poll_cycle w cfg s = (Inr (), backed_off e s1)"
    by (simp add: poll_cycle_backoff)
  show "error_logs (trace (backed_off e s1))
          = error_logs (trace s1) @ [(if is_RequestException e then LOG_NET else LOG_EXC) @ exn_str e]"
    by (simp add: backed_off_def observe_append)
  show "sleeps (trace (backed_off e s1)) = sleeps (trace s1) @ [60000]"
    by (simp add: backed_off_def observe_append BACKOFF_MS_def)
  from p show "run_cycles w cfg (Suc n) s = run_cycles w cfg n (backed_off e s1)"
    by simp
next
  assume "run_cycles w cfg n s = (Some e, s')"
  then show "exn_cls e = KeyboardInterrupt" by (rule run_cycles_raises)
next
  assume "no_interrupt w"
  from run_cycles_never_ends [OF this, of cfg n "snd (log INFO LOG_START s)"]
  show "fst (monitor w cfg n s) = Polling"
    by (cases "run_cycles w cfg n (snd (log INFO LOG_START s))") (simp add: monitor_def)
qed (auto simp: BACKOFF_MS_def)

text \<open>
  The amended claim at work: the feed is unreachable in the first cycle; the cycle logs
  the error, sleeps 60 seconds and the loop goes on. In the quiet world the monitor is
  still polling after 3 cycles.
\<close>

theorem C8_backoff_and_continue_witness:
  "http_get flaky_feed_env (tick initial_state) (feed_url example_config)
     = Raises (Exn RequestException ''connection refused'')
   \<and> cycle_body flaky_feed_env example_config initial_state
     = (Inl (Exn RequestException ''connection refused''),
        initial_state\<lparr>tick := 1, trace := [NetGet (feed_url example_config)]\<rparr>)
   \<and> is_Exception (Exn RequestException ''connection refused'')
   \<and> \<not> sleep_interrupted flaky_feed_env 1
   \<and> poll_cycle flaky_feed_env example_config initial_state
     = (Inr (), backed_off (Exn RequestException ''connection refused'')
                  (initial_state\<lparr>tick := 1, trace := [NetGet (feed_url example_config)]\<rparr>))
   \<and> sleeps (trace (backed_off (Exn RequestException ''connection refused'')
                  (initial_state\<lparr>tick := 1, trace := [NetGet (feed_url example_config)]\<rparr>)))
     = [60000]
   \<and> no_interrupt quiet_env
   \<and> fst (monitor quiet_env example_config 3 initial_state) = Polling
   \<and> poll_interval silent_config * 1000 > BACKOFF_MS"
proof -
  let ?e = "Exn RequestException ''connection refused''"
  let ?s1 = "initial_state\<lparr>tick := 1, trace := [NetGet (feed_url example_config)]\<rparr>"
  have f: "http_get flaky_feed_env (tick initial_state) (feed_url example_config) = Raises ?e"
    by (simp add: flaky_feed_env_first initial_state_def)
  have e: "is_Exception ?e" by (simp add: is_Exception_def)
  have ns: "\<not> sleep_interrupted flaky_feed_env (tick ?s1)"
    by (simp add: flaky_feed_env_def quiet_env_def)
  have s1: "initial_state\<lparr>tick := Suc (tick initial_state),
              trace := trace initial_state @ [NetGet (feed_url example_config)]\<rparr> = ?s1"
    by (simp add: initial_state_def)
  have tr: "sleeps (trace ?s1) = []" by simp
  have iv: "poll_interval silent_config * 1000 > BACKOFF_MS"
    by (simp add: silent_config_def BACKOFF_MS_def)
  from C8_backoff_and_continue [of flaky_feed_env initial_state example_config ?e ?s1 0]
       C8_backoff_and_continue [of quiet_env initial_state example_config ?e ?s1 3]
       f e ns s1 tr iv quiet_env_no_interrupt
  show ?thesis by simp
qed

text \<open>
  The claim as stated fails on the length of the backoff: with a poll interval of 120
  seconds, the sleep after the failed cycle (60 seconds) is shorter than the sleep after
  the normal cycle that follows (120 seconds).
\<close>

theorem C8_backoff_shorter_counterexample:
  "run_summary (monitor flaky_feed_env example_config 2 initial_state)
     = (Polling,
        [''https://api.github.com/users/bob/received_events'',
         ''https://api.github.com/users/bob/received_events''],
        [60000, 120000],
        1)"
  by code_simp

section \<open>C9: a storage error of the seen-check\<close>

text \<open>
  Claim C9, as amended. A storage error \<open>e\<close> of the seen-check is not handled in
  \<^verbatim>\<open>is_pushed\<close>: it reaches the caller, the event is neither dispatched nor marked, and
  the pass over the page ends. It is not fatal: the loop's handler for \<^verbatim>\<open>Exception\<close> logs
  it, sleeps the 60 seconds of the backoff and the loop polls again (the process goes on).
\<close>

theorem C9_storage_error_backs_off:
  assumes "http_get w (tick s) (feed_url cfg) = Responds r"
    and "resp_json r = Some (JList (ev # rest))"
    and "py_getitem ev ''id'' = Inr i"
    and "storage_fault w SelectPushed (Suc (tick s)) = Some e"
    and "is_Exception e"
    and "\<not> sleep_interrupted w (Suc (Suc (tick s)))"
  shows "is_pushed w i (s\<lparr>tick := Suc (tick s), trace := trace s @ [NetGet (feed_url cfg)]\<rparr>)
           = (Inl e, s\<lparr>tick := Suc (Suc (tick s)), trace := trace s @ [NetGet (feed_url cfg)]\<rparr>)
       \<and> poll_cycle w cfg s
           = (Inr (), backed_off e
                (s\<lparr>tick := Suc (Suc (tick s)), trace := trace s @ [NetGet (feed_url cfg)]\<rparr>))
       \<and> db (backed_off e
                (s\<lparr>tick := Suc (Suc (tick s)), trace := trace s @ [NetGet (feed_url cfg)]\<rparr>)) = db s
       \<and> trace (backed_off e
                (s\<lparr>tick := Suc (Suc (tick s)), trace := trace s @ [NetGet (feed_url cfg)]\<rparr>))
           = trace s @ [NetGet (feed_url cfg),
                        Logged ERROR ((if is_RequestException e then LOG_NET else LOG_EXC) @ exn_str e),
                        Slept BACKOFF_MS]
       \<and> run_cycles w cfg (Suc n) s
           = run_cycles w cfg n (backed_off e
                (s\<lparr>tick := Suc (Suc (tick s)), trace := trace s @ [NetGet (feed_url cfg)]\<rparr>))"
proof -
  let ?s1 = "s\<lparr>tick := Suc (Suc (tick s)), trace := trace s @ [NetGet (feed_url cfg)]\<rparr>"
  have b: "cycle_body w cfg s = (Inl e, ?s1)"
    by (rule cycle_body_check_fails [OF assms(1-4)])
  have p: "poll_cycle w cfg s = (Inr (), backed_off e ?s1)"
    using assms(5,6) by (intro poll_cycle_backoff [OF b]) simp_all
  show ?thesis
    using assms(4) p by (simp add: is_pushed_fault backed_off_def)
qed

text \<open>
  The amended claim at work: the first seen-check of the first cycle meets a disk error.
\<close>

theorem C9_storage_error_backs_off_witness:
  "http_get broken_check_env (tick initial_state) (feed_url example_config)
     = Responds (plain_response 200 (Some example_feed))
   \<and> resp_json (plain_response 200 (Some example_feed)) = Some (JList [example_event])
   \<and> py_getitem example_event ''id'' = Inr (JStr ''1001'')
   \<and> storage_fault broken_check_env SelectPushed (Suc (tick initial_state))
     = Some (Exn SqliteError ''disk I/O error'')
   \<and> is_Exception (Exn SqliteError ''disk I/O error'')
   \<and> \<not> sleep_interrupted broken_check_env (Suc (Suc (tick initial_state)))
   \<and> fst (poll_cycle broken_check_env example_config initial_state) = Inr ()
   \<and> trace (snd (poll_cycle broken_check_env example_config initial_state))
     = [NetGet (feed_url example_config),
        Logged ERROR (LOG_EXC @ ''disk I/O error''),
        Slept BACKOFF_MS]
   \<and> db (snd (poll_cycle broken_check_env example_config initial_state)) = empty_database"
proof -
  have h: "http_get broken_check_env (tick initial_state) (feed_url example_config)
             = Responds (plain_response 200 (Some example_feed))"
    "resp_json (plain_response 200 (Some example_feed)) = Some (JList [example_event])"
    "py_getitem example_event ''id'' = Inr (JStr ''1001'')"
    "storage_fault broken_check_env SelectPushed (Suc (tick initial_state))
       = Some (Exn SqliteError ''disk I/O error'')"
    "is_Exception (Exn SqliteError ''disk I/O error'')"
    "\<not> sleep_interrupted broken_check_env (Suc (Suc (tick initial_state)))"
    by (simp_all add: broken_check_env_def quiet_env_def feed_url_def example_config_def
          plain_response_def example_feed_def example_event_def py_getitem_def
          initial_state_def is_Exception_def)
  from C9_storage_error_backs_off [OF h, of 0] h
  show ?thesis
    by (simp add: initial_state_def is_RequestException_def)
qed

text \<open>
  The claim as stated fails: after the disk error of the first seen-check the process has
  not stopped. It logs one error, sleeps 60 seconds, fetches the feed again, handles the
  event and is still polling.
\<close>

theorem C9_not_fatal_counterexample:
  "storage_fault broken_check_env SelectPushed 1 = Some (Exn SqliteError ''disk I/O error'')
   \<and> run_summary (monitor broken_check_env silent_config 2 initial_state)
     = (Polling,
        [''https://api.github.com/users/bob/received_events'',
         ''https://api.github.com/users/bob/received_events'',
         ''https://api.github.com/users/alice'',
         ''https://api.github.com/repos/alice/widgets''],
        [60000, 500, 120000],
        1)"
  by code_simp

section \<open>C10: a failed lookup writes nothing to the caches\<close>




end
